(* ===== verification/Prelude.thy ===== *)
theory Prelude
  imports Main "HOL-Library.Word" "HOL-Library.Sublist" "HOL-Library.AList"
begin

text \<open>
  Shared notions of the development: results that may raise, Python text as lists of code
  points, time stamps, UUIDs, and the generic list lemmas the components use.

  \<^item> A call that may raise is a value of a sum type: \<open>Inl\<close> carries the exception, \<open>Inr\<close> the
    result. \<open>bindE\<close> sequences two calls, \<open>guardE\<close> is a raising \<open>if\<close>, \<open>mapE\<close> a comprehension.
  \<^item> Text is \<open>string\<close>: every character stands for one code point below 256 (Latin-1), and
    \<open>py_strip\<close> and \<open>py_lower\<close> are \<open>str.strip\<close> and \<open>str.lower\<close> on that range.
  \<^item> A \<open>datetime\<close> is naive or aware; an aware one is its instant in microseconds, which is all
    that comparison and arithmetic of aware values read.
  \<^item> A UUID is a 128-bit word; \<open>uuid_str\<close> is its canonical text.
\<close>

section \<open>Raising computations\<close>

named_theorems errE_simps \<open>rules that decide whether a raising computation returns\<close>

fun bindE :: "'e + 'a \<Rightarrow> ('a \<Rightarrow> 'e + 'b) \<Rightarrow> 'e + 'b" where
  "bindE (Inl e) f = Inl e"
| "bindE (Inr x) f = f x"

definition guardE :: "bool \<Rightarrow> 'e \<Rightarrow> 'e + unit" where
  "guardE b e = (if b then Inr () else Inl e)"

fun mapE :: "('a \<Rightarrow> 'e + 'b) \<Rightarrow> 'a list \<Rightarrow> 'e + 'b list" where
  "mapE f [] = Inr []"
| "mapE f (x # xs) = bindE (f x) (\<lambda>y. bindE (mapE f xs) (\<lambda>ys. Inr (y # ys)))"

fun optE :: "('a \<Rightarrow> 'e + 'b) \<Rightarrow> 'a option \<Rightarrow> 'e + 'b option" where
  "optE f None = Inr None"
| "optE f (Some x) = bindE (f x) (\<lambda>y. Inr (Some y))"

lemma bindE_Inr_iff [errE_simps]: "bindE m f = Inr y \<longleftrightarrow> (\<exists>x. m = Inr x \<and> f x = Inr y)"
  by (cases m) auto

lemma bindE_Inl_iff [errE_simps]:
  "bindE m f = Inl e \<longleftrightarrow> m = Inl e \<or> (\<exists>x. m = Inr x \<and> f x = Inl e)"
  by (cases m) auto

lemma guardE_Inr_iff [errE_simps]: "guardE b e = Inr u \<longleftrightarrow> b"
  by (simp add: guardE_def)

lemma guardE_Inl_iff [errE_simps]: "guardE b e = Inl e' \<longleftrightarrow> \<not> b \<and> e' = e"
  by (auto simp: guardE_def)

lemma guardE_True [simp]: "guardE True e = Inr ()"
  by (simp add: guardE_def)

lemma guardE_False [simp]: "guardE False e = Inl e"
  by (simp add: guardE_def)

lemma bindE_guardE: "bindE (guardE b e) f = (if b then f () else Inl e)"
  by (simp add: guardE_def)

lemma mapE_Inr_map: "(\<And>x. x \<in> set xs \<Longrightarrow> f x = Inr (g x)) \<Longrightarrow> mapE f xs = Inr (map g xs)"
  by (induction xs) auto

lemma mapE_map_id: "(\<And>x. x \<in> set xs \<Longrightarrow> f (g x) = Inr x) \<Longrightarrow> mapE f (map g xs) = Inr xs"
  by (induction xs) auto

lemma mapE_Inr_length: "mapE f xs = Inr ys \<Longrightarrow> length ys = length xs"
  by (induction xs arbitrary: ys) (auto simp: errE_simps)

lemma mapE_Inr_set: "mapE f xs = Inr ys \<Longrightarrow> y \<in> set ys \<Longrightarrow> \<exists>x \<in> set xs. f x = Inr y"
  by (induction xs arbitrary: ys) (auto simp: errE_simps)

section \<open>Actions on a store\<close>

text \<open>
  A call that reads and writes a store \<open>'s\<close> and may raise: what it wrote before raising stays.
\<close>

type_synonym ('s, 'e, 'a) action = "'s \<Rightarrow> 's \<times> ('e + 'a)"

definition returnA :: "'a \<Rightarrow> ('s, 'e, 'a) action" where
  "returnA x s = (s, Inr x)"

definition bindA :: "('s, 'e, 'a) action \<Rightarrow> ('a \<Rightarrow> ('s, 'e, 'b) action) \<Rightarrow> ('s, 'e, 'b) action" where
  "bindA m f s = (case m s of (s', Inl e) \<Rightarrow> (s', Inl e) | (s', Inr x) \<Rightarrow> f x s')"

definition liftA :: "'e + 'a \<Rightarrow> ('s, 'e, 'a) action" where
  \<comment> \<open>a call that does not touch the store\<close>
  "liftA m s = (s, m)"

definition readA :: "('s \<Rightarrow> 'e + 'a) \<Rightarrow> ('s, 'e, 'a) action" where
  "readA f s = (s, f s)"

definition writeA :: "('s \<Rightarrow> 'e + 's \<times> 'a) \<Rightarrow> ('s, 'e, 'a) action" where
  \<comment> \<open>a transaction: nothing is written when it raises\<close>
  "writeA f s = (case f s of Inl e \<Rightarrow> (s, Inl e) | Inr (s', x) \<Rightarrow> (s', Inr x))"

definition tryA :: "('s, 'e, 'a) action \<Rightarrow> ('e \<Rightarrow> ('s, 'f, 'b) action) \<Rightarrow> ('a \<Rightarrow> ('s, 'f, 'b) action) \<Rightarrow>
  ('s, 'f, 'b) action" where
  \<comment> \<open>\<open>try: x = m except e: h e else: f x\<close>\<close>
  "tryA m h f s = (case m s of (s', Inl e) \<Rightarrow> h e s' | (s', Inr x) \<Rightarrow> f x s')"

lemmas action_defs = returnA_def bindA_def liftA_def readA_def writeA_def tryA_def

lemma returnA_apply [simp]: "returnA x s = (s, Inr x)"
  by (simp add: returnA_def)

lemma liftA_apply [simp]: "liftA m s = (s, m)"
  by (simp add: liftA_def)

lemma readA_apply [simp]: "readA f s = (s, f s)"
  by (simp add: readA_def)

lemma bindA_Inr_iff [errE_simps]:
  "bindA m f s = (t, Inr y) \<longleftrightarrow> (\<exists>s' x. m s = (s', Inr x) \<and> f x s' = (t, Inr y))"
  by (auto simp: bindA_def split: prod.splits sum.splits)

lemma bindA_step:
  "m s = (s', Inr x) \<Longrightarrow> bindA m f s = f x s'"
  "m s = (s', Inl e) \<Longrightarrow> bindA m f s = (s', Inl e)"
  by (simp_all add: bindA_def)

lemma bindA_simps [simp]:
  "bindA (liftA (Inr x)) f s = f x s" "bindA (liftA (Inl e)) f s = (s, Inl e)"
  "bindA (returnA x) f s = f x s"
  by (simp_all add: bindA_def)

lemma bindA_readA: "bindA (readA g) f s = (case g s of Inl e \<Rightarrow> (s, Inl e) | Inr x \<Rightarrow> f x s)"
  by (simp add: bindA_def)

lemma writeA_Inr: "g s = Inr (s', x) \<Longrightarrow> writeA g s = (s', Inr x)"
  by (simp add: writeA_def)

lemma writeA_Inl: "g s = Inl e \<Longrightarrow> writeA g s = (s, Inl e)"
  by (simp add: writeA_def)

lemma bindA_assoc: "bindA (bindA m f) g = bindA m (\<lambda>x. bindA (f x) g)"
  by (rule ext) (simp add: bindA_def split: prod.split sum.split)

lemma bindA_cong: "(\<And>x. f x = g x) \<Longrightarrow> bindA m f = bindA m g"
  by (simp add: bindA_def fun_eq_iff split: prod.split sum.split)

lemma bindA_bindE: "bindA (liftA (bindE m (\<lambda>x. Inr (h x)))) f = bindA (liftA m) (\<lambda>x. f (h x))"
  by (cases m) (simp_all add: fun_eq_iff)

lemma bindA_return_fun: "bindA (returnA x) f = f x" "bindA (liftA (Inr x)) f = f x"
  by (simp_all add: fun_eq_iff)

section \<open>Lists\<close>

text \<open>The position of the first element that satisfies a predicate: a Python search loop.\<close>

fun first_index :: "('a \<Rightarrow> bool) \<Rightarrow> 'a list \<Rightarrow> nat option" where
  "first_index P [] = None"
| "first_index P (x # xs) = (if P x then Some 0 else map_option Suc (first_index P xs))"

lemma first_index_Some:
  "first_index P xs = Some i \<Longrightarrow> i < length xs \<and> P (xs ! i) \<and> (\<forall>j<i. \<not> P (xs ! j))"
proof (induction xs arbitrary: i)
  case (Cons x xs)
  show ?case
  proof (cases "P x")
    case True
    with Cons.prems show ?thesis by simp
  next
    case False
    with Cons.prems obtain k where k: "first_index P xs = Some k" "i = Suc k" by auto
    with Cons.IH have "k < length xs \<and> P (xs ! k) \<and> (\<forall>j<k. \<not> P (xs ! j))" by blast
    with k False show ?thesis by (auto simp: less_Suc_eq_0_disj)
  qed
qed simp

lemma first_index_None: "first_index P xs = None \<longleftrightarrow> (\<forall>x \<in> set xs. \<not> P x)"
  by (induction xs) auto

lemma first_index_map: "first_index P (map f xs) = first_index (\<lambda>x. P (f x)) xs"
  by (induction xs) auto

lemma first_index_cong:
  assumes "map f xs = map f ys"
  shows "first_index (\<lambda>x. P (f x)) xs = first_index (\<lambda>x. P (f x)) ys"
  by (simp only: first_index_map [symmetric] assms)

lemma first_index_unique:
  assumes "i < length xs" "P (xs ! i)" "\<And>j. j < length xs \<Longrightarrow> P (xs ! j) \<Longrightarrow> j = i"
  shows "first_index P xs = Some i"
proof (cases "first_index P xs")
  case None
  then show ?thesis using assms(1,2) nth_mem by (fastforce simp: first_index_None)
next
  case (Some k)
  with first_index_Some[OF Some] assms(3) show ?thesis by blast
qed

lemma length_filter_le1_unique:
  assumes "length (filter P xs) \<le> 1" "i < length xs" "j < length xs" "P (xs ! i)" "P (xs ! j)"
  shows "i = j"
proof (rule ccontr)
  assume "i \<noteq> j"
  have "length (filter P xs) = card {k. k < length xs \<and> P (xs ! k)}"
    by (rule length_filter_conv_card)
  moreover have "card {i, j} \<le> card {k. k < length xs \<and> P (xs ! k)}"
    using assms(2-5) by (intro card_mono) auto
  ultimately show False using \<open>i \<noteq> j\<close> assms(1) by simp
qed

lemma length_filter_update:
  assumes "i < length xs"
  shows "length (filter P (xs[i := y])) + (if P (xs ! i) then 1 else 0)
       = length (filter P xs) + (if P y then 1 else 0)"
proof -
  have "xs = take i xs @ xs ! i # drop (Suc i) xs"
    using assms by (simp add: id_take_nth_drop)
  then have "length (filter P xs) = length (filter P (take i xs @ xs ! i # drop (Suc i) xs))"
    by simp
  moreover have "xs[i := y] = take i xs @ y # drop (Suc i) xs"
    using assms by (simp add: upd_conv_take_nth_drop)
  ultimately show ?thesis by simp
qed

definition numbered_from_1 :: "int list \<Rightarrow> bool" where
  \<comment> \<open>\<open>ns == list(range(1, len(ns) + 1))\<close>\<close>
  "numbered_from_1 ns \<longleftrightarrow> ns = map int [1..<Suc (length ns)]"

lemma numbered_from_1_Nil [simp]: "numbered_from_1 []"
  by (simp add: numbered_from_1_def)

lemma numbered_from_1_snoc [simp]:
  "numbered_from_1 (ns @ [k]) \<longleftrightarrow> numbered_from_1 ns \<and> k = int (length ns) + 1"
  by (auto simp: numbered_from_1_def)

lemma numbered_from_1_nth:
  "numbered_from_1 ns \<Longrightarrow> i < length ns \<Longrightarrow> ns ! i = int i + 1"
  unfolding numbered_from_1_def by (metis One_nat_def add.commute length_map length_upt
      nth_map nth_upt of_nat_Suc plus_1_eq_Suc less_diff_conv diff_Suc_1)

lemma pred_option_code [code]: "pred_option P None = True" "pred_option P (Some x) = P x"
  by simp_all

section \<open>Python text\<close>

definition py_space :: "char \<Rightarrow> bool" where
  \<comment> \<open>\<open>str.isspace\<close> below code point 256\<close>
  "py_space c \<longleftrightarrow> of_char c \<in> {9, 10, 11, 12, 13, 28, 29, 30, 31, 32, 133, 160 :: nat}"

definition py_strip :: "string \<Rightarrow> string" where
  "py_strip s = rev (dropWhile py_space (rev (dropWhile py_space s)))"

definition py_lower_char :: "char \<Rightarrow> char" where
  "py_lower_char c =
     (let n = of_char c :: nat
      in if 65 \<le> n \<and> n \<le> 90 \<or> 192 \<le> n \<and> n \<le> 222 \<and> n \<noteq> 215 then char_of (n + 32) else c)"

definition py_lower :: "string \<Rightarrow> string" where
  "py_lower = map py_lower_char"

definition py_contains :: "string \<Rightarrow> string \<Rightarrow> bool" where
  \<comment> \<open>\<open>part in s\<close>\<close>
  "py_contains part s \<longleftrightarrow> list_ex (prefix part) (suffixes s)"

definition trimmed :: "string \<Rightarrow> bool" where
  "trimmed s \<longleftrightarrow> s \<noteq> [] \<and> \<not> py_space (hd s) \<and> \<not> py_space (last s)"

lemma dropWhile_id: "s = [] \<or> \<not> P (hd s) \<Longrightarrow> dropWhile P s = s"
  by (cases s) auto

lemma py_strip_trimmed: "trimmed s \<Longrightarrow> py_strip s = s"
  by (simp add: py_strip_def trimmed_def dropWhile_id hd_rev)

lemma trimmed_py_strip:
  assumes "py_strip s \<noteq> []"
  shows "trimmed (py_strip s)"
proof -
  define d where "d = dropWhile py_space s"
  define r where "r = dropWhile py_space (rev d)"
  have strip: "py_strip s = rev r" by (simp add: py_strip_def d_def r_def)
  with assms have r: "r \<noteq> []" by simp
  then have hd_r: "\<not> py_space (hd r)" unfolding r_def by (rule hd_dropWhile)
  obtain p where p: "rev d = p @ r"
    using r_def by (metis takeWhile_dropWhile_id)
  then have d: "d = rev r @ rev p" by (metis rev_append rev_rev_ident)
  with r have "d \<noteq> []" by simp
  then have "\<not> py_space (hd d)" unfolding d_def by (rule hd_dropWhile)
  with d r have "\<not> py_space (hd (rev r))" by simp
  with r hd_r strip show ?thesis by (simp add: trimmed_def last_rev)
qed

lemma py_strip_idem [simp]: "py_strip (py_strip s) = py_strip s"
proof (cases "py_strip s = []")
  case True
  then show ?thesis unfolding True by (simp add: py_strip_def)
next
  case False
  then show ?thesis by (intro py_strip_trimmed trimmed_py_strip)
qed

lemma trimmed_nonempty: "trimmed s \<Longrightarrow> s \<noteq> []"
  by (simp add: trimmed_def)

lemma trimmed_prefix:
  "p \<noteq> [] \<Longrightarrow> \<not> py_space (hd p) \<Longrightarrow> trimmed s \<Longrightarrow> trimmed (p @ s)"
  by (simp add: trimmed_def)

text \<open>Character classes of the regular expressions in the source.\<close>

definition is_upper :: "char \<Rightarrow> bool" where
  "is_upper c \<longleftrightarrow> 65 \<le> (of_char c :: nat) \<and> (of_char c :: nat) \<le> 90"

definition is_lower :: "char \<Rightarrow> bool" where
  "is_lower c \<longleftrightarrow> 97 \<le> (of_char c :: nat) \<and> (of_char c :: nat) \<le> 122"

definition is_digit :: "char \<Rightarrow> bool" where
  "is_digit c \<longleftrightarrow> 48 \<le> (of_char c :: nat) \<and> (of_char c :: nat) \<le> 57"

definition is_alnum :: "char \<Rightarrow> bool" where
  "is_alnum c \<longleftrightarrow> is_upper c \<or> is_lower c \<or> is_digit c"

text \<open>\<open>[first][rest]{lo,hi}\<close> matched against the whole text.\<close>

fun head_tail_match :: "(char \<Rightarrow> bool) \<Rightarrow> (char \<Rightarrow> bool) \<Rightarrow> nat \<Rightarrow> nat \<Rightarrow> string \<Rightarrow> bool" where
  "head_tail_match P Q lo hi [] = False"
| "head_tail_match P Q lo hi (c # cs) =
     (P c \<and> list_all Q cs \<and> lo \<le> length cs \<and> length cs \<le> hi)"

text \<open>\<open>[a-z][a-z0-9]*(?:[._-][a-z0-9]+)*\<close> matched against the whole text.\<close>

fun ident_tail :: "bool \<Rightarrow> string \<Rightarrow> bool" where
  \<comment> \<open>\<open>[a-z0-9]*(?:[._-][a-z0-9]+)*\<close>; the flag says that a letter or digit came last\<close>
  "ident_tail ok [] = ok"
| "ident_tail ok (c # cs) =
     (if is_lower c \<or> is_digit c then ident_tail True cs
      else c \<in> set ''._-'' \<and> ok \<and> ident_tail False cs)"

fun is_identifier :: "string \<Rightarrow> bool" where
  "is_identifier [] = False"
| "is_identifier (c # cs) = (is_lower c \<and> ident_tail True cs)"

lemma is_identifier_chars:
  "is_identifier s \<Longrightarrow> c \<in> set s \<Longrightarrow> is_lower c \<or> is_digit c \<or> c \<in> set ''._-''"
proof -
  have tail: "ident_tail ok s \<Longrightarrow> c \<in> set s \<Longrightarrow> is_lower c \<or> is_digit c \<or> c \<in> set ''._-''" for ok s
    by (induction ok s rule: ident_tail.induct) (auto split: if_splits)
  show "is_identifier s \<Longrightarrow> c \<in> set s \<Longrightarrow> is_lower c \<or> is_digit c \<or> c \<in> set ''._-''"
    using tail by (cases s) auto
qed

lemma ident_char_not_space: "is_lower c \<or> is_digit c \<or> c \<in> set ''._-'' \<Longrightarrow> \<not> py_space c"
  by (auto simp: is_lower_def is_digit_def py_space_def)

lemma is_identifier_trimmed: "is_identifier s \<Longrightarrow> trimmed s"
proof -
  assume s: "is_identifier s"
  then have "s \<noteq> []" by auto
  with is_identifier_chars [OF s] ident_char_not_space show ?thesis
    unfolding trimmed_def by (metis hd_in_set last_in_set)
qed

section \<open>Values of untyped mappings\<close>

text \<open>
  The values the code stores in, or accepts from, untyped mappings. A float is only ever
  asked whether it is finite; every other object is \<open>VOther\<close>.
\<close>

datatype py_value = VStr string | VInt int | VBool bool | VFloat bool | VNone | VOther

type_synonym py_dict = "(string \<times> py_value) list"

definition dict_keys :: "(string \<times> 'v) list \<Rightarrow> string set" where
  "dict_keys d = fst ` set d"

lemma dict_keys_code [simp]: "dict_keys [] = {}" "dict_keys (x # d) = insert (fst x) (dict_keys d)"
  by (simp_all add: dict_keys_def)

section \<open>Time\<close>

datatype datetime = Naive int | Aware int

section \<open>UUIDs\<close>

type_synonym uuid = "128 word"

definition uuid_nibble :: "uuid \<Rightarrow> nat \<Rightarrow> nat" where
  "uuid_nibble u i = unat (take_bit 4 (drop_bit (4 * i) u))"

definition hex_digit :: "nat \<Rightarrow> char" where
  "hex_digit n = ''0123456789abcdef'' ! n"

definition uuid_hex :: "uuid \<Rightarrow> string" where
  "uuid_hex u = map (\<lambda>i. hex_digit (uuid_nibble u i)) (rev [0..<32])"

definition uuid_str :: "uuid \<Rightarrow> string" where
  "uuid_str u =
     (let h = uuid_hex u
      in take 8 h @ ''-'' @ take 4 (drop 8 h) @ ''-'' @ take 4 (drop 12 h) @ ''-''
         @ take 4 (drop 16 h) @ ''-'' @ drop 20 h)"

lemma uuid_nibble_less: "uuid_nibble u i < 16"
proof -
  have "uuid_nibble u i = take_bit 4 (unat (drop_bit (4 * i) u))"
    by (simp add: uuid_nibble_def unsigned_take_bit_eq)
  also have "\<dots> < 16"
    using take_bit_nat_less_exp [of 4] by simp
  finally show ?thesis .
qed

lemma hex_digit_inj: "m < 16 \<Longrightarrow> n < 16 \<Longrightarrow> hex_digit m = hex_digit n \<Longrightarrow> m = n"
proof -
  assume "m < 16" "n < 16" "hex_digit m = hex_digit n"
  moreover have "distinct ''0123456789abcdef''" by simp
  moreover have "length ''0123456789abcdef'' = 16" by simp
  ultimately show "m = n" unfolding hex_digit_def by (metis nth_eq_iff_index_eq)
qed

lemma uuid_nibbles_determine:
  fixes u v :: uuid
  assumes "\<And>i. i < 32 \<Longrightarrow> uuid_nibble u i = uuid_nibble v i"
  shows "u = v"
proof (rule bit_word_eqI)
  fix n assume "n < LENGTH(128)"
  then have i: "n div 4 < 32" by simp
  have eq: "take_bit 4 (drop_bit (4 * (n div 4)) u) = take_bit 4 (drop_bit (4 * (n div 4)) v)"
    using assms [OF i] unfolding uuid_nibble_def by (simp only: word_unat_eq_iff)
  have "4 * (n div 4) + n mod 4 = n" by simp
  then have "bit w n = bit (take_bit 4 (drop_bit (4 * (n div 4)) w)) (n mod 4)" for w :: uuid
    by (simp add: bit_take_bit_iff bit_drop_bit_eq)
  with eq show "bit u n = bit v n" by simp
qed

lemma uuid_hex_inj: "uuid_hex u = uuid_hex v \<Longrightarrow> u = v"
proof (rule uuid_nibbles_determine)
  fix i :: nat assume eq: "uuid_hex u = uuid_hex v" and i: "i < 32"
  then have "hex_digit (uuid_nibble u i) = hex_digit (uuid_nibble v i)"
    unfolding uuid_hex_def by (auto simp: map_eq_conv)
  then show "uuid_nibble u i = uuid_nibble v i"
    by (intro hex_digit_inj uuid_nibble_less)
qed

lemma length_uuid_hex [simp]: "length (uuid_hex u) = 32"
  by (simp add: uuid_hex_def)

lemma split_five:
  fixes h :: string
  shows "h = take 8 h @ take 4 (drop 8 h) @ take 4 (drop 12 h) @ take 4 (drop 16 h) @ drop 20 h"
proof -
  have "drop 8 h = take 4 (drop 8 h) @ drop 12 h"
    using append_take_drop_id [of 4 "drop 8 h"] by simp
  moreover have "drop 12 h = take 4 (drop 12 h) @ drop 16 h"
    using append_take_drop_id [of 4 "drop 12 h"] by simp
  moreover have "drop 16 h = take 4 (drop 16 h) @ drop 20 h"
    using append_take_drop_id [of 4 "drop 16 h"] by simp
  moreover have "h = take 8 h @ drop 8 h" by simp
  ultimately show ?thesis by metis
qed

lemma uuid_str_inj: "uuid_str u = uuid_str v \<Longrightarrow> u = v"
proof -
  assume eq: "uuid_str u = uuid_str v"
  let ?h = "uuid_hex u" and ?k = "uuid_hex v"
  have "take 8 ?h = take 8 ?k \<and> take 4 (drop 8 ?h) = take 4 (drop 8 ?k)
      \<and> take 4 (drop 12 ?h) = take 4 (drop 12 ?k) \<and> take 4 (drop 16 ?h) = take 4 (drop 16 ?k)
      \<and> drop 20 ?h = drop 20 ?k"
    using eq by (simp add: uuid_str_def Let_def append_eq_append_conv)
  then have "?h = ?k" using split_five [of ?h] split_five [of ?k] by metis
  then show "u = v" by (rule uuid_hex_inj)
qed

lemma hex_digit_not_space: "n < 16 \<Longrightarrow> \<not> py_space (hex_digit n)"
proof -
  assume "n < 16"
  moreover have "list_all (\<lambda>c. \<not> py_space c) ''0123456789abcdef''"
    by (simp add: py_space_def)
  ultimately show ?thesis by (simp add: hex_digit_def list_all_length)
qed

lemma uuid_hex_not_space: "c \<in> set (uuid_hex u) \<Longrightarrow> \<not> py_space c"
  by (auto simp: uuid_hex_def hex_digit_not_space uuid_nibble_less)

lemma trimmed_uuid_str [simp]: "trimmed (uuid_str u)"
proof -
  let ?h = "uuid_hex u"
  have ne: "?h \<noteq> []" using length_uuid_hex [of u] by (metis list.size(3) zero_neq_numeral)
  have "drop 20 ?h \<noteq> []" by simp
  then have "last (uuid_str u) = last (drop 20 ?h)"
    by (simp add: uuid_str_def Let_def)
  then have "last (uuid_str u) \<in> set ?h"
    using \<open>drop 20 ?h \<noteq> []\<close> by (metis in_set_dropD last_in_set)
  moreover have "hd (uuid_str u) \<in> set ?h"
    using ne by (cases ?h) (simp_all add: uuid_str_def Let_def)
  moreover have "uuid_str u \<noteq> []" by (simp add: uuid_str_def Let_def)
  ultimately show ?thesis by (simp add: trimmed_def uuid_hex_not_space)
qed

end
