(* ===== verification/Task_Events.thy ===== *)
theory Task_Events
  imports Prelude
begin

text \<open>
  The values of the Task domain (\<open>app/platform/task/errors.py\<close> and the first part of
  \<open>app/platform/task/domain/models.py\<close>): the exceptions, the status and event enumerations, the
  text, time, code and fingerprint checks, the per-event metadata whitelist, and the event
  constructor with its checks. Exceptions carry no message; \<open>ValueError\<close>, which the source
  raises for unrelated reasons, carries the reason instead.

  The lemmas show that the metadata filter returns exactly the clean mappings, that it is the
  identity on what it returned, and that nothing it returns has a sensitive key.
\<close>

section \<open>Exceptions and enumerations\<close>

datatype value_reason =
    Blank_text | Naive_time | Bad_failure_code | Bad_fingerprint | Bad_metadata
  | Bad_event | Bad_attempt | Bad_task | Bad_renewal | Bad_retry_time | Bad_finish_status
  | Broken_invariant | Bad_enum_value | Bad_limit | Bad_worker_setup

datatype task_error =
    ValueError value_reason
  | TaskNotFoundError
  | TaskStateTransitionError
  | TaskIdempotencyConflictError
  | TaskLeaseRejectedError
  | TaskSchemaUnavailableError
  | TaskSubmissionPrincipalError
  | TaskSubmissionPolicyError
  | TaskExecutorUnavailableError
  | TaskAccessDeniedError
  | TaskUnavailableError
  | TaskResultResourceUnavailableError
  | IntegrityError
  | SQLAlchemyError
  | IndexError

datatype task_status =
  QUEUED | RUNNING | RETRY_WAIT | CANCEL_REQUESTED | SUCCEEDED | FAILED | CANCELLED

datatype attempt_status =
  ATT_ACTIVE | ATT_SUCCEEDED | ATT_FAILED | ATT_CANCELLED | ATT_EXPIRED

datatype failure_category = TRANSIENT | PERMANENT | LEASE_EXPIRED

datatype task_event_type =
    TASK_CREATED | TASK_CLAIMED | TASK_CANCEL_REQUESTED | TASK_CANCELLED | TASK_SUCCEEDED
  | TASK_FAILED | TASK_RETRY_SCHEDULED | TASK_REQUEUED | TASK_RETRY_REQUESTED | TASK_RECOVERED

fun task_status_value :: "task_status \<Rightarrow> string" where
  "task_status_value QUEUED = ''queued''"
| "task_status_value RUNNING = ''running''"
| "task_status_value RETRY_WAIT = ''retry_wait''"
| "task_status_value CANCEL_REQUESTED = ''cancel_requested''"
| "task_status_value SUCCEEDED = ''succeeded''"
| "task_status_value FAILED = ''failed''"
| "task_status_value CANCELLED = ''cancelled''"

fun attempt_status_value :: "attempt_status \<Rightarrow> string" where
  "attempt_status_value ATT_ACTIVE = ''active''"
| "attempt_status_value ATT_SUCCEEDED = ''succeeded''"
| "attempt_status_value ATT_FAILED = ''failed''"
| "attempt_status_value ATT_CANCELLED = ''cancelled''"
| "attempt_status_value ATT_EXPIRED = ''expired''"

fun failure_category_value :: "failure_category \<Rightarrow> string" where
  "failure_category_value TRANSIENT = ''transient''"
| "failure_category_value PERMANENT = ''permanent''"
| "failure_category_value LEASE_EXPIRED = ''lease_expired''"

fun task_event_type_value :: "task_event_type \<Rightarrow> string" where
  "task_event_type_value TASK_CREATED = ''TASK_CREATED''"
| "task_event_type_value TASK_CLAIMED = ''TASK_CLAIMED''"
| "task_event_type_value TASK_CANCEL_REQUESTED = ''TASK_CANCEL_REQUESTED''"
| "task_event_type_value TASK_CANCELLED = ''TASK_CANCELLED''"
| "task_event_type_value TASK_SUCCEEDED = ''TASK_SUCCEEDED''"
| "task_event_type_value TASK_FAILED = ''TASK_FAILED''"
| "task_event_type_value TASK_RETRY_SCHEDULED = ''TASK_RETRY_SCHEDULED''"
| "task_event_type_value TASK_REQUEUED = ''TASK_REQUEUED''"
| "task_event_type_value TASK_RETRY_REQUESTED = ''TASK_RETRY_REQUESTED''"
| "task_event_type_value TASK_RECOVERED = ''TASK_RECOVERED''"

text \<open>\<open>StrEnum(value)\<close>: the member with this value, or \<open>ValueError\<close>.\<close>

definition enum_of_value :: "('m \<Rightarrow> string) \<Rightarrow> 'm list \<Rightarrow> string \<Rightarrow> task_error + 'm" where
  "enum_of_value val members s =
     (case find (\<lambda>m. val m = s) members of
        Some m \<Rightarrow> Inr m | None \<Rightarrow> Inl (ValueError Bad_enum_value))"

definition task_status_of :: "string \<Rightarrow> task_error + task_status" where
  "task_status_of = enum_of_value task_status_value
     [QUEUED, RUNNING, RETRY_WAIT, CANCEL_REQUESTED, SUCCEEDED, FAILED, CANCELLED]"

definition attempt_status_of :: "string \<Rightarrow> task_error + attempt_status" where
  "attempt_status_of = enum_of_value attempt_status_value
     [ATT_ACTIVE, ATT_SUCCEEDED, ATT_FAILED, ATT_CANCELLED, ATT_EXPIRED]"

definition failure_category_of :: "string \<Rightarrow> task_error + failure_category" where
  "failure_category_of = enum_of_value failure_category_value [TRANSIENT, PERMANENT, LEASE_EXPIRED]"

definition task_event_type_of :: "string \<Rightarrow> task_error + task_event_type" where
  "task_event_type_of = enum_of_value task_event_type_value
     [TASK_CREATED, TASK_CLAIMED, TASK_CANCEL_REQUESTED, TASK_CANCELLED, TASK_SUCCEEDED,
      TASK_FAILED, TASK_RETRY_SCHEDULED, TASK_REQUEUED, TASK_RETRY_REQUESTED, TASK_RECOVERED]"

lemma task_status_roundtrip: "task_status_of (task_status_value s) = Inr s"
  by (cases s) (simp_all add: task_status_of_def enum_of_value_def)

lemma attempt_status_roundtrip: "attempt_status_of (attempt_status_value s) = Inr s"
  by (cases s) (simp_all add: attempt_status_of_def enum_of_value_def)

lemma failure_category_roundtrip: "failure_category_of (failure_category_value s) = Inr s"
  by (cases s) (simp_all add: failure_category_of_def enum_of_value_def)

lemma task_event_type_roundtrip: "task_event_type_of (task_event_type_value s) = Inr s"
  by (cases s) (simp_all add: task_event_type_of_def enum_of_value_def)

lemmas enum_roundtrip [simp] =
  task_status_roundtrip attempt_status_roundtrip failure_category_roundtrip
  task_event_type_roundtrip

section \<open>Checked values\<close>

definition require_text :: "string \<Rightarrow> task_error + string" where
  "require_text value =
     (if py_strip value = [] then Inl (ValueError Blank_text) else Inr (py_strip value))"

definition require_text_value :: "py_value \<Rightarrow> task_error + string" where
  \<comment> \<open>\<open>_require_text\<close> on an untyped value: only a string passes\<close>
  "require_text_value v =
     (case v of VStr s \<Rightarrow> require_text s | _ \<Rightarrow> Inl (ValueError Blank_text))"

fun require_utc :: "datetime \<Rightarrow> task_error + int" where
  "require_utc (Naive t) = Inl (ValueError Naive_time)"
| "require_utc (Aware t) = Inr t"

fun require_utc_opt :: "datetime option \<Rightarrow> task_error + int" where
  \<comment> \<open>\<open>_require_utc\<close> on a value that may be \<open>None\<close>\<close>
  "require_utc_opt None = Inl (ValueError Naive_time)"
| "require_utc_opt (Some d) = require_utc d"

definition is_safe_failure_code :: "string \<Rightarrow> bool" where
  "is_safe_failure_code =
     head_tail_match is_upper (\<lambda>c. is_upper c \<or> is_digit c \<or> c = CHR ''_'') 0 63"

definition is_safe_fingerprint :: "string \<Rightarrow> bool" where
  "is_safe_fingerprint =
     head_tail_match is_alnum (\<lambda>c. is_alnum c \<or> c \<in> set ''._:-'') 0 127"

definition require_safe_failure_code :: "string \<Rightarrow> task_error + string" where
  "require_safe_failure_code value =
     bindE (require_text value) (\<lambda>code.
       if is_safe_failure_code code then Inr code else Inl (ValueError Bad_failure_code))"

definition require_safe_fingerprint :: "string \<Rightarrow> task_error + string" where
  "require_safe_fingerprint value =
     bindE (require_text value) (\<lambda>fingerprint.
       if is_safe_fingerprint fingerprint then Inr fingerprint
       else Inl (ValueError Bad_fingerprint))"

section \<open>Event metadata\<close>

definition sensitive_metadata_parts :: "string list" where
  "sensitive_metadata_parts =
     [''input'', ''token'', ''exception'', ''traceback'', ''authorization'', ''api_key'',
      ''provider_response'', ''raw_response'', ''credential'', ''password'', ''secret'']"

fun event_metadata_fields :: "task_event_type \<Rightarrow> string list" where
  "event_metadata_fields TASK_CREATED = [''task_type'']"
| "event_metadata_fields TASK_CLAIMED = [''attempt_number'', ''claim_id'', ''worker_id'']"
| "event_metadata_fields TASK_CANCEL_REQUESTED = []"
| "event_metadata_fields TASK_CANCELLED = [''attempt_number'', ''cancel_mode'']"
| "event_metadata_fields TASK_SUCCEEDED = [''attempt_number'', ''result_fingerprint'']"
| "event_metadata_fields TASK_FAILED =
     [''attempt_number'', ''failure_category'', ''failure_code'']"
| "event_metadata_fields TASK_RETRY_SCHEDULED =
     [''attempt_number'', ''failure_category'', ''failure_code'']"
| "event_metadata_fields TASK_REQUEUED = []"
| "event_metadata_fields TASK_RETRY_REQUESTED = []"
| "event_metadata_fields TASK_RECOVERED = [''attempt_number'', ''outcome'']"

fun optional_event_metadata_fields :: "task_event_type \<Rightarrow> string list" where
  "optional_event_metadata_fields TASK_CANCELLED = [''attempt_number'']"
| "optional_event_metadata_fields _ = []"

definition is_sensitive_key :: "string \<Rightarrow> bool" where
  "is_sensitive_key key \<longleftrightarrow> list_ex (\<lambda>part. py_contains part (py_lower key)) sensitive_metadata_parts"

definition safe_metadata_entry ::
  "string list \<Rightarrow> string \<Rightarrow> py_value \<Rightarrow> task_error + string \<times> py_value" where
  \<comment> \<open>one round of the loop of \<open>_safe_metadata\<close>\<close>
  "safe_metadata_entry allowed key v =
     bindE (require_text key) (\<lambda>key_text.
       if is_sensitive_key key_text then Inl (ValueError Bad_metadata)
       else if key_text \<notin> set allowed then Inl (ValueError Bad_metadata)
       else if v = VFloat False then Inl (ValueError Bad_metadata)
       else if key_text = ''attempt_number'' then
         (case v of
            VInt n \<Rightarrow> if n \<le> 0 then Inl (ValueError Bad_metadata) else Inr (key_text, VInt n)
          | _ \<Rightarrow> Inl (ValueError Bad_metadata))
       else if key_text = ''failure_code'' then
         bindE (require_text_value v) (\<lambda>s. bindE (require_safe_failure_code s) (\<lambda>c.
           Inr (key_text, VStr c)))
       else if key_text = ''result_fingerprint'' then
         bindE (require_text_value v) (\<lambda>s. bindE (require_safe_fingerprint s) (\<lambda>f.
           Inr (key_text, VStr f)))
       else bindE (require_text_value v) (\<lambda>s. Inr (key_text, VStr s)))"

fun safe_metadata_loop :: "string list \<Rightarrow> py_dict \<Rightarrow> py_dict \<Rightarrow> task_error + py_dict" where
  "safe_metadata_loop allowed normalized [] = Inr normalized"
| "safe_metadata_loop allowed normalized ((key, v) # rest) =
     bindE (safe_metadata_entry allowed key v) (\<lambda>(k, w).
       safe_metadata_loop allowed (AList.update k w normalized) rest)"

definition safe_metadata :: "task_event_type \<Rightarrow> py_dict \<Rightarrow> task_error + py_dict" where
  "safe_metadata event_type metadata =
     bindE (safe_metadata_loop (event_metadata_fields event_type) [] metadata) (\<lambda>normalized.
       if list_all (\<lambda>f. f \<in> dict_keys normalized)
            (filter (\<lambda>f. f \<notin> set (optional_event_metadata_fields event_type))
              (event_metadata_fields event_type))
       then Inr normalized else Inl (ValueError Bad_metadata))"

section \<open>Events\<close>

record task_event =
  e_task_id :: uuid
  e_sequence :: int
  e_transition_id :: string
  e_event_type :: task_event_type
  e_metadata :: py_dict
  e_created_at :: int
  e_id :: uuid

definition mk_event ::
  "uuid \<Rightarrow> int \<Rightarrow> string \<Rightarrow> task_event_type \<Rightarrow> py_dict \<Rightarrow> datetime \<Rightarrow> uuid \<Rightarrow> task_error + task_event" where
  "mk_event task_id sequence transition_id event_type metadata created_at eid =
     bindE (guardE (0 < sequence) (ValueError Bad_event)) (\<lambda>_.
     bindE (require_text transition_id) (\<lambda>transition.
     bindE (safe_metadata event_type metadata) (\<lambda>md.
     bindE (require_utc created_at) (\<lambda>created.
       Inr \<lparr>e_task_id = task_id, e_sequence = sequence, e_transition_id = transition,
            e_event_type = event_type, e_metadata = md, e_created_at = created, e_id = eid\<rparr>))))"

section \<open>What the checks accept\<close>

lemma require_text_Inr_iff [errE_simps]:
  "require_text s = Inr t \<longleftrightarrow> t = py_strip s \<and> trimmed t"
  using trimmed_py_strip [of s] by (auto simp: require_text_def trimmed_def)

lemma require_text_trimmed [simp]: "trimmed s \<Longrightarrow> require_text s = Inr s"
  by (simp add: errE_simps py_strip_trimmed)

lemma require_utc_Inr_iff [errE_simps]: "require_utc d = Inr t \<longleftrightarrow> d = Aware t"
  by (cases d) auto

lemma require_utc_opt_Inr_iff [errE_simps]: "require_utc_opt d = Inr t \<longleftrightarrow> d = Some (Aware t)"
  by (cases d) (auto simp: errE_simps)

lemma require_safe_failure_code_Inr_iff [errE_simps]:
  "require_safe_failure_code s = Inr t \<longleftrightarrow> t = py_strip s \<and> trimmed t \<and> is_safe_failure_code t"
  by (auto simp: require_safe_failure_code_def errE_simps split: if_splits)

lemma require_safe_fingerprint_Inr_iff [errE_simps]:
  "require_safe_fingerprint s = Inr t \<longleftrightarrow> t = py_strip s \<and> trimmed t \<and> is_safe_fingerprint t"
  by (auto simp: require_safe_fingerprint_def errE_simps split: if_splits)

lemma known_fields_not_sensitive:
  "list_all (\<lambda>f. \<not> is_sensitive_key f \<and> trimmed f)
     [''task_type'', ''attempt_number'', ''claim_id'', ''worker_id'', ''cancel_mode'',
      ''result_fingerprint'', ''failure_category'', ''failure_code'', ''outcome'']"
  by code_simp

lemma allowed_fields_not_sensitive:
  "list_all (\<lambda>f. \<not> is_sensitive_key f \<and> trimmed f) (event_metadata_fields ty)"
  using known_fields_not_sensitive by (cases ty) auto

definition clean_value :: "string \<Rightarrow> py_value \<Rightarrow> bool" where
  "clean_value k v \<longleftrightarrow>
     (if k = ''attempt_number'' then (\<exists>n > 0. v = VInt n)
      else (\<exists>s. v = VStr s \<and> trimmed s
            \<and> (k = ''failure_code'' \<longrightarrow> is_safe_failure_code s)
            \<and> (k = ''result_fingerprint'' \<longrightarrow> is_safe_fingerprint s)))"

definition clean_metadata :: "task_event_type \<Rightarrow> py_dict \<Rightarrow> bool" where
  "clean_metadata ty m \<longleftrightarrow>
     distinct (map fst m)
     \<and> dict_keys m \<subseteq> set (event_metadata_fields ty)
     \<and> set (event_metadata_fields ty) - set (optional_event_metadata_fields ty) \<subseteq> dict_keys m
     \<and> (\<forall>(k, v) \<in> set m. clean_value k v)"

lemma safe_metadata_entry_clean:
  assumes "k \<in> set (event_metadata_fields ty)" "clean_value k v"
  shows "safe_metadata_entry (event_metadata_fields ty) k v = Inr (k, v)"
proof -
  have "\<not> is_sensitive_key k" "trimmed k"
    using allowed_fields_not_sensitive [of ty] assms(1) by (auto simp: list_all_iff)
  note k = this assms(1)
  show ?thesis
  proof (cases "k = ''attempt_number''")
    case True
    with assms(2) obtain n where "v = VInt n" "0 < n" by (auto simp: clean_value_def)
    with k True show ?thesis by (simp add: safe_metadata_entry_def)
  next
    case False
    with assms(2) obtain s where "v = VStr s" "trimmed s"
      "k = ''failure_code'' \<longrightarrow> is_safe_failure_code s"
      "k = ''result_fingerprint'' \<longrightarrow> is_safe_fingerprint s"
      by (auto simp: clean_value_def)
    with k False show ?thesis
      by (simp add: safe_metadata_entry_def require_text_value_def
          require_safe_failure_code_def require_safe_fingerprint_def)
  qed
qed

lemma safe_metadata_entry_returns:
  assumes "safe_metadata_entry allowed k v = Inr (k', v')"
  shows "k' \<in> set allowed \<and> clean_value k' v'"
  using assms
  by (auto simp: safe_metadata_entry_def clean_value_def require_text_value_def errE_simps
      split: if_splits py_value.splits)

lemma AList_update_new: "k \<notin> fst ` set n \<Longrightarrow> AList.update k v n = n @ [(k, v)]"
  by (induction n) auto

lemma safe_metadata_loop_clean:
  assumes "distinct (map fst (n @ m))" "dict_keys m \<subseteq> set (event_metadata_fields ty)"
    "\<forall>(k, v) \<in> set m. clean_value k v"
  shows "safe_metadata_loop (event_metadata_fields ty) n m = Inr (n @ m)"
  using assms
proof (induction m arbitrary: n)
  case (Cons p m)
  obtain k v where p: "p = (k, v)" by (cases p)
  have "safe_metadata_entry (event_metadata_fields ty) k v = Inr (k, v)"
    using Cons.prems p by (intro safe_metadata_entry_clean) auto
  moreover have "AList.update k v n = n @ [(k, v)]"
    using Cons.prems(1) p by (intro AList_update_new) auto
  moreover have "safe_metadata_loop (event_metadata_fields ty) (n @ [(k, v)]) m = Inr ((n @ [(k, v)]) @ m)"
    using Cons.prems p by (intro Cons.IH) auto
  ultimately show ?case using p by simp
qed simp

lemma safe_metadata_loop_returns:
  assumes "safe_metadata_loop allowed n m = Inr m'" "distinct (map fst n)"
    "\<forall>(k, v) \<in> set n. k \<in> set allowed \<and> clean_value k v"
  shows "distinct (map fst m') \<and> (\<forall>(k, v) \<in> set m'. k \<in> set allowed \<and> clean_value k v)"
  using assms
proof (induction m arbitrary: n)
  case (Cons p m)
  obtain k v where p: "p = (k, v)" by (cases p)
  with Cons.prems(1) obtain k' v' where e: "safe_metadata_entry allowed k v = Inr (k', v')"
    and l: "safe_metadata_loop allowed (AList.update k' v' n) m = Inr m'"
    by (auto simp: errE_simps)
  from safe_metadata_entry_returns [OF e] have kv: "k' \<in> set allowed" "clean_value k' v'" by auto
  have "distinct (map fst (AList.update k' v' n))"
    using Cons.prems(2) by (rule distinct_update)
  moreover have "set (AList.update k' v' n) \<subseteq> insert (k', v') (set n)"
    by (induction n) auto
  ultimately show ?case
    using Cons.prems(3) kv by (intro Cons.IH [OF l]) auto
qed auto

lemma safe_metadata_clean: "clean_metadata ty m \<Longrightarrow> safe_metadata ty m = Inr m"
  by (auto simp: safe_metadata_def clean_metadata_def safe_metadata_loop_clean list_all_iff)

lemma safe_metadata_returns: "safe_metadata ty m = Inr m' \<Longrightarrow> clean_metadata ty m'"
  by (auto simp: safe_metadata_def clean_metadata_def errE_simps list_all_iff dict_keys_def
      split: if_splits dest!: safe_metadata_loop_returns)

lemma safe_metadata_idem: "safe_metadata ty m = Inr m' \<Longrightarrow> safe_metadata ty m' = Inr m'"
  by (intro safe_metadata_clean safe_metadata_returns)

lemma clean_metadata_not_sensitive:
  assumes "clean_metadata ty m" "k \<in> dict_keys m"
  shows "\<not> is_sensitive_key k"
  using assms allowed_fields_not_sensitive [of ty] by (auto simp: clean_metadata_def list_all_iff)

definition clean_event :: "task_event \<Rightarrow> bool" where
  "clean_event ev \<longleftrightarrow> 0 < e_sequence ev \<and> trimmed (e_transition_id ev)
     \<and> clean_metadata (e_event_type ev) (e_metadata ev)"

lemma mk_event_Inr_iff:
  "mk_event tid n tr ty md created eid = Inr ev \<longleftrightarrow>
     (\<exists>md' t. 0 < n \<and> trimmed (py_strip tr) \<and> safe_metadata ty md = Inr md' \<and> created = Aware t
       \<and> ev = \<lparr>e_task_id = tid, e_sequence = n, e_transition_id = py_strip tr, e_event_type = ty,
              e_metadata = md', e_created_at = t, e_id = eid\<rparr>)"
  by (auto simp: mk_event_def errE_simps)

lemma mk_event_clean: "mk_event tid n tr ty md created eid = Inr ev \<Longrightarrow> clean_event ev"
  by (auto simp: mk_event_Inr_iff clean_event_def safe_metadata_returns)

end
