(* ===== verification/Task_Attempt.thy ===== *)
theory Task_Attempt
  imports Task_Events
begin

text \<open>
  One execution attempt of a task (\<open>TaskAttempt\<close> of \<open>app/platform/task/domain/models.py\<close>): the
  constructor with its checks, the lease check, the lease renewal and the end of an attempt.

  The lemmas state which calls return, that a finished attempt never becomes active again and
  keeps its identity, that a renewal extends the lease strictly or repeats the last one, and that
  the constructor accepts exactly the well-formed attempts, so an attempt survives being rebuilt
  from its own fields.
\<close>

section \<open>State and constructor\<close>

record task_attempt =
  a_task_id :: uuid
  a_number :: int
  a_worker_id :: string
  a_claim_id :: string
  a_lease_token :: string
  a_lease_expires_at :: int
  a_id :: uuid
  a_status :: attempt_status
  a_renewal_sequence :: int
  a_created_at :: int
  a_finished_at :: "int option"
  a_failure_category :: "failure_category option"
  a_failure_code :: "string option"
  a_result_fingerprint :: "string option"

definition mk_attempt ::
  "uuid \<Rightarrow> int \<Rightarrow> string \<Rightarrow> string \<Rightarrow> string \<Rightarrow> datetime \<Rightarrow> uuid \<Rightarrow> attempt_status \<Rightarrow> int \<Rightarrow> datetime \<Rightarrow>
   datetime option \<Rightarrow> failure_category option \<Rightarrow> string option \<Rightarrow> string option \<Rightarrow>
   task_error + task_attempt" where
  "mk_attempt task_id number worker_id claim_id lease_token lease_expires_at aid st renewal_sequence
     created_at finished_at category code fingerprint =
     bindE (guardE (0 < number) (ValueError Bad_attempt)) (\<lambda>_.
     bindE (require_text worker_id) (\<lambda>worker.
     bindE (require_text claim_id) (\<lambda>claim.
     bindE (require_text lease_token) (\<lambda>token.
     bindE (require_utc lease_expires_at) (\<lambda>expires.
     bindE (require_utc created_at) (\<lambda>created.
     bindE (guardE (created < expires) (ValueError Bad_attempt)) (\<lambda>_.
     bindE (guardE (0 \<le> renewal_sequence) (ValueError Bad_renewal)) (\<lambda>_.
     bindE (optE require_utc finished_at) (\<lambda>finished.
       Inr \<lparr>a_task_id = task_id, a_number = number, a_worker_id = worker, a_claim_id = claim,
            a_lease_token = token, a_lease_expires_at = expires, a_id = aid, a_status = st,
            a_renewal_sequence = renewal_sequence, a_created_at = created,
            a_finished_at = finished, a_failure_category = category, a_failure_code = code,
            a_result_fingerprint = fingerprint\<rparr>)))))))))"

section \<open>Operations\<close>

definition is_active :: "task_attempt \<Rightarrow> bool" where
  "is_active a \<longleftrightarrow> a_status a = ATT_ACTIVE"

definition assert_token :: "string \<Rightarrow> task_attempt \<Rightarrow> task_error + unit" where
  \<comment> \<open>\<open>self.lease_token != _require_text(lease_token)\<close>\<close>
  "assert_token lease_token a =
     bindE (require_text lease_token) (\<lambda>token.
       guardE (a_lease_token a = token) TaskLeaseRejectedError)"

definition assert_valid_lease :: "string \<Rightarrow> datetime \<Rightarrow> task_attempt \<Rightarrow> task_error + unit" where
  "assert_valid_lease lease_token now a =
     bindE (assert_token lease_token a) (\<lambda>_.
       if \<not> is_active a then Inl TaskLeaseRejectedError
       else bindE (require_utc now) (\<lambda>t.
         guardE (t < a_lease_expires_at a) TaskLeaseRejectedError))"

definition attempt_renew ::
  "string \<Rightarrow> int \<Rightarrow> datetime \<Rightarrow> datetime \<Rightarrow> task_attempt \<Rightarrow> task_error + task_attempt" where
  "attempt_renew lease_token renewal_sequence lease_expires_at now a =
     bindE (assert_token lease_token a) (\<lambda>_.
     if \<not> is_active a then Inl TaskLeaseRejectedError
     else bindE (require_utc lease_expires_at) (\<lambda>normalized_expiry.
       if renewal_sequence = a_renewal_sequence a then
         (if normalized_expiry \<noteq> a_lease_expires_at a then Inl TaskIdempotencyConflictError
          else Inr a)
       else if renewal_sequence \<le> a_renewal_sequence a then Inl TaskStateTransitionError
       else bindE (assert_valid_lease lease_token now a) (\<lambda>_.
         if normalized_expiry \<le> a_lease_expires_at a then Inl (ValueError Bad_renewal)
         else Inr (a\<lparr>a_renewal_sequence := renewal_sequence,
                     a_lease_expires_at := normalized_expiry\<rparr>))))"

fun truthy_text :: "string option \<Rightarrow> string option" where
  \<comment> \<open>\<open>x if x else None\<close> for an optional string\<close>
  "truthy_text None = None"
| "truthy_text (Some s) = (if s = [] then None else Some s)"

definition attempt_finish ::
  "attempt_status \<Rightarrow> datetime \<Rightarrow> failure_category option \<Rightarrow> string option \<Rightarrow> string option \<Rightarrow>
   task_attempt \<Rightarrow> task_error + task_attempt" where
  "attempt_finish st now category code fingerprint a =
     (if \<not> is_active a then Inl TaskStateTransitionError
      else if st = ATT_ACTIVE then Inl (ValueError Bad_finish_status)
      else bindE (require_utc now) (\<lambda>finished.
        bindE (optE require_safe_failure_code (truthy_text code)) (\<lambda>safe_code.
        bindE (optE require_safe_fingerprint (truthy_text fingerprint)) (\<lambda>safe_fingerprint.
          Inr (a\<lparr>a_status := st, a_finished_at := Some finished, a_failure_category := category,
                 a_failure_code := safe_code, a_result_fingerprint := safe_fingerprint\<rparr>)))))"

section \<open>Well-formed attempts\<close>

definition wf_attempt :: "task_attempt \<Rightarrow> bool" where
  "wf_attempt a \<longleftrightarrow>
     0 < a_number a \<and> trimmed (a_worker_id a) \<and> trimmed (a_claim_id a) \<and> trimmed (a_lease_token a)
     \<and> a_created_at a < a_lease_expires_at a \<and> 0 \<le> a_renewal_sequence a"

definition remake_attempt :: "task_attempt \<Rightarrow> task_error + task_attempt" where
  \<comment> \<open>the constructor applied to the fields of an existing attempt\<close>
  "remake_attempt a =
     mk_attempt (a_task_id a) (a_number a) (a_worker_id a) (a_claim_id a) (a_lease_token a)
       (Aware (a_lease_expires_at a)) (a_id a) (a_status a) (a_renewal_sequence a)
       (Aware (a_created_at a)) (map_option Aware (a_finished_at a)) (a_failure_category a)
       (a_failure_code a) (a_result_fingerprint a)"

definition same_attempt :: "task_attempt \<Rightarrow> task_attempt \<Rightarrow> bool" where
  \<comment> \<open>equal in the fields no operation of the class writes\<close>
  "same_attempt a b \<longleftrightarrow>
     a_task_id a = a_task_id b \<and> a_number a = a_number b \<and> a_worker_id a = a_worker_id b
     \<and> a_claim_id a = a_claim_id b \<and> a_lease_token a = a_lease_token b \<and> a_id a = a_id b
     \<and> a_created_at a = a_created_at b"

lemma same_attempt_refl [simp, intro]: "same_attempt a a"
  by (simp add: same_attempt_def)

lemma same_attempt_trans [trans]: "same_attempt a b \<Longrightarrow> same_attempt b c \<Longrightarrow> same_attempt a c"
  by (simp add: same_attempt_def)

lemma optE_Aware: "optE require_utc (map_option Aware d) = Inr d"
  by (cases d) auto

lemma mk_attempt_wf: "mk_attempt t n w c l e i s r cr f cat co fp = Inr a \<Longrightarrow> wf_attempt a"
  by (auto simp: mk_attempt_def wf_attempt_def errE_simps)

lemma remake_attempt_wf: "wf_attempt a \<Longrightarrow> remake_attempt a = Inr a"
  by (simp add: remake_attempt_def mk_attempt_def wf_attempt_def optE_Aware)

lemma mk_attempt_fresh_iff:
  "mk_attempt t n w c l e i ATT_ACTIVE 0 cr None None None None = Inr a \<longleftrightarrow>
     (\<exists>ex crt. e = Aware ex \<and> cr = Aware crt \<and> crt < ex \<and> 0 < n
       \<and> trimmed (py_strip w) \<and> trimmed (py_strip c) \<and> trimmed (py_strip l)
       \<and> a = \<lparr>a_task_id = t, a_number = n, a_worker_id = py_strip w, a_claim_id = py_strip c,
              a_lease_token = py_strip l, a_lease_expires_at = ex, a_id = i,
              a_status = ATT_ACTIVE, a_renewal_sequence = 0, a_created_at = crt,
              a_finished_at = None, a_failure_category = None, a_failure_code = None,
              a_result_fingerprint = None\<rparr>)"
  by (auto simp: mk_attempt_def errE_simps)

lemma assert_token_Inr_iff [errE_simps]:
  "assert_token l a = Inr u \<longleftrightarrow> a_lease_token a = py_strip l \<and> trimmed (py_strip l)"
  by (auto simp: assert_token_def errE_simps)

lemma assert_valid_lease_Inr_iff [errE_simps]:
  "assert_valid_lease l now a = Inr u \<longleftrightarrow>
     a_lease_token a = py_strip l \<and> trimmed (py_strip l) \<and> is_active a
     \<and> (\<exists>t. now = Aware t \<and> t < a_lease_expires_at a)"
  by (auto simp: assert_valid_lease_def errE_simps)

lemma attempt_renew_Inr_iff:
  "attempt_renew l r e now a = Inr b \<longleftrightarrow>
     a_lease_token a = py_strip l \<and> trimmed (py_strip l) \<and> is_active a
     \<and> (\<exists>ex. e = Aware ex
         \<and> (r = a_renewal_sequence a \<and> ex = a_lease_expires_at a \<and> b = a
          \<or> a_renewal_sequence a < r \<and> a_lease_expires_at a < ex
            \<and> (\<exists>t. now = Aware t \<and> t < a_lease_expires_at a)
            \<and> b = a\<lparr>a_renewal_sequence := r, a_lease_expires_at := ex\<rparr>))"
proof -
  consider "r = a_renewal_sequence a" | "r < a_renewal_sequence a" | "a_renewal_sequence a < r"
    by linarith
  then show ?thesis
    by cases (simp_all add: attempt_renew_def errE_simps bindE_guardE not_le, (metis not_le)+)
qed

lemma attempt_renew_frame:
  assumes "attempt_renew l r e now a = Inr b"
  shows "same_attempt a b \<and> is_active a \<and> is_active b \<and> (wf_attempt a \<longrightarrow> wf_attempt b)
    \<and> a_lease_expires_at a \<le> a_lease_expires_at b \<and> a_renewal_sequence a \<le> a_renewal_sequence b"
  using assms by (auto simp: attempt_renew_Inr_iff same_attempt_def is_active_def wf_attempt_def)

lemma attempt_finish_Inr_iff:
  "attempt_finish s now cat co fp a = Inr b \<longleftrightarrow>
     is_active a \<and> s \<noteq> ATT_ACTIVE
     \<and> (\<exists>t co' fp'. now = Aware t \<and> optE require_safe_failure_code (truthy_text co) = Inr co'
         \<and> optE require_safe_fingerprint (truthy_text fp) = Inr fp'
         \<and> b = a\<lparr>a_status := s, a_finished_at := Some t, a_failure_category := cat,
                  a_failure_code := co', a_result_fingerprint := fp'\<rparr>)"
  by (auto simp: attempt_finish_def errE_simps split: if_splits)

lemma attempt_finish_frame:
  assumes "attempt_finish s now cat co fp a = Inr b"
  shows "same_attempt a b \<and> is_active a \<and> \<not> is_active b \<and> a_status b = s \<and> s \<noteq> ATT_ACTIVE
    \<and> (wf_attempt a \<longrightarrow> wf_attempt b)"
  using assms by (auto simp: attempt_finish_Inr_iff same_attempt_def is_active_def wf_attempt_def)

end
