(* ===== verification/Task_Aggregate.thy ===== *)
theory Task_Aggregate
  imports Task_Attempt
begin

text \<open>
  The task aggregate (\<open>Task\<close> of \<open>app/platform/task/domain/models.py\<close>): its state, constructor and
  the nine operations that move it through its life cycle, each with every guard, its event and the
  final check of the class invariants.

  An operation takes the aggregate and returns the new one or the exception. The source writes the
  object in place and may raise after some writes; callers discard the object then (the repository
  rebuilds it from records at every load), so a raising operation has no resulting aggregate here.
  Fresh UUIDs (\<open>uuid4\<close>) are arguments. A reference to an attempt object is its position in the
  list, so identity (\<open>is\<close>) is equality of positions.
\<close>

section \<open>State\<close>

record task =
  t_task_type :: string
  t_owner_subject :: string
  t_idempotency_key :: string
  t_input_fingerprint :: string
  t_max_attempts :: int
  t_available_at :: int
  t_id :: uuid
  t_status :: task_status
  t_display_metadata :: "(string \<times> string) list"
  t_allow_manual_retry :: bool
  t_created_at :: int
  t_updated_at :: int
  t_cancel_requested_at :: "int option"
  t_result_summary :: "string option"
  t_result_fingerprint :: "string option"
  t_failure_code :: "string option"
  t_attempts :: "task_attempt list"
  t_events :: "task_event list"

definition attempt_count :: "task \<Rightarrow> int" where
  "attempt_count t = int (length (t_attempts t))"

definition active_count :: "task \<Rightarrow> nat" where
  "active_count t = length (filter is_active (t_attempts t))"

definition transition_ids :: "task \<Rightarrow> string list" where
  "transition_ids t = map e_transition_id (t_events t)"

definition validate_invariants :: "task \<Rightarrow> task_error + unit" where
  "validate_invariants t =
     (if \<not> list_all (\<lambda>a. a_task_id a = t_id t) (t_attempts t) then Inl (ValueError Broken_invariant)
      else if \<not> numbered_from_1 (map a_number (t_attempts t)) then Inl (ValueError Broken_invariant)
      else if \<not> list_all (\<lambda>e. e_task_id e = t_id t) (t_events t)
        then Inl (ValueError Broken_invariant)
      else if \<not> numbered_from_1 (map e_sequence (t_events t)) then Inl (ValueError Broken_invariant)
      else if \<not> distinct (transition_ids t) then Inl (ValueError Broken_invariant)
      else if t_status t \<in> {RUNNING, CANCEL_REQUESTED} \<and> active_count t \<noteq> 1
        then Inl (ValueError Broken_invariant)
      else if t_status t \<notin> {RUNNING, CANCEL_REQUESTED} \<and> active_count t \<noteq> 0
        then Inl (ValueError Broken_invariant)
      else if t_status t = SUCCEEDED \<and> truthy_text (t_result_summary t) = None
        then Inl (ValueError Broken_invariant)
      else Inr ())"

definition mk_task ::
  "string \<Rightarrow> string \<Rightarrow> string \<Rightarrow> string \<Rightarrow> int \<Rightarrow> datetime \<Rightarrow> uuid \<Rightarrow> task_status \<Rightarrow>
   (string \<times> string) list \<Rightarrow> bool \<Rightarrow> datetime \<Rightarrow> datetime \<Rightarrow> int option \<Rightarrow> string option \<Rightarrow>
   string option \<Rightarrow> string option \<Rightarrow> task_attempt list \<Rightarrow> task_event list \<Rightarrow> task_error + task" where
  "mk_task task_type owner_subject idempotency_key input_fingerprint max_attempts available_at tid st
     display_metadata allow_manual_retry created_at updated_at cancel_requested_at result_summary
     result_fingerprint failure_code attempts events =
     bindE (require_text task_type) (\<lambda>ty.
     bindE (require_text owner_subject) (\<lambda>owner.
     bindE (require_text idempotency_key) (\<lambda>key.
     bindE (require_text input_fingerprint) (\<lambda>input.
     bindE (guardE (0 < max_attempts) (ValueError Bad_task)) (\<lambda>_.
     bindE (require_utc available_at) (\<lambda>available.
     bindE (require_utc created_at) (\<lambda>created.
     bindE (require_utc updated_at) (\<lambda>updated.
     bindE (guardE (list_all (\<lambda>(k, v). py_strip k \<noteq> []) display_metadata) (ValueError Bad_task)) (\<lambda>_.
     let t = \<lparr>t_task_type = ty, t_owner_subject = owner, t_idempotency_key = key,
              t_input_fingerprint = input, t_max_attempts = max_attempts,
              t_available_at = available, t_id = tid, t_status = st,
              t_display_metadata = display_metadata, t_allow_manual_retry = allow_manual_retry,
              t_created_at = created, t_updated_at = updated,
              t_cancel_requested_at = cancel_requested_at, t_result_summary = result_summary,
              t_result_fingerprint = result_fingerprint, t_failure_code = failure_code,
              t_attempts = attempts, t_events = events\<rparr>
     in bindE (validate_invariants t) (\<lambda>_. Inr t))))))))))"

section \<open>Queries and event appending\<close>

definition active_attempt :: "task \<Rightarrow> task_error + nat option" where
  "active_attempt t =
     (if 1 < active_count t then Inl TaskStateTransitionError
      else Inr (first_index is_active (t_attempts t)))"

definition find_attempt :: "uuid \<Rightarrow> task \<Rightarrow> task_error + nat" where
  "find_attempt attempt_id t =
     (case first_index (\<lambda>a. a_id a = attempt_id) (t_attempts t) of
        Some i \<Rightarrow> Inr i | None \<Rightarrow> Inl TaskStateTransitionError)"

definition find_attempt_by_claim :: "string \<Rightarrow> string \<Rightarrow> task \<Rightarrow> task_error + task_attempt option" where
  "find_attempt_by_claim worker_id claim_id t =
     bindE (require_text worker_id) (\<lambda>worker.
     bindE (require_text claim_id) (\<lambda>claim.
       Inr (find (\<lambda>a. a_worker_id a = worker \<and> a_claim_id a = claim) (t_attempts t))))"

definition append_event ::
  "string \<Rightarrow> task_event_type \<Rightarrow> py_dict \<Rightarrow> int \<Rightarrow> uuid \<Rightarrow> task \<Rightarrow> task_error + task" where
  "append_event transition_id event_type metadata now eid t =
     bindE (require_text transition_id) (\<lambda>transition.
       if transition \<in> set (transition_ids t) then Inl TaskIdempotencyConflictError
       else bindE (mk_event (t_id t) (int (length (t_events t)) + 1) transition event_type metadata
                     (Aware now) eid)
              (\<lambda>ev. Inr (t\<lparr>t_events := t_events t @ [ev]\<rparr>)))"

definition checked :: "task \<Rightarrow> task_error + task" where
  \<comment> \<open>the final \<open>self._validate_invariants()\<close> of an operation\<close>
  "checked t = bindE (validate_invariants t) (\<lambda>_. Inr t)"

definition assert_active_lease :: "nat \<Rightarrow> string \<Rightarrow> datetime \<Rightarrow> task \<Rightarrow> task_error + unit" where
  "assert_active_lease i lease_token now t =
     bindE (active_attempt t) (\<lambda>active.
       if active \<noteq> Some i then Inl TaskLeaseRejectedError
       else assert_valid_lease lease_token now (t_attempts t ! i))"

definition assert_same_terminal_result :: "task_attempt \<Rightarrow> string \<Rightarrow> string \<Rightarrow> task_error + unit" where
  "assert_same_terminal_result a lease_token result_fingerprint =
     bindE (assert_token lease_token a) (\<lambda>_.
       guardE (a_result_fingerprint a = Some result_fingerprint) TaskIdempotencyConflictError)"

section \<open>Operations\<close>

definition create_task ::
  "string \<Rightarrow> string \<Rightarrow> string \<Rightarrow> string \<Rightarrow> int \<Rightarrow> (string \<times> string) list option \<Rightarrow> bool \<Rightarrow> datetime \<Rightarrow>
   uuid \<Rightarrow> uuid \<Rightarrow> task_error + task" where
  "create_task task_type owner_subject idempotency_key input_fingerprint max_attempts
     display_metadata allow_manual_retry now tid eid =
     bindE (require_utc now) (\<lambda>n.
     bindE (mk_task task_type owner_subject idempotency_key input_fingerprint max_attempts (Aware n)
              tid QUEUED (case display_metadata of None \<Rightarrow> [] | Some d \<Rightarrow> d) allow_manual_retry
              (Aware n) (Aware n) None None None None [] []) (\<lambda>t.
       append_event (''create:'' @ t_idempotency_key t) TASK_CREATED
         [(''task_type'', VStr (t_task_type t))] n eid t))"

definition claim ::
  "string \<Rightarrow> string \<Rightarrow> string \<Rightarrow> datetime \<Rightarrow> datetime \<Rightarrow> uuid \<Rightarrow> uuid \<Rightarrow> task \<Rightarrow>
   task_error + task \<times> task_attempt" where
  "claim worker_id claim_id lease_token lease_expires_at now aid eid t =
     bindE (require_utc now) (\<lambda>n.
     if t_status t \<noteq> QUEUED then Inl TaskStateTransitionError
     else if n < t_available_at t then Inl TaskStateTransitionError
     else if t_max_attempts t \<le> attempt_count t then Inl TaskStateTransitionError
     else bindE (mk_attempt (t_id t) (attempt_count t + 1) worker_id claim_id lease_token
                   lease_expires_at aid ATT_ACTIVE 0 (Aware n) None None None None) (\<lambda>a.
       let t1 = t\<lparr>t_attempts := t_attempts t @ [a], t_status := RUNNING, t_updated_at := n\<rparr>
       in bindE (append_event (''claim:'' @ a_claim_id a) TASK_CLAIMED
                   [(''attempt_number'', VInt (a_number a)), (''claim_id'', VStr (a_claim_id a)),
                    (''worker_id'', VStr (a_worker_id a))] n eid t1) (\<lambda>t2.
          bindE (checked t2) (\<lambda>t3. Inr (t3, a)))))"

definition renew_lease ::
  "uuid \<Rightarrow> string \<Rightarrow> int \<Rightarrow> datetime \<Rightarrow> datetime \<Rightarrow> task \<Rightarrow> task_error + task \<times> task_attempt" where
  "renew_lease attempt_id lease_token renewal_sequence lease_expires_at now t =
     bindE (find_attempt attempt_id t) (\<lambda>i.
     if \<not> is_active (t_attempts t ! i) then Inl TaskLeaseRejectedError
     else if t_status t \<notin> {RUNNING, CANCEL_REQUESTED} then Inl TaskStateTransitionError
     else bindE (active_attempt t) (\<lambda>active.
       if active \<noteq> Some i then Inl TaskLeaseRejectedError
       else bindE (attempt_renew lease_token renewal_sequence lease_expires_at now
                     (t_attempts t ! i)) (\<lambda>a.
         Inr (t\<lparr>t_attempts := (t_attempts t)[i := a]\<rparr>, a))))"

definition request_cancel :: "string \<Rightarrow> datetime \<Rightarrow> uuid \<Rightarrow> task \<Rightarrow> task_error + task" where
  "request_cancel command_id now eid t =
     bindE (require_utc now) (\<lambda>n.
     bindE (require_text command_id) (\<lambda>command.
     let transition_id = ''cancel:'' @ command in
     if t_status t \<in> {QUEUED, RETRY_WAIT} then
       bindE (append_event transition_id TASK_CANCELLED [(''cancel_mode'', VStr ''queued'')] n eid
                (t\<lparr>t_cancel_requested_at := Some n, t_status := CANCELLED, t_updated_at := n\<rparr>)) checked
     else if t_status t = RUNNING then
       bindE (append_event transition_id TASK_CANCEL_REQUESTED [] n eid
                (t\<lparr>t_cancel_requested_at := Some n, t_status := CANCEL_REQUESTED,
                   t_updated_at := n\<rparr>)) checked
     else Inl TaskStateTransitionError))"

definition confirm_cancel :: "uuid \<Rightarrow> string \<Rightarrow> datetime \<Rightarrow> uuid \<Rightarrow> task \<Rightarrow> task_error + task" where
  "confirm_cancel attempt_id lease_token now eid t =
     bindE (find_attempt attempt_id t) (\<lambda>i.
     let a = t_attempts t ! i in
     if t_status t = CANCELLED \<and> a_status a = ATT_CANCELLED then
       bindE (assert_token lease_token a) (\<lambda>_. Inr t)
     else if \<not> is_active a then Inl TaskLeaseRejectedError
     else if t_status t \<noteq> CANCEL_REQUESTED then Inl TaskStateTransitionError
     else bindE (assert_active_lease i lease_token now t) (\<lambda>_.
       bindE (require_utc now) (\<lambda>n.
       bindE (attempt_finish ATT_CANCELLED (Aware n) None None None a) (\<lambda>a'.
       bindE (append_event (''cancelled:'' @ uuid_str (a_id a)) TASK_CANCELLED
                [(''attempt_number'', VInt (a_number a)), (''cancel_mode'', VStr ''confirmed'')] n eid
                (t\<lparr>t_attempts := (t_attempts t)[i := a'], t_status := CANCELLED,
                   t_updated_at := n\<rparr>)) checked))))"

definition complete ::
  "uuid \<Rightarrow> string \<Rightarrow> string \<Rightarrow> string \<Rightarrow> datetime \<Rightarrow> uuid \<Rightarrow> task \<Rightarrow> task_error + task" where
  "complete attempt_id lease_token result_fingerprint result_summary now eid t =
     bindE (find_attempt attempt_id t) (\<lambda>i.
     let a = t_attempts t ! i in
     bindE (require_safe_fingerprint result_fingerprint) (\<lambda>fingerprint.
     if t_status t = SUCCEEDED \<and> a_status a = ATT_SUCCEEDED then
       bindE (assert_same_terminal_result a lease_token fingerprint) (\<lambda>_. Inr t)
     else if \<not> is_active a then Inl TaskLeaseRejectedError
     else if t_status t \<noteq> RUNNING then Inl TaskStateTransitionError
     else bindE (assert_active_lease i lease_token now t) (\<lambda>_.
       bindE (require_utc now) (\<lambda>n.
       bindE (require_text result_summary) (\<lambda>summary.
       bindE (attempt_finish ATT_SUCCEEDED (Aware n) None None (Some fingerprint) a) (\<lambda>a'.
       bindE (append_event (''succeeded:'' @ uuid_str (a_id a) @ '':'' @ fingerprint) TASK_SUCCEEDED
                [(''attempt_number'', VInt (a_number a)),
                 (''result_fingerprint'', VStr fingerprint)] n eid
                (t\<lparr>t_attempts := (t_attempts t)[i := a'], t_status := SUCCEEDED,
                   t_result_fingerprint := Some fingerprint, t_result_summary := Some summary,
                   t_failure_code := None, t_updated_at := n\<rparr>)) checked))))))"

definition fail ::
  "uuid \<Rightarrow> string \<Rightarrow> failure_category \<Rightarrow> string \<Rightarrow> string \<Rightarrow> datetime option \<Rightarrow> datetime \<Rightarrow> uuid \<Rightarrow>
   task \<Rightarrow> task_error + task" where
  "fail attempt_id lease_token category failure_code result_fingerprint retry_at now eid t =
     bindE (find_attempt attempt_id t) (\<lambda>i.
     let a = t_attempts t ! i in
     bindE (require_safe_fingerprint result_fingerprint) (\<lambda>fingerprint.
     if t_status t \<in> {RETRY_WAIT, FAILED} \<and> a_status a = ATT_FAILED then
       bindE (assert_same_terminal_result a lease_token fingerprint) (\<lambda>_. Inr t)
     else if \<not> is_active a then Inl TaskLeaseRejectedError
     else if t_status t \<noteq> RUNNING then Inl TaskStateTransitionError
     else bindE (assert_active_lease i lease_token now t) (\<lambda>_.
       bindE (require_utc now) (\<lambda>n.
       bindE (require_safe_failure_code failure_code) (\<lambda>code.
       let is_retryable = (category = TRANSIENT \<and> attempt_count t < t_max_attempts t) in
       bindE (if is_retryable
              then bindE (require_utc_opt retry_at) (\<lambda>r.
                     if r < n then Inl (ValueError Bad_retry_time) else Inr r)
              else Inr (t_available_at t)) (\<lambda>available.
       bindE (attempt_finish ATT_FAILED (Aware n) (Some category) (Some code) (Some fingerprint) a)
         (\<lambda>a'.
       bindE (append_event (''failed:'' @ uuid_str (a_id a) @ '':'' @ fingerprint)
                (if is_retryable then TASK_RETRY_SCHEDULED else TASK_FAILED)
                [(''attempt_number'', VInt (a_number a)),
                 (''failure_category'', VStr (failure_category_value category)),
                 (''failure_code'', VStr code)] n eid
                (t\<lparr>t_attempts := (t_attempts t)[i := a'], t_failure_code := Some code,
                   t_result_fingerprint := Some fingerprint, t_result_summary := None,
                   t_updated_at := n, t_status := (if is_retryable then RETRY_WAIT else FAILED),
                   t_available_at := available\<rparr>)) checked)))))))"

definition requeue_due :: "string \<Rightarrow> datetime \<Rightarrow> uuid \<Rightarrow> task \<Rightarrow> task_error + task" where
  "requeue_due command_id now eid t =
     bindE (require_utc now) (\<lambda>n.
     if t_status t \<noteq> RETRY_WAIT then Inl TaskStateTransitionError
     else if n < t_available_at t then Inl TaskStateTransitionError
     else bindE (require_text command_id) (\<lambda>command.
       bindE (append_event (''requeue:'' @ command) TASK_REQUEUED [] n eid
                (t\<lparr>t_status := QUEUED, t_available_at := n, t_updated_at := n\<rparr>)) checked))"

definition request_manual_retry :: "string \<Rightarrow> datetime \<Rightarrow> uuid \<Rightarrow> task \<Rightarrow> task_error + task" where
  "request_manual_retry command_id now eid t =
     bindE (require_utc now) (\<lambda>n.
     if t_status t \<noteq> FAILED then Inl TaskStateTransitionError
     else if \<not> t_allow_manual_retry t \<or> t_max_attempts t \<le> attempt_count t
       then Inl TaskStateTransitionError
     else bindE (require_text command_id) (\<lambda>command.
       bindE (append_event (''manual-retry:'' @ command) TASK_RETRY_REQUESTED [] n eid
                (t\<lparr>t_status := QUEUED, t_available_at := n, t_failure_code := None,
                   t_result_fingerprint := None, t_updated_at := n\<rparr>)) checked))"

definition recovery_outcome ::
  "datetime option \<Rightarrow> int \<Rightarrow> task \<Rightarrow> task_error + task_status \<times> string option \<times> int" where
  \<comment> \<open>the \<open>if\<close> chain of \<open>recover_expired_attempt\<close>: new status, failure code, available time\<close>
  "recovery_outcome retry_at n t =
     (if t_status t = CANCEL_REQUESTED then Inr (CANCELLED, t_failure_code t, t_available_at t)
      else if t_max_attempts t \<le> attempt_count t
        then Inr (FAILED, Some ''LEASE_EXPIRED'', t_available_at t)
      else (case retry_at of
          None \<Rightarrow> Inr (QUEUED, t_failure_code t, n)
        | Some d \<Rightarrow> bindE (require_utc d) (\<lambda>r.
            Inr (if n < r then (RETRY_WAIT, t_failure_code t, r)
                 else (QUEUED, t_failure_code t, n)))))"

definition recover_expired_attempt ::
  "string \<Rightarrow> datetime option \<Rightarrow> datetime \<Rightarrow> uuid option \<Rightarrow> uuid \<Rightarrow> task \<Rightarrow> task_error + task" where
  "recover_expired_attempt command_id retry_at now attempt_id eid t =
     bindE (require_utc now) (\<lambda>n.
     if t_status t \<notin> {RUNNING, CANCEL_REQUESTED} then Inl TaskStateTransitionError
     else bindE (active_attempt t) (\<lambda>active.
       case active of
         None \<Rightarrow> Inl TaskStateTransitionError
       | Some i \<Rightarrow>
           let a = t_attempts t ! i in
           if n < a_lease_expires_at a then Inl TaskStateTransitionError
           else if attempt_id \<noteq> None \<and> attempt_id \<noteq> Some (a_id a) then Inl TaskStateTransitionError
           else bindE (attempt_finish ATT_EXPIRED (Aware n) (Some LEASE_EXPIRED)
                         (Some ''LEASE_EXPIRED'') None a) (\<lambda>a'.
             bindE (recovery_outcome retry_at n t) (\<lambda>(outcome, code, available).
             bindE (require_text command_id) (\<lambda>command.
             bindE (append_event (''recovered:'' @ command) TASK_RECOVERED
                      [(''attempt_number'', VInt (a_number a)),
                       (''outcome'', VStr (task_status_value outcome))] n eid
                      (t\<lparr>t_attempts := (t_attempts t)[i := a'], t_failure_code := code,
                         t_available_at := available, t_status := outcome,
                         t_updated_at := n\<rparr>)) checked)))))"

end
