(* ===== verification/Task_Lifecycle.thy ===== *)
theory Task_Lifecycle
  imports Task_Aggregate
begin

text \<open>
  What the task operations return: the invariant of the aggregate, one lemma per operation that
  names the state it returns, and the proof that every operation keeps the invariant, so the final
  check of the source never fires.
\<close>

section \<open>The invariant\<close>

definition same_task :: "task \<Rightarrow> task \<Rightarrow> bool" where
  \<comment> \<open>equal in the fields no operation writes\<close>
  "same_task t u \<longleftrightarrow>
     t_task_type t = t_task_type u \<and> t_owner_subject t = t_owner_subject u
     \<and> t_idempotency_key t = t_idempotency_key u \<and> t_input_fingerprint t = t_input_fingerprint u
     \<and> t_max_attempts t = t_max_attempts u \<and> t_id t = t_id u
     \<and> t_display_metadata t = t_display_metadata u
     \<and> t_allow_manual_retry t = t_allow_manual_retry u \<and> t_created_at t = t_created_at u"

lemma same_task_refl [simp, intro]: "same_task t t"
  by (simp add: same_task_def)

lemma same_task_trans [trans]: "same_task t u \<Longrightarrow> same_task u v \<Longrightarrow> same_task t v"
  by (simp add: same_task_def)

definition active_expected :: "task_status \<Rightarrow> nat" where
  "active_expected s = (if s \<in> {RUNNING, CANCEL_REQUESTED} then 1 else 0)"

definition wf_fields :: "task \<Rightarrow> bool" where
  "wf_fields t \<longleftrightarrow>
     trimmed (t_task_type t) \<and> trimmed (t_owner_subject t) \<and> trimmed (t_idempotency_key t)
     \<and> trimmed (t_input_fingerprint t) \<and> 0 < t_max_attempts t
     \<and> list_all (\<lambda>(k, v). py_strip k \<noteq> []) (t_display_metadata t)"

definition wf_attempts :: "task \<Rightarrow> bool" where
  "wf_attempts t \<longleftrightarrow>
     (\<forall>a \<in> set (t_attempts t). wf_attempt a \<and> a_task_id a = t_id t)
     \<and> numbered_from_1 (map a_number (t_attempts t)) \<and> distinct (map a_id (t_attempts t))
     \<and> attempt_count t \<le> t_max_attempts t
     \<and> active_count t = active_expected (t_status t)"

definition wf_events :: "task \<Rightarrow> bool" where
  "wf_events t \<longleftrightarrow>
     (\<forall>e \<in> set (t_events t). clean_event e \<and> e_task_id e = t_id t)
     \<and> numbered_from_1 (map e_sequence (t_events t)) \<and> distinct (transition_ids t)"

definition wf_result :: "task \<Rightarrow> bool" where
  "wf_result t \<longleftrightarrow> (t_status t = SUCCEEDED \<longrightarrow> truthy_text (t_result_summary t) \<noteq> None)"

definition wf_task :: "task \<Rightarrow> bool" where
  "wf_task t \<longleftrightarrow> wf_fields t \<and> wf_attempts t \<and> wf_events t \<and> wf_result t"

lemmas wf_task_defs = wf_task_def wf_fields_def wf_attempts_def wf_events_def wf_result_def

lemma wf_task_valid: "wf_task t \<Longrightarrow> validate_invariants t = Inr ()"
  by (auto simp: wf_task_defs validate_invariants_def active_expected_def list_all_iff)

lemma wf_task_checked: "wf_task t \<Longrightarrow> checked t = Inr t"
  by (simp add: checked_def wf_task_valid)

section \<open>Positions of attempts\<close>

lemma find_attempt_Inr:
  assumes "find_attempt aid t = Inr i"
  shows "i < length (t_attempts t) \<and> a_id (t_attempts t ! i) = aid"
  using assms by (auto simp: find_attempt_def split: option.splits dest: first_index_Some)

lemma find_attempt_nth:
  assumes "distinct (map a_id (t_attempts t))" "i < length (t_attempts t)"
  shows "find_attempt (a_id (t_attempts t ! i)) t = Inr i"
proof -
  have "first_index (\<lambda>a. a_id a = a_id (t_attempts t ! i)) (t_attempts t) = Some i"
    using assms by (intro first_index_unique) (auto simp: distinct_conv_nth)
  then show ?thesis by (simp add: find_attempt_def)
qed

lemma active_unique:
  assumes "wf_task t" "i < length (t_attempts t)" "is_active (t_attempts t ! i)"
    "j < length (t_attempts t)" "is_active (t_attempts t ! j)"
  shows "i = j"
proof (rule length_filter_le1_unique)
  show "length (filter is_active (t_attempts t)) \<le> 1"
    using assms(1) by (simp add: wf_task_defs active_count_def active_expected_def split: if_splits)
qed (use assms in auto)

lemma active_attempt_wf:
  assumes "wf_task t"
  shows "active_attempt t = Inr (first_index is_active (t_attempts t))"
  using assms by (simp add: active_attempt_def wf_task_defs active_expected_def)

lemma active_attempt_Some:
  assumes "wf_task t" "i < length (t_attempts t)" "is_active (t_attempts t ! i)"
  shows "active_attempt t = Inr (Some i)"
proof -
  have "first_index is_active (t_attempts t) = Some i"
  proof (rule first_index_unique)
    fix j assume "j < length (t_attempts t)" "is_active (t_attempts t ! j)"
    with active_unique [OF assms] show "j = i" by simp
  qed (use assms in auto)
  with active_attempt_wf [OF assms(1)] show ?thesis by simp
qed

lemma active_attempt_Inr_Some:
  assumes "active_attempt t = Inr (Some i)"
  shows "i < length (t_attempts t) \<and> is_active (t_attempts t ! i)"
  using assms by (auto simp: active_attempt_def split: if_splits dest: first_index_Some)

lemma active_status:
  assumes "wf_task t" "i < length (t_attempts t)" "is_active (t_attempts t ! i)"
  shows "t_status t \<in> {RUNNING, CANCEL_REQUESTED}"
proof (rule ccontr)
  assume "t_status t \<notin> {RUNNING, CANCEL_REQUESTED}"
  with assms(1) have "filter is_active (t_attempts t) = []"
    by (simp add: wf_task_defs active_expected_def active_count_def)
  with assms(2,3) show False by (simp add: filter_empty_conv)
qed

lemma active_exists:
  assumes "wf_task t" "t_status t \<in> {RUNNING, CANCEL_REQUESTED}"
  obtains i where "i < length (t_attempts t)" "is_active (t_attempts t ! i)"
proof -
  have "filter is_active (t_attempts t) \<noteq> []"
    using assms by (auto simp: wf_task_defs active_expected_def active_count_def)
  then obtain a where "a \<in> set (t_attempts t)" "is_active a" by (auto simp: filter_empty_conv)
  with that show ?thesis by (auto simp: in_set_conv_nth)
qed

section \<open>Appending events\<close>

definition new_event ::
  "string \<Rightarrow> task_event_type \<Rightarrow> py_dict \<Rightarrow> int \<Rightarrow> uuid \<Rightarrow> task \<Rightarrow> task_event" where
  "new_event tr ty md n eid t =
     \<lparr>e_task_id = t_id t, e_sequence = int (length (t_events t)) + 1, e_transition_id = tr,
      e_event_type = ty, e_metadata = md, e_created_at = n, e_id = eid\<rparr>"

lemma append_event_clean:
  assumes "trimmed tr" "clean_metadata ty md"
  shows "append_event tr ty md n eid t =
    (if tr \<in> set (transition_ids t) then Inl TaskIdempotencyConflictError
     else Inr (t\<lparr>t_events := t_events t @ [new_event tr ty md n eid t]\<rparr>))"
  using assms
  by (auto simp: append_event_def mk_event_def new_event_def safe_metadata_clean py_strip_trimmed)

lemma clean_created: "trimmed ty \<Longrightarrow> clean_metadata TASK_CREATED [(''task_type'', VStr ty)]"
  by (simp add: clean_metadata_def clean_value_def)

lemma clean_claimed:
  assumes "0 < n" "trimmed c" "trimmed w"
  shows "clean_metadata TASK_CLAIMED
    [(''attempt_number'', VInt n), (''claim_id'', VStr c), (''worker_id'', VStr w)]"
  using assms by (auto simp: clean_metadata_def clean_value_def)

lemma clean_empty:
  "clean_metadata TASK_CANCEL_REQUESTED []" "clean_metadata TASK_REQUEUED []"
  "clean_metadata TASK_RETRY_REQUESTED []"
  by (simp_all add: clean_metadata_def)

lemma trimmed_status_value: "trimmed (task_status_value s)"
  by (cases s) (simp_all add: trimmed_def py_space_def)

lemma trimmed_category_value: "trimmed (failure_category_value cat)"
  by (cases cat) (simp_all add: trimmed_def py_space_def)

lemma trimmed_mode: "trimmed ''queued''" "trimmed ''confirmed''"
  by (simp_all add: trimmed_def py_space_def)

lemmas trimmed_words = trimmed_status_value trimmed_category_value trimmed_mode

lemma clean_cancelled_queued: "clean_metadata TASK_CANCELLED [(''cancel_mode'', VStr ''queued'')]"
  by (simp add: clean_metadata_def clean_value_def trimmed_words)

lemma clean_cancelled_confirmed:
  "0 < n \<Longrightarrow> clean_metadata TASK_CANCELLED
     [(''attempt_number'', VInt n), (''cancel_mode'', VStr ''confirmed'')]"
  by (auto simp: clean_metadata_def clean_value_def trimmed_words)

lemma clean_succeeded:
  assumes "0 < n" "trimmed f" "is_safe_fingerprint f"
  shows "clean_metadata TASK_SUCCEEDED
    [(''attempt_number'', VInt n), (''result_fingerprint'', VStr f)]"
  using assms by (auto simp: clean_metadata_def clean_value_def)

lemma clean_failed:
  assumes "0 < n" "trimmed c" "is_safe_failure_code c" "ty \<in> {TASK_FAILED, TASK_RETRY_SCHEDULED}"
  shows "clean_metadata ty
    [(''attempt_number'', VInt n), (''failure_category'', VStr (failure_category_value cat)),
     (''failure_code'', VStr c)]"
  using assms by (auto simp: clean_metadata_def clean_value_def trimmed_words)

lemma clean_recovered:
  assumes "0 < n"
  shows "clean_metadata TASK_RECOVERED
    [(''attempt_number'', VInt n), (''outcome'', VStr (task_status_value s))]"
  using assms by (auto simp: clean_metadata_def clean_value_def trimmed_words)

lemmas clean_metadata_intros =
  clean_created clean_claimed clean_empty clean_cancelled_queued clean_cancelled_confirmed
  clean_succeeded clean_failed clean_recovered

lemma trimmed_transition:
  assumes "trimmed s"
  shows "trimmed (''create:'' @ s)" "trimmed (''claim:'' @ s)" "trimmed (''cancel:'' @ s)"
    "trimmed (''cancelled:'' @ s)" "trimmed (''succeeded:'' @ s)" "trimmed (''failed:'' @ s)"
    "trimmed (''requeue:'' @ s)" "trimmed (''manual-retry:'' @ s)" "trimmed (''recovered:'' @ s)"
  using assms by (simp_all add: trimmed_def py_space_def)

lemma trimmed_reference: "trimmed f \<Longrightarrow> trimmed (uuid_str u @ '':'' @ f)"
  using trimmed_uuid_str [of u] by (simp add: trimmed_def)

section \<open>Keeping the invariant\<close>

lemma new_event_update [simp]:
  "new_event tr ty md n eid (t\<lparr>t_status := s\<rparr>) = new_event tr ty md n eid t"
  "new_event tr ty md n eid (t\<lparr>t_attempts := as\<rparr>) = new_event tr ty md n eid t"
  "new_event tr ty md n eid (t\<lparr>t_updated_at := k\<rparr>) = new_event tr ty md n eid t"
  "new_event tr ty md n eid (t\<lparr>t_available_at := k\<rparr>) = new_event tr ty md n eid t"
  "new_event tr ty md n eid (t\<lparr>t_cancel_requested_at := ko\<rparr>) = new_event tr ty md n eid t"
  "new_event tr ty md n eid (t\<lparr>t_result_summary := so\<rparr>) = new_event tr ty md n eid t"
  "new_event tr ty md n eid (t\<lparr>t_result_fingerprint := so\<rparr>) = new_event tr ty md n eid t"
  "new_event tr ty md n eid (t\<lparr>t_failure_code := so\<rparr>) = new_event tr ty md n eid t"
  by (simp_all add: new_event_def)

lemma transition_ids_update [simp]:
  "transition_ids (t\<lparr>t_status := s\<rparr>) = transition_ids t"
  "transition_ids (t\<lparr>t_attempts := as\<rparr>) = transition_ids t"
  "transition_ids (t\<lparr>t_updated_at := k\<rparr>) = transition_ids t"
  "transition_ids (t\<lparr>t_available_at := k\<rparr>) = transition_ids t"
  "transition_ids (t\<lparr>t_cancel_requested_at := ko\<rparr>) = transition_ids t"
  "transition_ids (t\<lparr>t_result_summary := so\<rparr>) = transition_ids t"
  "transition_ids (t\<lparr>t_result_fingerprint := so\<rparr>) = transition_ids t"
  "transition_ids (t\<lparr>t_failure_code := so\<rparr>) = transition_ids t"
  by (simp_all add: transition_ids_def)

lemma new_event_sel [simp]:
  "e_task_id (new_event tr ty md n eid t) = t_id t"
  "e_sequence (new_event tr ty md n eid t) = int (length (t_events t)) + 1"
  "e_transition_id (new_event tr ty md n eid t) = tr"
  "e_event_type (new_event tr ty md n eid t) = ty"
  "e_metadata (new_event tr ty md n eid t) = md"
  "e_created_at (new_event tr ty md n eid t) = n"
  "e_id (new_event tr ty md n eid t) = eid"
  by (simp_all add: new_event_def)

definition loggable :: "string \<Rightarrow> task_event_type \<Rightarrow> py_dict \<Rightarrow> task \<Rightarrow> bool" where
  "loggable tr ty md t \<longleftrightarrow>
     trimmed tr \<and> clean_metadata ty md \<and> tr \<notin> set (transition_ids t)"

lemma append_event_loggable:
  assumes "append_event tr ty md n eid t = Inr t'" "trimmed tr" "clean_metadata ty md"
  shows "loggable tr ty md t \<and> t' = t\<lparr>t_events := t_events t @ [new_event tr ty md n eid t]\<rparr>"
  using assms by (auto simp: append_event_clean loggable_def split: if_splits)

lemma wf_events_snoc:
  assumes "wf_events t" "loggable tr ty md t" "t_id t' = t_id t"
    "t_events t' = t_events t @ [new_event tr ty md n eid t]"
  shows "wf_events t'"
proof -
  have "clean_event (new_event tr ty md n eid t)"
    using assms(2) by (simp add: clean_event_def loggable_def)
  with assms show ?thesis
    by (auto simp: wf_events_def transition_ids_def loggable_def)
qed

lemma wf_attempts_same:
  assumes "wf_attempts t" "same_task t t'" "t_attempts t' = t_attempts t"
    "active_expected (t_status t') = active_expected (t_status t)"
  shows "wf_attempts t'"
  using assms by (simp add: wf_attempts_def same_task_def attempt_count_def active_count_def)

lemma wf_attempts_snoc:
  assumes "wf_attempts t" "same_task t t'" "t_attempts t' = t_attempts t @ [a]"
    "t_status t = QUEUED" "t_status t' = RUNNING" "is_active a" "wf_attempt a"
    "a_task_id a = t_id t" "a_number a = attempt_count t + 1" "attempt_count t < t_max_attempts t"
    "a_id a \<notin> a_id ` set (t_attempts t)"
  shows "wf_attempts t'"
  using assms
  by (simp add: wf_attempts_def same_task_def attempt_count_def active_count_def
      active_expected_def ball_Un)

lemma wf_attempts_replace:
  assumes wf: "wf_attempts t" and same: "same_task t t'" and i: "i < length (t_attempts t)"
    and act: "is_active (t_attempts t ! i)" and b: "same_attempt (t_attempts t ! i) b" "wf_attempt b"
    and upd: "t_attempts t' = (t_attempts t)[i := b]"
    and st: "active_expected (t_status t) = 1"
      "active_expected (t_status t') = (if is_active b then 1 else 0)"
  shows "wf_attempts t'"
proof -
  have keep: "map f ((t_attempts t)[i := b]) = map f (t_attempts t)"
    if "f b = f (t_attempts t ! i)" for f :: "task_attempt \<Rightarrow> 'x"
    using i that by (metis list_update_id map_update)
  have "set ((t_attempts t)[i := b]) \<subseteq> insert b (set (t_attempts t))"
    by (rule set_update_subset_insert)
  moreover have "a_task_id b = t_id t"
    using wf i b by (auto simp: wf_attempts_def same_attempt_def)
  moreover have "active_count t' = active_expected (t_status t')"
    using length_filter_update [OF i, of is_active b] act st wf
    by (simp add: active_count_def upd wf_attempts_def)
  ultimately show ?thesis
    using wf same b(2) keep [of a_number] keep [of a_id] b(1)
    by (auto simp: wf_attempts_def same_task_def same_attempt_def upd attempt_count_def)
qed

lemma wf_task_extend:
  assumes "wf_task t" "same_task t t'" "wf_attempts t'" "wf_result t'" "loggable tr ty md t"
    "t_events t' = t_events t @ [new_event tr ty md n eid t]"
  shows "wf_task t'"
proof -
  have "wf_events t'"
    by (rule wf_events_snoc [OF _ assms(5) _ assms(6)])
      (use assms(1,2) in \<open>simp_all add: wf_task_def same_task_def\<close>)
  with assms(1-4) show ?thesis by (simp add: wf_task_def wf_fields_def same_task_def)
qed

lemma active_expected_simps [simp]:
  "active_expected RUNNING = 1" "active_expected CANCEL_REQUESTED = 1"
  "active_expected QUEUED = 0" "active_expected RETRY_WAIT = 0" "active_expected SUCCEEDED = 0"
  "active_expected FAILED = 0" "active_expected CANCELLED = 0"
  by (simp_all add: active_expected_def)

end
