(* ===== verification/Task_Moves.thy ===== *)
theory Task_Moves
  imports Task_Lifecycle
begin

text \<open>
  One lemma per task operation that names every state it can return from a well-formed aggregate:
  the guards that held, the attempt that ended, the event that was logged and the fields written.
  Each comes with the fact that the state is well formed before the final check of the source, so
  that check always passes.
\<close>

lemma checked_Inr_iff [errE_simps]: "checked t = Inr u \<longleftrightarrow> u = t \<and> validate_invariants t = Inr ()"
  by (auto simp: checked_def errE_simps)

text \<open>An operation that leaves the attempts alone, and one that ends the active attempt.\<close>

lemma plain_move:
  assumes wf: "wf_task t"
    and ap: "append_event tr ty md n eid t1 = Inr t2" "trimmed tr" "clean_metadata ty md"
    and t1: "same_task t t1" "t_attempts t1 = t_attempts t" "t_events t1 = t_events t"
      "active_expected (t_status t1) = active_expected (t_status t)" "wf_result t1"
  shows "wf_task t2 \<and> loggable tr ty md t
    \<and> t2 = t1\<lparr>t_events := t_events t @ [new_event tr ty md n eid t]\<rparr>"
proof -
  have ids: "t_id t1 = t_id t" "transition_ids t1 = transition_ids t"
    using t1 by (simp_all add: same_task_def transition_ids_def)
  have ev: "new_event tr ty md n eid t1 = new_event tr ty md n eid t"
    using t1(3) ids by (simp add: new_event_def)
  from append_event_loggable [OF ap] have log: "loggable tr ty md t"
    and t2: "t2 = t1\<lparr>t_events := t_events t @ [new_event tr ty md n eid t]\<rparr>"
    using t1(3) ids ev by (simp_all add: loggable_def)
  have same: "same_task t t2"
    using t1(1) by (simp add: t2 same_task_def)
  have atts: "wf_attempts t2"
    by (rule wf_attempts_same [OF _ same]) (use wf t1(2,4) in \<open>simp_all add: t2 wf_task_def\<close>)
  have "wf_task t2"
    by (rule wf_task_extend [OF wf same atts _ log])
      (use t1(5) in \<open>simp_all add: t2 wf_result_def\<close>)
  with log t2 show ?thesis by simp
qed

lemma finish_move:
  assumes wf: "wf_task t" and i: "i < length (t_attempts t)"
    and fin: "attempt_finish s now cat co fp (t_attempts t ! i) = Inr a'"
    and ap: "append_event tr ty md n eid t1 = Inr t2" "trimmed tr" "clean_metadata ty md"
    and t1: "same_task t t1" "t_attempts t1 = (t_attempts t)[i := a']" "t_events t1 = t_events t"
      "active_expected (t_status t1) = 0" "wf_result t1"
  shows "wf_task t2 \<and> loggable tr ty md t
    \<and> t2 = t1\<lparr>t_events := t_events t @ [new_event tr ty md n eid t]\<rparr>"
proof -
  have ids: "t_id t1 = t_id t" "transition_ids t1 = transition_ids t"
    using t1 by (simp_all add: same_task_def transition_ids_def)
  have ev: "new_event tr ty md n eid t1 = new_event tr ty md n eid t"
    using t1(3) ids by (simp add: new_event_def)
  from append_event_loggable [OF ap] have log: "loggable tr ty md t"
    and t2: "t2 = t1\<lparr>t_events := t_events t @ [new_event tr ty md n eid t]\<rparr>"
    using t1(3) ids ev by (simp_all add: loggable_def)
  from attempt_finish_frame [OF fin] have a': "same_attempt (t_attempts t ! i) a'"
    "is_active (t_attempts t ! i)" "\<not> is_active a'"
    "wf_attempt (t_attempts t ! i) \<longrightarrow> wf_attempt a'" by auto
  have "wf_attempt (t_attempts t ! i)" using wf i by (simp add: wf_task_def wf_attempts_def)
  moreover have "t_status t \<in> {RUNNING, CANCEL_REQUESTED}"
    using active_status [OF wf i a'(2)] .
  ultimately have st: "active_expected (t_status t) = 1" "wf_attempt a'"
    using a'(4) by (simp_all add: active_expected_def)
  have same: "same_task t t2"
    using t1(1) by (simp add: t2 same_task_def)
  have atts: "wf_attempts t2"
    by (rule wf_attempts_replace [OF _ same i a'(2,1) st(2) _ st(1)])
      (use wf t1(2,4) a'(3) in \<open>simp_all add: t2 wf_task_def\<close>)
  have "wf_task t2"
    by (rule wf_task_extend [OF wf same atts _ log])
      (use t1(5) in \<open>simp_all add: t2 wf_result_def\<close>)
  with log t2 show ?thesis by simp
qed

lemma number_positive:
  "wf_task t \<Longrightarrow> i < length (t_attempts t) \<Longrightarrow> 0 < a_number (t_attempts t ! i)"
  by (simp add: wf_task_def wf_attempts_def wf_attempt_def)

section \<open>Creation\<close>

lemma create_task_returns:
  assumes "create_task ty owner key input mx dm allow now tid eid = Inr t"
  obtains n t0 where "now = Aware n"
    "t0 = \<lparr>t_task_type = py_strip ty, t_owner_subject = py_strip owner,
       t_idempotency_key = py_strip key, t_input_fingerprint = py_strip input,
       t_max_attempts = mx, t_available_at = n, t_id = tid, t_status = QUEUED,
       t_display_metadata = (case dm of None \<Rightarrow> [] | Some d \<Rightarrow> d), t_allow_manual_retry = allow,
       t_created_at = n, t_updated_at = n, t_cancel_requested_at = None, t_result_summary = None,
       t_result_fingerprint = None, t_failure_code = None, t_attempts = [], t_events = []\<rparr>"
    "wf_task t0"
    "t = t0\<lparr>t_events := [new_event (''create:'' @ py_strip key) TASK_CREATED
            [(''task_type'', VStr (py_strip ty))] n eid t0]\<rparr>"
    "wf_task t"
proof -
  from assms obtain n t0 where n: "now = Aware n" and t0: "t0 = \<lparr>t_task_type = py_strip ty,
       t_owner_subject = py_strip owner,
       t_idempotency_key = py_strip key, t_input_fingerprint = py_strip input,
       t_max_attempts = mx, t_available_at = n, t_id = tid, t_status = QUEUED,
       t_display_metadata = (case dm of None \<Rightarrow> [] | Some d \<Rightarrow> d), t_allow_manual_retry = allow,
       t_created_at = n, t_updated_at = n, t_cancel_requested_at = None, t_result_summary = None,
       t_result_fingerprint = None, t_failure_code = None, t_attempts = [], t_events = []\<rparr>"
    and ok: "wf_fields t0"
    and ap: "append_event (''create:'' @ py_strip key) TASK_CREATED
               [(''task_type'', VStr (py_strip ty))] n eid t0 = Inr t"
    unfolding create_task_def mk_task_def Let_def
    by (auto simp: errE_simps wf_fields_def)
  have "wf_task t0"
    using ok t0 by (simp add: wf_task_def wf_attempts_def wf_events_def wf_result_def
        attempt_count_def active_count_def transition_ids_def wf_fields_def)
  moreover have "trimmed (py_strip key)" "trimmed (py_strip ty)"
    using ok t0 by (simp_all add: wf_fields_def)
  ultimately have move: "wf_task t" "t = t0\<lparr>t_events := t_events t0 @
      [new_event (''create:'' @ py_strip key) TASK_CREATED
        [(''task_type'', VStr (py_strip ty))] n eid t0]\<rparr>"
    using plain_move [OF _ ap trimmed_transition(1) clean_created, of t0]
    by (auto simp only: wf_task_def same_task_refl)
  moreover have "t_events t0 = []" using t0 by simp
  ultimately show thesis
    by (intro that [OF n t0 \<open>wf_task t0\<close>]) (simp_all only: append_Nil)
qed

section \<open>Claiming and renewing\<close>

lemma claim_core:
  assumes wf: "wf_task t" and st: "t_status t = QUEUED" and mx: "attempt_count t < t_max_attempts t"
    and a: "is_active a" "wf_attempt a" "a_task_id a = t_id t" "a_number a = attempt_count t + 1"
      "a_id a \<notin> a_id ` set (t_attempts t)"
    and ap: "append_event (''claim:'' @ a_claim_id a) TASK_CLAIMED
       [(''attempt_number'', VInt (a_number a)), (''claim_id'', VStr (a_claim_id a)),
        (''worker_id'', VStr (a_worker_id a))] n eid
       (t\<lparr>t_attempts := t_attempts t @ [a], t_status := RUNNING, t_updated_at := n\<rparr>) = Inr t'"
  shows "wf_task t' \<and> loggable (''claim:'' @ a_claim_id a) TASK_CLAIMED
       [(''attempt_number'', VInt (a_number a)), (''claim_id'', VStr (a_claim_id a)),
        (''worker_id'', VStr (a_worker_id a))] t
     \<and> t' = t\<lparr>t_attempts := t_attempts t @ [a], t_status := RUNNING, t_updated_at := n,
         t_events := t_events t @ [new_event (''claim:'' @ a_claim_id a) TASK_CLAIMED
           [(''attempt_number'', VInt (a_number a)), (''claim_id'', VStr (a_claim_id a)),
            (''worker_id'', VStr (a_worker_id a))] n eid t]\<rparr>"
proof -
  let ?tr = "''claim:'' @ a_claim_id a"
  let ?md = "[(''attempt_number'', VInt (a_number a)), (''claim_id'', VStr (a_claim_id a)),
        (''worker_id'', VStr (a_worker_id a))]"
  let ?t1 = "t\<lparr>t_attempts := t_attempts t @ [a], t_status := RUNNING, t_updated_at := n\<rparr>"
  have tr: "trimmed ?tr" and md: "clean_metadata TASK_CLAIMED ?md"
    using a(2) by (auto simp only: wf_attempt_def intro!: trimmed_transition(2) clean_claimed)
  from append_event_loggable [OF ap tr md] have log: "loggable ?tr TASK_CLAIMED ?md t"
    and t': "t' = ?t1\<lparr>t_events := t_events t @ [new_event ?tr TASK_CLAIMED ?md n eid t]\<rparr>"
    by (simp_all add: loggable_def)
  have same: "same_task t t'"
    by (simp add: t' same_task_def)
  have atts: "wf_attempts t'"
    by (rule wf_attempts_snoc [OF _ same _ st _ a(1,2,3,4) mx a(5)])
      (use wf in \<open>simp_all add: t' wf_task_def\<close>)
  have "wf_task t'"
    by (rule wf_task_extend [OF wf same atts _ log]) (simp_all add: t' wf_result_def)
  with log t' show ?thesis by simp
qed

lemma claim_returns:
  assumes wf: "wf_task t" and fresh: "aid \<notin> a_id ` set (t_attempts t)"
    and op: "claim w c l e now aid eid t = Inr (t', a)"
  obtains n ex md where "now = Aware n" "e = Aware ex" "n < ex" "t_status t = QUEUED"
    "t_available_at t \<le> n" "attempt_count t < t_max_attempts t"
    "a = \<lparr>a_task_id = t_id t, a_number = attempt_count t + 1, a_worker_id = py_strip w,
        a_claim_id = py_strip c, a_lease_token = py_strip l, a_lease_expires_at = ex, a_id = aid,
        a_status = ATT_ACTIVE, a_renewal_sequence = 0, a_created_at = n, a_finished_at = None,
        a_failure_category = None, a_failure_code = None, a_result_fingerprint = None\<rparr>"
    "wf_attempt a" "loggable (''claim:'' @ a_claim_id a) TASK_CLAIMED md t"
    "t' = t\<lparr>t_attempts := t_attempts t @ [a], t_status := RUNNING, t_updated_at := n,
       t_events := t_events t @ [new_event (''claim:'' @ a_claim_id a) TASK_CLAIMED md n eid t]\<rparr>"
    "wf_task t'"
proof -
  from op obtain n where n: "now = Aware n" and st: "t_status t = QUEUED"
    and av: "t_available_at t \<le> n" and mx: "attempt_count t < t_max_attempts t"
    and mk: "mk_attempt (t_id t) (attempt_count t + 1) w c l e aid ATT_ACTIVE 0 (Aware n)
               None None None None = Inr a"
    and ap: "append_event (''claim:'' @ a_claim_id a) TASK_CLAIMED
       [(''attempt_number'', VInt (a_number a)), (''claim_id'', VStr (a_claim_id a)),
        (''worker_id'', VStr (a_worker_id a))] n eid
       (t\<lparr>t_attempts := t_attempts t @ [a], t_status := RUNNING, t_updated_at := n\<rparr>) = Inr t'"
    by (auto simp: claim_def errE_simps Let_def split: if_splits)
  from mk obtain ex where a: "e = Aware ex" "n < ex"
    "a = \<lparr>a_task_id = t_id t, a_number = attempt_count t + 1, a_worker_id = py_strip w,
        a_claim_id = py_strip c, a_lease_token = py_strip l, a_lease_expires_at = ex, a_id = aid,
        a_status = ATT_ACTIVE, a_renewal_sequence = 0, a_created_at = n, a_finished_at = None,
        a_failure_category = None, a_failure_code = None, a_result_fingerprint = None\<rparr>"
    by (auto simp: mk_attempt_fresh_iff)
  have wa: "wf_attempt a" using mk by (rule mk_attempt_wf)
  have core: "is_active a" "a_task_id a = t_id t" "a_number a = attempt_count t + 1"
    "a_id a \<notin> a_id ` set (t_attempts t)"
    using a(3) fresh by (simp_all add: is_active_def)
  show thesis
    using claim_core [OF wf st mx core(1) wa core(2-4) ap]
    by (intro that [OF n a(1,2) st av mx a(3) wa]) auto
qed

lemma renew_lease_returns:
  assumes wf: "wf_task t" and op: "renew_lease aid l r e now t = Inr (t', b)"
  obtains i where "i < length (t_attempts t)" "a_id (t_attempts t ! i) = aid"
    "t_status t \<in> {RUNNING, CANCEL_REQUESTED}"
    "attempt_renew l r e now (t_attempts t ! i) = Inr b"
    "t' = t\<lparr>t_attempts := (t_attempts t)[i := b]\<rparr>" "wf_task t'"
proof -
  from op obtain i where f: "find_attempt aid t = Inr i" and act: "is_active (t_attempts t ! i)"
    and st: "t_status t \<in> {RUNNING, CANCEL_REQUESTED}"
    and rn: "attempt_renew l r e now (t_attempts t ! i) = Inr b"
    and t': "t' = t\<lparr>t_attempts := (t_attempts t)[i := b]\<rparr>"
    by (auto simp: renew_lease_def errE_simps split: if_splits)
  from find_attempt_Inr [OF f] have i: "i < length (t_attempts t)" "a_id (t_attempts t ! i) = aid"
    by auto
  have b: "same_attempt (t_attempts t ! i) b" "is_active b" "wf_attempt b"
    using attempt_renew_frame [OF rn] wf i(1) by (auto simp: wf_task_def wf_attempts_def)
  have same: "same_task t t'" by (simp add: t' same_task_def)
  have "wf_attempts t'"
    by (rule wf_attempts_replace [OF _ same i(1) act b(1,3)])
      (use wf st b(2) in \<open>auto simp: t' wf_task_def active_expected_def\<close>)
  then have "wf_task t'"
    using wf by (auto simp: t' wf_task_def wf_fields_def wf_events_def wf_result_def transition_ids_def)
  with i st rn t' show thesis by (intro that)
qed

section \<open>Cancellation\<close>

lemma request_cancel_core:
  assumes wf: "wf_task t" and st: "t_status t \<in> {QUEUED, RETRY_WAIT, RUNNING}"
    and c: "trimmed c"
    and ty: "(ty, md, s) = (if t_status t = RUNNING then (TASK_CANCEL_REQUESTED, [], CANCEL_REQUESTED)
       else (TASK_CANCELLED, [(''cancel_mode'', VStr ''queued'')], CANCELLED))"
    and ap: "append_event (''cancel:'' @ c) ty md n eid
       (t\<lparr>t_cancel_requested_at := Some n, t_status := s, t_updated_at := n\<rparr>) = Inr t'"
  shows "wf_task t' \<and> loggable (''cancel:'' @ c) ty md t
    \<and> t' = t\<lparr>t_cancel_requested_at := Some n, t_status := s, t_updated_at := n,
         t_events := t_events t @ [new_event (''cancel:'' @ c) ty md n eid t]\<rparr>"
proof -
  have md: "clean_metadata ty md" using ty by (auto simp: clean_metadata_intros split: if_splits)
  have "active_expected s = active_expected (t_status t)" "s \<noteq> SUCCEEDED"
    using ty st by (auto split: if_splits)
  then show ?thesis
    using plain_move [OF wf ap trimmed_transition(3) [OF c] md]
    by (auto simp: same_task_def wf_result_def)
qed

lemma request_cancel_returns:
  assumes wf: "wf_task t" and op: "request_cancel cmd now eid t = Inr t'"
  obtains n ty md s where "now = Aware n" "t_status t \<in> {QUEUED, RETRY_WAIT, RUNNING}"
    "(ty, md, s) = (if t_status t = RUNNING then (TASK_CANCEL_REQUESTED, [], CANCEL_REQUESTED)
       else (TASK_CANCELLED, [(''cancel_mode'', VStr ''queued'')], CANCELLED))"
    "loggable (''cancel:'' @ py_strip cmd) ty md t"
    "t' = t\<lparr>t_cancel_requested_at := Some n, t_status := s, t_updated_at := n,
         t_events := t_events t @ [new_event (''cancel:'' @ py_strip cmd) ty md n eid t]\<rparr>"
    "wf_task t'"
proof -
  define q where "q = (if t_status t = RUNNING then (TASK_CANCEL_REQUESTED, [], CANCEL_REQUESTED)
       else (TASK_CANCELLED, [(''cancel_mode'', VStr ''queued'')], CANCELLED))"
  obtain ty md s where tms: "(ty, md, s) = q" by (cases q) auto
  from op obtain n where n: "now = Aware n" and c: "trimmed (py_strip cmd)"
    and st: "t_status t \<in> {QUEUED, RETRY_WAIT, RUNNING}"
    and ap: "append_event (''cancel:'' @ py_strip cmd) ty md n eid
       (t\<lparr>t_cancel_requested_at := Some n, t_status := s, t_updated_at := n\<rparr>) = Inr t'"
    using tms unfolding q_def
    by (auto simp: request_cancel_def errE_simps Let_def split: if_splits)
  show thesis
    using request_cancel_core [OF wf st c tms [unfolded q_def] ap]
    by (intro that [OF n st tms [unfolded q_def]]) auto
qed

lemma assert_active_lease_Inr_iff [errE_simps]:
  "assert_active_lease i l now t = Inr u \<longleftrightarrow>
     active_attempt t = Inr (Some i) \<and> assert_valid_lease l now (t_attempts t ! i) = Inr u"
  by (auto simp: assert_active_lease_def errE_simps)

lemma assert_same_terminal_result_Inr_iff [errE_simps]:
  "assert_same_terminal_result a l f = Inr u \<longleftrightarrow>
     a_lease_token a = py_strip l \<and> trimmed (py_strip l) \<and> a_result_fingerprint a = Some f"
  by (auto simp: assert_same_terminal_result_def errE_simps)

definition holds_lease :: "task \<Rightarrow> nat \<Rightarrow> uuid \<Rightarrow> string \<Rightarrow> int \<Rightarrow> bool" where
  \<comment> \<open>position \<open>i\<close> is the active attempt \<open>aid\<close>, with this token and a lease unexpired at \<open>n\<close>\<close>
  "holds_lease t i aid l n \<longleftrightarrow>
     i < length (t_attempts t) \<and> a_id (t_attempts t ! i) = aid \<and> is_active (t_attempts t ! i)
     \<and> a_lease_token (t_attempts t ! i) = py_strip l \<and> n < a_lease_expires_at (t_attempts t ! i)"

lemma holds_leaseI:
  assumes "find_attempt aid t = Inr i" "assert_active_lease i l (Aware n) t = Inr u"
  shows "holds_lease t i aid l n"
  using assms find_attempt_Inr [OF assms(1)] by (auto simp: holds_lease_def errE_simps)

definition ended :: "attempt_status \<Rightarrow> int \<Rightarrow> failure_category option \<Rightarrow> string option \<Rightarrow> string option \<Rightarrow>
  task_attempt \<Rightarrow> task_attempt" where
  "ended s n cat co fp a =
     a\<lparr>a_status := s, a_finished_at := Some n, a_failure_category := cat, a_failure_code := co,
       a_result_fingerprint := fp\<rparr>"

lemma confirm_cancel_core:
  assumes wf: "wf_task t" and i: "i < length (t_attempts t)"
    and fin: "attempt_finish ATT_CANCELLED (Aware n) None None None (t_attempts t ! i) = Inr a'"
    and ap: "append_event (''cancelled:'' @ uuid_str (a_id (t_attempts t ! i))) TASK_CANCELLED
      [(''attempt_number'', VInt (a_number (t_attempts t ! i))), (''cancel_mode'', VStr ''confirmed'')]
      n eid (t\<lparr>t_attempts := (t_attempts t)[i := a'], t_status := CANCELLED, t_updated_at := n\<rparr>)
      = Inr t'"
  shows "wf_task t' \<and> (\<exists>tr md. tr = ''cancelled:'' @ uuid_str (a_id (t_attempts t ! i))
    \<and> loggable tr TASK_CANCELLED md t \<and> t' = t\<lparr>t_attempts := (t_attempts t)[i := ended ATT_CANCELLED n None None None (t_attempts t ! i)],
         t_status := CANCELLED, t_updated_at := n,
         t_events := t_events t @ [new_event tr TASK_CANCELLED md n eid t]\<rparr>)"
proof -
  have "a' = ended ATT_CANCELLED n None None None (t_attempts t ! i)"
    using fin by (auto simp: attempt_finish_Inr_iff ended_def)
  then show ?thesis
    using finish_move [OF wf i fin ap trimmed_transition(4) [OF trimmed_uuid_str]
        clean_cancelled_confirmed [OF number_positive [OF wf i]]]
    by (auto simp: same_task_def wf_result_def)
qed

lemma confirm_cancel_returns:
  assumes wf: "wf_task t" and op: "confirm_cancel aid l now eid t = Inr t'"
  obtains (replay) i where "i < length (t_attempts t)" "a_id (t_attempts t ! i) = aid"
      "t_status t = CANCELLED" "a_status (t_attempts t ! i) = ATT_CANCELLED"
      "a_lease_token (t_attempts t ! i) = py_strip l" "t' = t"
  | (move) i n tr md where "now = Aware n" "holds_lease t i aid l n" "t_status t = CANCEL_REQUESTED"
      "tr = ''cancelled:'' @ uuid_str (a_id (t_attempts t ! i))" "loggable tr TASK_CANCELLED md t"
      "t' = t\<lparr>t_attempts := (t_attempts t)[i := ended ATT_CANCELLED n None None None (t_attempts t ! i)],
         t_status := CANCELLED, t_updated_at := n,
         t_events := t_events t @ [new_event tr TASK_CANCELLED md n eid t]\<rparr>"
      "wf_task t'"
proof -
  from op obtain i where f: "find_attempt aid t = Inr i"
    by (auto simp: confirm_cancel_def errE_simps)
  note i = find_attempt_Inr [OF f]
  show thesis
  proof (cases "t_status t = CANCELLED \<and> a_status (t_attempts t ! i) = ATT_CANCELLED")
    case True
    with op f i show thesis
      by (intro replay [of i]) (auto simp: confirm_cancel_def errE_simps Let_def)
  next
    case False
    with op f obtain n a' where n: "now = Aware n" and st: "t_status t = CANCEL_REQUESTED"
      and lease: "assert_active_lease i l (Aware n) t = Inr ()"
      and fin: "attempt_finish ATT_CANCELLED (Aware n) None None None (t_attempts t ! i) = Inr a'"
      and ap: "append_event (''cancelled:'' @ uuid_str (a_id (t_attempts t ! i))) TASK_CANCELLED
        [(''attempt_number'', VInt (a_number (t_attempts t ! i))), (''cancel_mode'', VStr ''confirmed'')]
        n eid (t\<lparr>t_attempts := (t_attempts t)[i := a'], t_status := CANCELLED, t_updated_at := n\<rparr>)
        = Inr t'"
      unfolding confirm_cancel_def Let_def
      by (auto simp: errE_simps simp del: append.simps append_Cons split: if_splits)
    from confirm_cancel_core [OF wf conjunct1 [OF i] fin ap] show thesis
      using move [OF n holds_leaseI [OF f lease] st] by blast
  qed
qed

section \<open>Results\<close>

lemma complete_core:
  assumes wf: "wf_task t" and i: "i < length (t_attempts t)"
    and f: "trimmed f" "is_safe_fingerprint f" and s: "trimmed s"
    and fin: "attempt_finish ATT_SUCCEEDED (Aware n) None None (Some f) (t_attempts t ! i) = Inr a'"
    and ap: "append_event (''succeeded:'' @ uuid_str (a_id (t_attempts t ! i)) @ '':'' @ f)
      TASK_SUCCEEDED [(''attempt_number'', VInt (a_number (t_attempts t ! i))),
        (''result_fingerprint'', VStr f)] n eid
      (t\<lparr>t_attempts := (t_attempts t)[i := a'], t_status := SUCCEEDED,
         t_result_fingerprint := Some f, t_result_summary := Some s, t_failure_code := None,
         t_updated_at := n\<rparr>) = Inr t'"
  shows "wf_task t' \<and> (\<exists>tr md. tr = ''succeeded:'' @ uuid_str (a_id (t_attempts t ! i)) @ '':'' @ f
    \<and> loggable tr TASK_SUCCEEDED md t \<and> t' = t\<lparr>t_attempts := (t_attempts t)[i :=
           ended ATT_SUCCEEDED n None None (Some f) (t_attempts t ! i)],
         t_status := SUCCEEDED, t_result_fingerprint := Some f, t_result_summary := Some s,
         t_failure_code := None, t_updated_at := n,
         t_events := t_events t @ [new_event tr TASK_SUCCEEDED md n eid t]\<rparr>)"
proof -
  have "f \<noteq> []" using f(1) by (rule trimmed_nonempty)
  then have "a' = ended ATT_SUCCEEDED n None None (Some f) (t_attempts t ! i)"
    using fin f(1) by (auto simp: attempt_finish_Inr_iff ended_def errE_simps py_strip_trimmed)
  moreover have "s \<noteq> []" using s by (rule trimmed_nonempty)
  ultimately show ?thesis
    using finish_move [OF wf i fin ap trimmed_transition(5) [OF trimmed_reference [OF f(1)]]
        clean_succeeded [OF number_positive [OF wf i] f]]
    by (auto simp: same_task_def wf_result_def)
qed

lemma complete_returns:
  assumes wf: "wf_task t" and op: "complete aid l fp sm now eid t = Inr t'"
  obtains (replay) i where "i < length (t_attempts t)" "a_id (t_attempts t ! i) = aid"
      "t_status t = SUCCEEDED" "a_status (t_attempts t ! i) = ATT_SUCCEEDED"
      "a_lease_token (t_attempts t ! i) = py_strip l"
      "a_result_fingerprint (t_attempts t ! i) = Some (py_strip fp)" "t' = t"
  | (move) i n tr md where "now = Aware n" "holds_lease t i aid l n" "t_status t = RUNNING"
      "trimmed (py_strip fp)" "is_safe_fingerprint (py_strip fp)" "trimmed (py_strip sm)"
      "tr = ''succeeded:'' @ uuid_str (a_id (t_attempts t ! i)) @ '':'' @ py_strip fp"
      "loggable tr TASK_SUCCEEDED md t"
      "t' = t\<lparr>t_attempts := (t_attempts t)[i :=
           ended ATT_SUCCEEDED n None None (Some (py_strip fp)) (t_attempts t ! i)],
         t_status := SUCCEEDED, t_result_fingerprint := Some (py_strip fp),
         t_result_summary := Some (py_strip sm), t_failure_code := None, t_updated_at := n,
         t_events := t_events t @ [new_event tr TASK_SUCCEEDED md n eid t]\<rparr>"
      "wf_task t'"
proof -
  from op obtain i where f: "find_attempt aid t = Inr i"
    by (auto simp: complete_def errE_simps)
  note i = find_attempt_Inr [OF f]
  show thesis
  proof (cases "t_status t = SUCCEEDED \<and> a_status (t_attempts t ! i) = ATT_SUCCEEDED")
    case True
    with op f i show thesis
      by (intro replay [of i]) (auto simp: complete_def errE_simps Let_def)
  next
    case False
    with op f obtain n a' where n: "now = Aware n" and st: "t_status t = RUNNING"
      and fp: "trimmed (py_strip fp)" "is_safe_fingerprint (py_strip fp)"
      and sm: "trimmed (py_strip sm)"
      and lease: "assert_active_lease i l (Aware n) t = Inr ()"
      and fin: "attempt_finish ATT_SUCCEEDED (Aware n) None None (Some (py_strip fp))
                  (t_attempts t ! i) = Inr a'"
      and ap: "append_event
        (''succeeded:'' @ uuid_str (a_id (t_attempts t ! i)) @ '':'' @ py_strip fp)
        TASK_SUCCEEDED [(''attempt_number'', VInt (a_number (t_attempts t ! i))),
          (''result_fingerprint'', VStr (py_strip fp))] n eid
        (t\<lparr>t_attempts := (t_attempts t)[i := a'], t_status := SUCCEEDED,
           t_result_fingerprint := Some (py_strip fp), t_result_summary := Some (py_strip sm),
           t_failure_code := None, t_updated_at := n\<rparr>) = Inr t'"
      unfolding complete_def Let_def
      by (auto simp: errE_simps simp del: append.simps append_Cons split: if_splits)
    from complete_core [OF wf conjunct1 [OF i] fp sm fin ap] show thesis
      using move [OF n holds_leaseI [OF f lease] st fp sm] by blast
  qed
qed

lemma fail_core:
  assumes wf: "wf_task t" and i: "i < length (t_attempts t)"
    and f: "trimmed f" "is_safe_fingerprint f" and c: "trimmed c" "is_safe_failure_code c"
    and q: "(ty, s) = (if retryable then (TASK_RETRY_SCHEDULED, RETRY_WAIT) else (TASK_FAILED, FAILED))"
    and fin: "attempt_finish ATT_FAILED (Aware n) (Some cat) (Some c) (Some f) (t_attempts t ! i)
      = Inr a'"
    and ap: "append_event (''failed:'' @ uuid_str (a_id (t_attempts t ! i)) @ '':'' @ f) ty
      [(''attempt_number'', VInt (a_number (t_attempts t ! i))),
       (''failure_category'', VStr (failure_category_value cat)), (''failure_code'', VStr c)] n eid
      (t\<lparr>t_attempts := (t_attempts t)[i := a'], t_failure_code := Some c,
         t_result_fingerprint := Some f, t_result_summary := None, t_updated_at := n,
         t_status := s, t_available_at := av\<rparr>) = Inr t'"
  shows "wf_task t' \<and> (\<exists>tr md. tr = ''failed:'' @ uuid_str (a_id (t_attempts t ! i)) @ '':'' @ f
    \<and> loggable tr ty md t \<and> t' = t\<lparr>t_attempts := (t_attempts t)[i :=
           ended ATT_FAILED n (Some cat) (Some c) (Some f) (t_attempts t ! i)],
         t_failure_code := Some c, t_result_fingerprint := Some f, t_result_summary := None,
         t_updated_at := n, t_status := s, t_available_at := av,
         t_events := t_events t @ [new_event tr ty md n eid t]\<rparr>)"
proof -
  have "f \<noteq> []" "c \<noteq> []" using f(1) c(1) by (auto dest: trimmed_nonempty)
  then have "a' = ended ATT_FAILED n (Some cat) (Some c) (Some f) (t_attempts t ! i)"
    using fin f(1) c(1) by (auto simp: attempt_finish_Inr_iff ended_def errE_simps py_strip_trimmed)
  moreover have "ty \<in> {TASK_FAILED, TASK_RETRY_SCHEDULED}" "active_expected s = 0" "s \<noteq> SUCCEEDED"
    using q by (auto split: if_splits)
  ultimately show ?thesis
    using finish_move [OF wf i fin ap trimmed_transition(6) [OF trimmed_reference [OF f(1)]]
        clean_failed [OF number_positive [OF wf i] c]]
    by (auto simp: same_task_def wf_result_def)
qed

lemma fail_returns:
  assumes wf: "wf_task t" and op: "fail aid l cat code fp retry now eid t = Inr t'"
  obtains (replay) i where "i < length (t_attempts t)" "a_id (t_attempts t ! i) = aid"
      "t_status t \<in> {RETRY_WAIT, FAILED}" "a_status (t_attempts t ! i) = ATT_FAILED"
      "a_lease_token (t_attempts t ! i) = py_strip l"
      "a_result_fingerprint (t_attempts t ! i) = Some (py_strip fp)" "t' = t"
  | (move) i n tr md ty s av where "now = Aware n" "holds_lease t i aid l n" "t_status t = RUNNING"
      "(ty, s) = (if cat = TRANSIENT \<and> attempt_count t < t_max_attempts t
                  then (TASK_RETRY_SCHEDULED, RETRY_WAIT) else (TASK_FAILED, FAILED))"
      "s = RETRY_WAIT \<longrightarrow> retry = Some (Aware av) \<and> n \<le> av" "s = FAILED \<longrightarrow> av = t_available_at t"
      "tr = ''failed:'' @ uuid_str (a_id (t_attempts t ! i)) @ '':'' @ py_strip fp"
      "loggable tr ty md t"
      "t' = t\<lparr>t_attempts := (t_attempts t)[i := ended ATT_FAILED n (Some cat)
           (Some (py_strip code)) (Some (py_strip fp)) (t_attempts t ! i)],
         t_failure_code := Some (py_strip code), t_result_fingerprint := Some (py_strip fp),
         t_result_summary := None, t_updated_at := n, t_status := s, t_available_at := av,
         t_events := t_events t @ [new_event tr ty md n eid t]\<rparr>"
      "wf_task t'"
proof -
  from op obtain i where f: "find_attempt aid t = Inr i"
    by (auto simp: fail_def errE_simps)
  note i = find_attempt_Inr [OF f]
  show thesis
  proof (cases "t_status t \<in> {RETRY_WAIT, FAILED} \<and> a_status (t_attempts t ! i) = ATT_FAILED")
    case True
    with op f i show thesis
      by (intro replay [of i]) (auto simp: fail_def errE_simps Let_def)
  next
    case False
    define retryable where "retryable \<longleftrightarrow> cat = TRANSIENT \<and> attempt_count t < t_max_attempts t"
    obtain ty s where q: "(ty, s) =
      (if retryable then (TASK_RETRY_SCHEDULED, RETRY_WAIT) else (TASK_FAILED, FAILED))"
      by (cases retryable) auto
    then have ty: "ty = (if retryable then TASK_RETRY_SCHEDULED else TASK_FAILED)"
      and s: "s = (if retryable then RETRY_WAIT else FAILED)" by auto
    from False op f obtain n a' av where n: "now = Aware n" and st: "t_status t = RUNNING"
      and fp: "trimmed (py_strip fp)" "is_safe_fingerprint (py_strip fp)"
      and co: "trimmed (py_strip code)" "is_safe_failure_code (py_strip code)"
      and lease: "assert_active_lease i l (Aware n) t = Inr ()"
      and av: "(if retryable then bindE (require_utc_opt retry) (\<lambda>r.
                     if r < n then Inl (ValueError Bad_retry_time) else Inr r)
              else Inr (t_available_at t)) = Inr av"
      and fin: "attempt_finish ATT_FAILED (Aware n) (Some cat) (Some (py_strip code))
                  (Some (py_strip fp)) (t_attempts t ! i) = Inr a'"
      and ap: "append_event
        (''failed:'' @ uuid_str (a_id (t_attempts t ! i)) @ '':'' @ py_strip fp) ty
        [(''attempt_number'', VInt (a_number (t_attempts t ! i))),
         (''failure_category'', VStr (failure_category_value cat)),
         (''failure_code'', VStr (py_strip code))] n eid
        (t\<lparr>t_attempts := (t_attempts t)[i := a'], t_failure_code := Some (py_strip code),
           t_result_fingerprint := Some (py_strip fp), t_result_summary := None, t_updated_at := n,
           t_status := s, t_available_at := av\<rparr>) = Inr t'"
      unfolding fail_def Let_def ty s retryable_def [symmetric]
      by (auto simp: errE_simps simp del: append.simps append_Cons split: if_splits)
    have av': "s = RETRY_WAIT \<longrightarrow> retry = Some (Aware av) \<and> n \<le> av"
      "s = FAILED \<longrightarrow> av = t_available_at t"
      using av s by (auto simp: errE_simps split: if_splits)
    from fail_core [OF wf conjunct1 [OF i] fp co q fin ap] show thesis
      using move [OF n holds_leaseI [OF f lease] st q [unfolded retryable_def] av'] by blast
  qed
qed

section \<open>Rescheduling\<close>

lemma requeue_due_returns:
  assumes wf: "wf_task t" and op: "requeue_due cmd now eid t = Inr t'"
  obtains n tr where "now = Aware n" "t_status t = RETRY_WAIT" "t_available_at t \<le> n"
    "tr = ''requeue:'' @ py_strip cmd" "loggable tr TASK_REQUEUED [] t"
    "t' = t\<lparr>t_status := QUEUED, t_available_at := n, t_updated_at := n,
       t_events := t_events t @ [new_event tr TASK_REQUEUED [] n eid t]\<rparr>"
    "wf_task t'"
proof -
  from op obtain n where n: "now = Aware n" "t_status t = RETRY_WAIT" "t_available_at t \<le> n"
    and c: "trimmed (py_strip cmd)"
    and ap: "append_event (''requeue:'' @ py_strip cmd) TASK_REQUEUED [] n eid
        (t\<lparr>t_status := QUEUED, t_available_at := n, t_updated_at := n\<rparr>) = Inr t'"
    unfolding requeue_due_def
    by (auto simp: errE_simps simp del: append.simps append_Cons split: if_splits)
  have "wf_task t' \<and> loggable (''requeue:'' @ py_strip cmd) TASK_REQUEUED [] t
    \<and> t' = t\<lparr>t_status := QUEUED, t_available_at := n, t_updated_at := n,
       t_events := t_events t @ [new_event (''requeue:'' @ py_strip cmd) TASK_REQUEUED [] n eid t]\<rparr>"
    using plain_move [OF wf ap trimmed_transition(7) [OF c] clean_empty(2)] n(2)
    by (auto simp: same_task_def wf_result_def)
  with that [OF n] show thesis by blast
qed

lemma request_manual_retry_returns:
  assumes wf: "wf_task t" and op: "request_manual_retry cmd now eid t = Inr t'"
  obtains n tr where "now = Aware n" "t_status t = FAILED" "t_allow_manual_retry t"
    "attempt_count t < t_max_attempts t"
    "tr = ''manual-retry:'' @ py_strip cmd" "loggable tr TASK_RETRY_REQUESTED [] t"
    "t' = t\<lparr>t_status := QUEUED, t_available_at := n, t_failure_code := None,
       t_result_fingerprint := None, t_updated_at := n,
       t_events := t_events t @ [new_event tr TASK_RETRY_REQUESTED [] n eid t]\<rparr>"
    "wf_task t'"
proof -
  from op obtain n where n: "now = Aware n" "t_status t = FAILED" "t_allow_manual_retry t"
    "attempt_count t < t_max_attempts t"
    and c: "trimmed (py_strip cmd)"
    and ap: "append_event (''manual-retry:'' @ py_strip cmd) TASK_RETRY_REQUESTED [] n eid
        (t\<lparr>t_status := QUEUED, t_available_at := n, t_failure_code := None,
           t_result_fingerprint := None, t_updated_at := n\<rparr>) = Inr t'"
    unfolding request_manual_retry_def
    by (auto simp: errE_simps simp del: append.simps append_Cons split: if_splits)
  have "wf_task t' \<and> loggable (''manual-retry:'' @ py_strip cmd) TASK_RETRY_REQUESTED [] t
    \<and> t' = t\<lparr>t_status := QUEUED, t_available_at := n, t_failure_code := None,
       t_result_fingerprint := None, t_updated_at := n,
       t_events := t_events t @ [new_event (''manual-retry:'' @ py_strip cmd) TASK_RETRY_REQUESTED []
         n eid t]\<rparr>"
    using plain_move [OF wf ap trimmed_transition(8) [OF c] clean_empty(3)] n(2)
    by (auto simp: same_task_def wf_result_def)
  with that [OF n] show thesis by blast
qed

definition recovers_to :: "task \<Rightarrow> datetime option \<Rightarrow> int \<Rightarrow> task_status \<Rightarrow> int \<Rightarrow> bool" where
  "recovers_to t retry n s av \<longleftrightarrow>
     (if t_status t = CANCEL_REQUESTED then s = CANCELLED \<and> av = t_available_at t
      else if t_max_attempts t \<le> attempt_count t then s = FAILED \<and> av = t_available_at t
      else (case retry of
          Some (Aware r) \<Rightarrow> if n < r then s = RETRY_WAIT \<and> av = r else s = QUEUED \<and> av = n
        | None \<Rightarrow> s = QUEUED \<and> av = n
        | Some (Naive r) \<Rightarrow> False))"

lemma recovery_outcome_Inr:
  assumes "recovery_outcome retry n t = Inr (s, co, av)"
  shows "recovers_to t retry n s av"
  using assms
  by (auto simp: recovery_outcome_def recovers_to_def errE_simps split: if_splits option.splits)

lemma recover_core:
  assumes wf: "wf_task t" and i: "i < length (t_attempts t)" and c: "trimmed c"
    and s: "s \<in> {CANCELLED, FAILED, RETRY_WAIT, QUEUED}"
    and fin: "attempt_finish ATT_EXPIRED (Aware n) (Some LEASE_EXPIRED) (Some ''LEASE_EXPIRED'') None
      (t_attempts t ! i) = Inr a'"
    and ap: "append_event (''recovered:'' @ c) TASK_RECOVERED
      [(''attempt_number'', VInt (a_number (t_attempts t ! i))),
       (''outcome'', VStr (task_status_value s))] n eid
      (t\<lparr>t_attempts := (t_attempts t)[i := a'], t_failure_code := co, t_available_at := av,
         t_status := s, t_updated_at := n\<rparr>) = Inr t'"
  shows "wf_task t' \<and> (\<exists>tr. tr = ''recovered:'' @ c \<and> loggable tr TASK_RECOVERED
        [(''attempt_number'', VInt (a_number (t_attempts t ! i))),
         (''outcome'', VStr (task_status_value s))] t
    \<and> t' = t\<lparr>t_attempts := (t_attempts t)[i := a'], t_failure_code := co, t_available_at := av,
         t_status := s, t_updated_at := n,
         t_events := t_events t @ [new_event tr TASK_RECOVERED
           [(''attempt_number'', VInt (a_number (t_attempts t ! i))),
            (''outcome'', VStr (task_status_value s))] n eid t]\<rparr>)"
proof -
  have "active_expected s = 0" "s \<noteq> SUCCEEDED"
    using s by (auto simp: active_expected_def)
  then show ?thesis
    using finish_move [OF wf i fin ap trimmed_transition(9) [OF c]
        clean_recovered [OF number_positive [OF wf i]]]
    by (auto simp: same_task_def wf_result_def)
qed

lemma recover_expired_attempt_returns:
  assumes wf: "wf_task t" and op: "recover_expired_attempt cmd retry now ao eid t = Inr t'"
  obtains i n s co av a' tr where "now = Aware n" "t_status t \<in> {RUNNING, CANCEL_REQUESTED}"
    "i < length (t_attempts t)" "is_active (t_attempts t ! i)"
    "a_lease_expires_at (t_attempts t ! i) \<le> n" "ao = None \<or> ao = Some (a_id (t_attempts t ! i))"
    "recovers_to t retry n s av"
    "attempt_finish ATT_EXPIRED (Aware n) (Some LEASE_EXPIRED) (Some ''LEASE_EXPIRED'') None
      (t_attempts t ! i) = Inr a'"
    "tr = ''recovered:'' @ py_strip cmd"
    "loggable tr TASK_RECOVERED [(''attempt_number'', VInt (a_number (t_attempts t ! i))),
         (''outcome'', VStr (task_status_value s))] t"
    "t' = t\<lparr>t_attempts := (t_attempts t)[i := a'], t_failure_code := co, t_available_at := av,
         t_status := s, t_updated_at := n,
         t_events := t_events t @ [new_event tr TASK_RECOVERED
           [(''attempt_number'', VInt (a_number (t_attempts t ! i))),
            (''outcome'', VStr (task_status_value s))] n eid t]\<rparr>"
    "wf_task t'"
proof -
  from op obtain i n s co av a' where n: "now = Aware n"
    and st: "t_status t \<in> {RUNNING, CANCEL_REQUESTED}"
    and act: "active_attempt t = Inr (Some i)"
    and ex: "a_lease_expires_at (t_attempts t ! i) \<le> n"
    and ao: "ao = None \<or> ao = Some (a_id (t_attempts t ! i))"
    and fin: "attempt_finish ATT_EXPIRED (Aware n) (Some LEASE_EXPIRED) (Some ''LEASE_EXPIRED'') None
        (t_attempts t ! i) = Inr a'"
    and out: "recovery_outcome retry n t = Inr (s, co, av)"
    and c: "trimmed (py_strip cmd)"
    and ap: "append_event (''recovered:'' @ py_strip cmd) TASK_RECOVERED
        [(''attempt_number'', VInt (a_number (t_attempts t ! i))),
         (''outcome'', VStr (task_status_value s))] n eid
        (t\<lparr>t_attempts := (t_attempts t)[i := a'], t_failure_code := co, t_available_at := av,
           t_status := s, t_updated_at := n\<rparr>) = Inr t'"
    unfolding recover_expired_attempt_def Let_def
    by (auto simp: errE_simps not_less simp del: append.simps append_Cons
        split: if_splits option.splits)
  note i = active_attempt_Inr_Some [OF act]
  have rc: "recovers_to t retry n s av" using out by (rule recovery_outcome_Inr)
  then have "s \<in> {CANCELLED, FAILED, RETRY_WAIT, QUEUED}"
    by (auto simp: recovers_to_def split: if_splits option.splits datetime.splits)
  from recover_core [OF wf conjunct1 [OF i] c this fin ap] show thesis
    using that [OF n st conjunct1 [OF i] conjunct2 [OF i] ex ao rc fin] by blast
qed

end
