(* ===== verification/Task_Machine.thy ===== *)
theory Task_Machine
  imports Task_Moves
begin

text \<open>
  The task life cycle as a transition system: a command type for the operations of the aggregate,
  the step relation, the reachable aggregates, and the abstract machine on event logs that the
  aggregate refines. The lemma \<open>run_op_effect\<close> collects what one step can do; the invariants of
  reachable tasks follow from it by rule induction.
\<close>

section \<open>Steps\<close>

datatype task_op =
    Op_claim string string string datetime uuid
  | Op_renew uuid string int datetime
  | Op_cancel string
  | Op_confirm uuid string
  | Op_complete uuid string string string
  | Op_fail uuid string failure_category string string "datetime option"
  | Op_requeue string
  | Op_retry string
  | Op_recover string "datetime option" "uuid option"

fun run_op :: "task_op \<Rightarrow> datetime \<Rightarrow> uuid \<Rightarrow> task \<Rightarrow> task_error + task" where
  "run_op (Op_claim w c l e aid) now eid t =
     bindE (claim w c l e now aid eid t) (\<lambda>(t', a). Inr t')"
| "run_op (Op_renew aid l r e) now eid t =
     bindE (renew_lease aid l r e now t) (\<lambda>(t', a). Inr t')"
| "run_op (Op_cancel cmd) now eid t = request_cancel cmd now eid t"
| "run_op (Op_confirm aid l) now eid t = confirm_cancel aid l now eid t"
| "run_op (Op_complete aid l fp sm) now eid t = complete aid l fp sm now eid t"
| "run_op (Op_fail aid l cat code fp retry) now eid t = fail aid l cat code fp retry now eid t"
| "run_op (Op_requeue cmd) now eid t = requeue_due cmd now eid t"
| "run_op (Op_retry cmd) now eid t = request_manual_retry cmd now eid t"
| "run_op (Op_recover cmd retry ao) now eid t = recover_expired_attempt cmd retry now ao eid t"

definition op_fresh :: "task_op \<Rightarrow> uuid \<Rightarrow> task \<Rightarrow> bool" where
  \<comment> \<open>the UUIDs drawn by \<open>uuid4\<close> are new to the task\<close>
  "op_fresh opr eid t \<longleftrightarrow>
     eid \<notin> e_id ` set (t_events t)
     \<and> (case opr of Op_claim _ _ _ _ aid \<Rightarrow> aid \<notin> a_id ` set (t_attempts t) | _ \<Rightarrow> True)"

inductive task_step :: "task \<Rightarrow> task \<Rightarrow> bool" where
  step: "run_op opr now eid t = Inr t' \<Longrightarrow> op_fresh opr eid t \<Longrightarrow> task_step t t'"

inductive task_reachable :: "task \<Rightarrow> bool" where
  created: "create_task ty owner key input mx dm allow now tid eid = Inr t \<Longrightarrow> task_reachable t"
| stepped: "task_reachable t \<Longrightarrow> task_step t t' \<Longrightarrow> task_reachable t'"

inductive_cases task_stepE: "task_step t t'"

section \<open>The abstract machine on event logs\<close>

datatype log_state = Log_empty | Log_at task_status | Log_broken

definition logged_outcome :: "task_event \<Rightarrow> task_status option" where
  "logged_outcome ev =
     (case map_of (e_metadata ev) ''outcome'' of
        Some (VStr s) \<Rightarrow> (case task_status_of s of Inr st \<Rightarrow> Some st | Inl _ \<Rightarrow> None)
      | _ \<Rightarrow> None)"

definition lifecycle_next :: "task_status \<Rightarrow> task_event_type \<Rightarrow> task_status option \<Rightarrow> task_status option" where
  \<comment> \<open>the life cycle the events promise; the last argument is a recovery's logged outcome\<close>
  "lifecycle_next s ty oc =
     (if (s, ty) = (QUEUED, TASK_CLAIMED) then Some RUNNING
      else if (s, ty) = (QUEUED, TASK_CANCELLED) then Some CANCELLED
      else if (s, ty) = (RUNNING, TASK_CANCEL_REQUESTED) then Some CANCEL_REQUESTED
      else if (s, ty) = (RUNNING, TASK_SUCCEEDED) then Some SUCCEEDED
      else if (s, ty) = (RUNNING, TASK_FAILED) then Some FAILED
      else if (s, ty) = (RUNNING, TASK_RETRY_SCHEDULED) then Some RETRY_WAIT
      else if (s, ty) = (RUNNING, TASK_RECOVERED) \<and> oc \<in> Some ` {QUEUED, RETRY_WAIT, FAILED} then oc
      else if (s, ty) = (CANCEL_REQUESTED, TASK_CANCELLED) then Some CANCELLED
      else if (s, ty) = (CANCEL_REQUESTED, TASK_RECOVERED) \<and> oc = Some CANCELLED then oc
      else if (s, ty) = (RETRY_WAIT, TASK_REQUEUED) then Some QUEUED
      else if (s, ty) = (RETRY_WAIT, TASK_CANCELLED) then Some CANCELLED
      else if (s, ty) = (FAILED, TASK_RETRY_REQUESTED) then Some QUEUED
      else None)"

fun log_step :: "log_state \<Rightarrow> task_event \<Rightarrow> log_state" where
  "log_step Log_empty ev = (if e_event_type ev = TASK_CREATED then Log_at QUEUED else Log_broken)"
| "log_step (Log_at s) ev =
     (case lifecycle_next s (e_event_type ev) (logged_outcome ev) of
        Some s' \<Rightarrow> Log_at s' | None \<Rightarrow> Log_broken)"
| "log_step Log_broken ev = Log_broken"

definition log_run :: "task_event list \<Rightarrow> log_state" where
  "log_run es = foldl log_step Log_empty es"

definition claims_logged :: "task_event list \<Rightarrow> nat" where
  "claims_logged es = length (filter (\<lambda>e. e_event_type e = TASK_CLAIMED) es)"

section \<open>What one step does\<close>

fun status_rank :: "task_status \<Rightarrow> nat" where
  "status_rank RUNNING = 3"
| "status_rank CANCEL_REQUESTED = 2"
| "status_rank RETRY_WAIT = 2"
| "status_rank FAILED = 2"
| "status_rank QUEUED = 1"
| "status_rank SUCCEEDED = 0"
| "status_rank CANCELLED = 0"

definition task_rank :: "task \<Rightarrow> nat" where
  \<comment> \<open>decreases with every logged event\<close>
  "task_rank t = 3 * nat (t_max_attempts t - attempt_count t) + status_rank (t_status t)"

definition attempts_evolve :: "task_attempt list \<Rightarrow> task_attempt list \<Rightarrow> bool" where
  \<comment> \<open>attempts keep their place and identity, and a finished one never changes\<close>
  "attempts_evolve as bs \<longleftrightarrow>
     length as \<le> length bs
     \<and> (\<forall>i < length as. same_attempt (as ! i) (bs ! i) \<and> (\<not> is_active (as ! i) \<longrightarrow> bs ! i = as ! i))"

definition budget_ok :: "task \<Rightarrow> bool" where
  "budget_ok t \<longleftrightarrow> (t_status t \<in> {QUEUED, RETRY_WAIT} \<longrightarrow> attempt_count t < t_max_attempts t)"

definition silent :: "task \<Rightarrow> task \<Rightarrow> bool" where
  \<comment> \<open>a replay or a lease renewal: nothing logged, same status\<close>
  "silent t t' \<longleftrightarrow> t_events t' = t_events t \<and> t_status t' = t_status t
     \<and> length (t_attempts t') = length (t_attempts t)"

definition logged :: "uuid \<Rightarrow> task \<Rightarrow> task \<Rightarrow> bool" where
  "logged eid t t' \<longleftrightarrow>
     (\<exists>ev. t_events t' = t_events t @ [ev] \<and> e_id ev = eid
        \<and> log_step (Log_at (t_status t)) ev = Log_at (t_status t')
        \<and> length (t_attempts t') = length (t_attempts t)
            + (if e_event_type ev = TASK_CLAIMED then 1 else 0)
        \<and> task_rank t' < task_rank t)"

definition effect :: "uuid \<Rightarrow> task \<Rightarrow> task \<Rightarrow> bool" where
  "effect eid t t' \<longleftrightarrow>
     wf_task t' \<and> same_task t t' \<and> attempts_evolve (t_attempts t) (t_attempts t')
     \<and> (budget_ok t \<longrightarrow> budget_ok t') \<and> (silent t t' \<or> logged eid t t')"

lemma attempts_evolve_refl [simp]: "attempts_evolve as as"
  by (simp add: attempts_evolve_def)

lemma attempts_evolve_snoc: "attempts_evolve as (as @ [a])"
  by (simp add: attempts_evolve_def nth_append)

lemma attempts_evolve_update:
  assumes "is_active (as ! i)" "same_attempt (as ! i) b"
  shows "attempts_evolve as (as[i := b])"
proof -
  have "same_attempt (as ! k) (as[i := b] ! k) \<and> (\<not> is_active (as ! k) \<longrightarrow> as[i := b] ! k = as ! k)"
    if "k < length as" for k
    using assms that by (cases "k = i") auto
  then show ?thesis by (simp add: attempts_evolve_def)
qed

lemma attempts_evolve_trans:
  assumes "attempts_evolve as bs" "attempts_evolve bs cs"
  shows "attempts_evolve as cs"
proof -
  have "same_attempt (as ! k) (cs ! k) \<and> (\<not> is_active (as ! k) \<longrightarrow> cs ! k = as ! k)"
    if "k < length as" for k
  proof -
    from assms that have "same_attempt (as ! k) (bs ! k)" "same_attempt (bs ! k) (cs ! k)"
      "\<not> is_active (as ! k) \<longrightarrow> bs ! k = as ! k" "\<not> is_active (bs ! k) \<longrightarrow> cs ! k = bs ! k"
      by (simp_all add: attempts_evolve_def)
    then show ?thesis using same_attempt_trans by auto
  qed
  with assms show ?thesis by (simp add: attempts_evolve_def)
qed

lemma effect_refl: "wf_task t \<Longrightarrow> effect eid t t"
  by (simp add: effect_def silent_def)

lemma ended_same: "same_attempt a (ended s n cat co fp a)"
  by (simp add: same_attempt_def ended_def)

lemma effect_claim:
  assumes "wf_task t" "op_fresh (Op_claim w c l e aid) eid t" "claim w c l e now aid eid t = Inr (t', a)"
  shows "effect eid t t'"
proof -
  from assms(2) have "aid \<notin> a_id ` set (t_attempts t)" by (simp add: op_fresh_def)
  from claim_returns [OF assms(1) this assms(3)] show ?thesis
  proof cases
    case (1 n ex md)
    have "logged eid t t'"
      using 1(4,6) by (simp add: 1(10) logged_def lifecycle_next_def task_rank_def attempt_count_def)
    then show ?thesis
      using 1 by (simp add: effect_def same_task_def attempts_evolve_snoc budget_ok_def)
  qed
qed

lemma effect_renew:
  assumes "wf_task t" "renew_lease aid l r e now t = Inr (t', a)"
  shows "effect eid t t'"
  using renew_lease_returns [OF assms]
proof cases
  case (1 i)
  from attempt_renew_frame [OF 1(4)] have "same_attempt (t_attempts t ! i) a"
    "is_active (t_attempts t ! i)" by auto
  then show ?thesis
    using 1(5,6) by (simp add: effect_def same_task_def attempts_evolve_update budget_ok_def
        silent_def attempt_count_def)
qed

lemma effect_cancel:
  assumes "wf_task t" "request_cancel cmd now eid t = Inr t'"
  shows "effect eid t t'"
  using request_cancel_returns [OF assms]
proof cases
  case (1 n ty md s)
  have "logged eid t t'"
    using 1(2,3)
    by (auto simp: 1(5) logged_def lifecycle_next_def task_rank_def attempt_count_def
        split: if_splits)
  then show ?thesis
    using 1 by (auto simp: effect_def same_task_def budget_ok_def split: if_splits)
qed

lemma effect_ended:
  assumes "holds_lease t i aid l n" "wf_task t'" "same_task t t'"
    "t_attempts t' = (t_attempts t)[i := ended s n cat co fp (t_attempts t ! i)]"
    "budget_ok t \<longrightarrow> budget_ok t'" "logged eid t t'"
  shows "effect eid t t'"
  using assms by (simp add: effect_def holds_lease_def attempts_evolve_update ended_same)

lemma effect_confirm:
  assumes "wf_task t" "confirm_cancel aid l now eid t = Inr t'"
  shows "effect eid t t'"
  using confirm_cancel_returns [OF assms]
proof cases
  case (1 i)
  with assms(1) show ?thesis by (simp add: effect_refl)
next
  case (2 i n tr md)
  show ?thesis
    by (rule effect_ended [OF 2(2,7)])
      (use 2(3) in \<open>simp_all add: 2(6) same_task_def budget_ok_def logged_def
        lifecycle_next_def task_rank_def attempt_count_def\<close>)
qed

lemma effect_complete:
  assumes "wf_task t" "complete aid l fp sm now eid t = Inr t'"
  shows "effect eid t t'"
  using complete_returns [OF assms]
proof cases
  case (1 i)
  with assms(1) show ?thesis by (simp add: effect_refl)
next
  case (2 i n tr md)
  show ?thesis
    by (rule effect_ended [OF 2(2,10)])
      (use 2(3) in \<open>simp_all add: 2(9) same_task_def budget_ok_def logged_def
        lifecycle_next_def task_rank_def attempt_count_def\<close>)
qed

lemma effect_fail:
  assumes "wf_task t" "fail aid l cat code fp retry now eid t = Inr t'"
  shows "effect eid t t'"
  using fail_returns [OF assms]
proof cases
  case (1 i)
  with assms(1) show ?thesis by (simp add: effect_refl)
next
  case (2 i n tr md ty s av)
  show ?thesis
    by (rule effect_ended [OF 2(2,10)])
      (use 2(3,4) in \<open>auto simp: 2(9) same_task_def budget_ok_def logged_def
        lifecycle_next_def task_rank_def attempt_count_def split: if_splits\<close>)
qed

lemma effect_requeue:
  assumes "wf_task t" "requeue_due cmd now eid t = Inr t'"
  shows "effect eid t t'"
  using requeue_due_returns [OF assms]
proof cases
  case (1 n tr)
  have "logged eid t t'"
    using 1(2) by (simp add: 1(6) logged_def lifecycle_next_def task_rank_def attempt_count_def)
  then show ?thesis
    using 1 by (simp add: effect_def same_task_def budget_ok_def attempt_count_def)
qed

lemma effect_retry:
  assumes "wf_task t" "request_manual_retry cmd now eid t = Inr t'"
  shows "effect eid t t'"
  using request_manual_retry_returns [OF assms]
proof cases
  case (1 n tr)
  have "logged eid t t'"
    using 1(2) by (simp add: 1(7) logged_def lifecycle_next_def task_rank_def attempt_count_def)
  then show ?thesis
    using 1 by (simp add: effect_def same_task_def budget_ok_def attempt_count_def)
qed

lemma recovers_to_next:
  assumes "recovers_to t retry n s av" "t_status t \<in> {RUNNING, CANCEL_REQUESTED}"
  shows "lifecycle_next (t_status t) TASK_RECOVERED (Some s) = Some s
    \<and> status_rank s < status_rank (t_status t)
    \<and> (s \<in> {QUEUED, RETRY_WAIT} \<longrightarrow> attempt_count t < t_max_attempts t)"
  using assms
  by (auto simp: recovers_to_def lifecycle_next_def split: if_splits option.splits datetime.splits)

lemma effect_recover:
  assumes "wf_task t" "recover_expired_attempt cmd retry now ao eid t = Inr t'"
  shows "effect eid t t'"
  using recover_expired_attempt_returns [OF assms]
proof cases
  case (1 i n s co av a' tr)
  note next_s = recovers_to_next [OF 1(7,2)]
  have "logged eid t t'"
    using next_s by (simp add: 1(11) logged_def task_rank_def attempt_count_def logged_outcome_def)
  moreover have "same_attempt (t_attempts t ! i) a'"
    using attempt_finish_frame [OF 1(8)] by blast
  moreover have "budget_ok t'"
    using next_s by (auto simp: 1(11) budget_ok_def attempt_count_def)
  ultimately show ?thesis
    using 1(4,12) by (simp add: effect_def 1(11) same_task_def attempts_evolve_update)
qed

lemma run_op_effect:
  assumes "wf_task t" "run_op opr now eid t = Inr t'" "op_fresh opr eid t"
  shows "effect eid t t'"
  using assms
  by (cases opr) (auto simp: errE_simps intro: effect_claim effect_renew effect_cancel
      effect_confirm effect_complete effect_fail effect_requeue effect_retry effect_recover)

end
