(* ===== verification/Task_Properties.thy ===== *)
theory Task_Properties
  imports Task_Machine
begin

text \<open>
  The properties of reachable tasks: the invariants of the class and that its final check never
  fires, the refinement of the abstract event-log machine, the bound on a life cycle, the fencing of
  finished attempts, idempotent result commands, and that a lease holder's result, a due claim and
  an expired lease's recovery are never refused.
\<close>

section \<open>Invariants of reachable tasks\<close>

lemma reachable_basic: "task_reachable t \<Longrightarrow> wf_task t \<and> budget_ok t"
proof (induction rule: task_reachable.induct)
  case (created ty owner key input mx dm allow now tid eid t)
  from create_task_returns [OF created] show ?case
    by cases (auto simp: budget_ok_def attempt_count_def wf_task_def wf_fields_def)
next
  case (stepped t t')
  then show ?case using run_op_effect by (auto simp: effect_def elim!: task_stepE)
qed

lemmas reachable_wf = reachable_basic [THEN conjunct1]
lemmas reachable_budget = reachable_basic [THEN conjunct2]

lemma step_effect: "task_reachable t \<Longrightarrow> task_step t t' \<Longrightarrow> \<exists>eid. effect eid t t'"
  using run_op_effect reachable_wf by (blast elim!: task_stepE)

lemma steps_evolve:
  assumes "task_step\<^sup>*\<^sup>* t u" "task_reachable t"
  shows "task_reachable u \<and> same_task t u \<and> attempts_evolve (t_attempts t) (t_attempts u)"
  using assms
proof (induction rule: rtranclp_induct)
  case (step u v)
  then have u: "task_reachable u" "same_task t u" "attempts_evolve (t_attempts t) (t_attempts u)"
    by auto
  with step.hyps(2) obtain eid where "effect eid u v" using step_effect by blast
  then have v: "same_task u v" "attempts_evolve (t_attempts u) (t_attempts v)"
    by (simp_all add: effect_def)
  show ?case
    using u v step.hyps(2) same_task_trans attempts_evolve_trans task_reachable.stepped by blast
qed simp

text \<open>
  The transition identifiers of results name the attempt they end, so they never collide with an
  attempt that is still running.
\<close>

definition result_tags :: "string list" where
  "result_tags = [''succeeded:'', ''failed:'', ''cancelled:'']"

definition tags_ended :: "task \<Rightarrow> bool" where
  "tags_ended t \<longleftrightarrow>
     (\<forall>tr \<in> set (transition_ids t). \<forall>p \<in> set result_tags. \<forall>u r. tr = p @ uuid_str u @ r \<longrightarrow>
        (\<exists>a \<in> set (t_attempts t). a_id a = u \<and> \<not> is_active a))"

lemma length_uuid_str [simp]: "length (uuid_str u) = 36"
  by (simp add: uuid_str_def Let_def)

lemma uuid_str_append_inj: "uuid_str u @ r = uuid_str v @ s \<Longrightarrow> u = v"
  by (auto dest: uuid_str_inj simp: append_eq_append_conv)

lemma other_tags:
  "p \<in> set result_tags \<Longrightarrow> ''create:'' @ c \<noteq> p @ x" "p \<in> set result_tags \<Longrightarrow> ''claim:'' @ c \<noteq> p @ x"
  "p \<in> set result_tags \<Longrightarrow> ''cancel:'' @ c \<noteq> p @ x" "p \<in> set result_tags \<Longrightarrow> ''requeue:'' @ c \<noteq> p @ x"
  "p \<in> set result_tags \<Longrightarrow> ''manual-retry:'' @ c \<noteq> p @ x"
  "p \<in> set result_tags \<Longrightarrow> ''recovered:'' @ c \<noteq> p @ x"
  by (auto simp: result_tags_def)

lemma same_tag:
  assumes "p \<in> set result_tags" "q \<in> set result_tags" "q @ uuid_str v @ s = p @ uuid_str u @ r"
  shows "u = v"
proof -
  have "p = q" using assms by (auto simp: result_tags_def)
  with assms(3) show ?thesis using uuid_str_append_inj by (metis same_append_eq)
qed

lemma tags_ended_evolve:
  assumes inv: "tags_ended t" and ev: "attempts_evolve (t_attempts t) (t_attempts t')"
    and ids: "set (transition_ids t') \<subseteq> insert tr (set (transition_ids t))"
    and tr: "(\<forall>p \<in> set result_tags. \<forall>x. tr \<noteq> p @ x)
       \<or> (\<exists>q \<in> set result_tags. \<exists>v s. tr = q @ uuid_str v @ s
            \<and> (\<exists>a \<in> set (t_attempts t'). a_id a = v \<and> \<not> is_active a))"
  shows "tags_ended t'"
  unfolding tags_ended_def
proof (intro ballI allI impI)
  fix x p u r assume x: "x \<in> set (transition_ids t')" "p \<in> set result_tags" "x = p @ uuid_str u @ r"
  show "\<exists>a \<in> set (t_attempts t'). a_id a = u \<and> \<not> is_active a"
  proof (cases "x \<in> set (transition_ids t)")
    case True
    with inv x obtain a where a: "a \<in> set (t_attempts t)" "a_id a = u" "\<not> is_active a"
      unfolding tags_ended_def by blast
    then obtain i where "i < length (t_attempts t)" "t_attempts t ! i = a"
      by (auto simp: in_set_conv_nth)
    with ev a have "i < length (t_attempts t')" "t_attempts t' ! i = a"
      by (auto simp: attempts_evolve_def)
    with a show ?thesis by (metis nth_mem)
  next
    case False
    with ids x(1) have "x = tr" by blast
    with tr x(2,3) show ?thesis using same_tag by blast
  qed
qed

lemma silent_ids: "silent t t' \<Longrightarrow> set (transition_ids t') \<subseteq> insert tr (set (transition_ids t))"
  by (auto simp: silent_def transition_ids_def)

lemma logged_ids:
  "t_events t' = t_events t @ [new_event tr ty md n eid t] \<Longrightarrow>
   set (transition_ids t') \<subseteq> insert tr (set (transition_ids t))"
  by (auto simp: transition_ids_def)

lemma plain_tag_step:
  assumes "tags_ended t" "attempts_evolve (t_attempts t) (t_attempts t')"
    "t_events t' = t_events t @ [new_event tr ty md n eid t]"
    "\<And>p x. p \<in> set result_tags \<Longrightarrow> tr \<noteq> p @ x"
  shows "tags_ended t'"
  using tags_ended_evolve [OF assms(1,2) logged_ids [OF assms(3)]] assms(4) by blast

lemma result_tag_step:
  assumes "tags_ended t" "attempts_evolve (t_attempts t) (t_attempts t')"
    "t_events t' = t_events t @ [new_event tr ty md n eid t]"
    "q \<in> set result_tags" "tr = q @ uuid_str (a_id (t_attempts t ! i)) @ s"
    "i < length (t_attempts t)"
    "t_attempts t' = (t_attempts t)[i := ended st n cat co fp (t_attempts t ! i)]" "st \<noteq> ATT_ACTIVE"
  shows "tags_ended t'"
proof -
  let ?a = "ended st n cat co fp (t_attempts t ! i)"
  have "?a \<in> set (t_attempts t')" using assms(6,7) by (simp add: set_update_memI)
  moreover have "a_id ?a = a_id (t_attempts t ! i)" "\<not> is_active ?a"
    using assms(8) by (simp_all add: ended_def is_active_def)
  ultimately show ?thesis
    using tags_ended_evolve [OF assms(1,2) logged_ids [OF assms(3)]] assms(4,5) by blast
qed

lemma holds_lease_index: "holds_lease t i aid l n \<Longrightarrow> i < length (t_attempts t)"
  by (simp add: holds_lease_def)

lemma tags_ended_run_op:
  assumes wf: "wf_task t" and inv: "tags_ended t" and op: "run_op opr now eid t = Inr t'"
    and fr: "op_fresh opr eid t"
  shows "tags_ended t'"
proof -
  have ev: "attempts_evolve (t_attempts t) (t_attempts t')"
    using run_op_effect [OF wf op fr] by (simp add: effect_def)
  note plain = plain_tag_step [OF inv ev] and res = result_tag_step [OF inv ev]
  show ?thesis
  proof (cases opr)
    case (Op_claim w c l e aid)
    with op fr obtain a where "claim w c l e now aid eid t = Inr (t', a)"
      "aid \<notin> a_id ` set (t_attempts t)" by (auto simp: errE_simps op_fresh_def)
    from claim_returns [OF wf this(2,1)] obtain c' md n where
      "t_events t' = t_events t @ [new_event (''claim:'' @ c') TASK_CLAIMED md n eid t]"
      by cases simp
    then show ?thesis by (rule plain) (rule other_tags(2))
  next
    case (Op_renew aid l r e)
    with op obtain a where "renew_lease aid l r e now t = Inr (t', a)" by (auto simp: errE_simps)
    from renew_lease_returns [OF wf this] have "set (transition_ids t') \<subseteq> insert [] (set (transition_ids t))"
      by cases (auto simp: transition_ids_def)
    then show ?thesis
      by (rule tags_ended_evolve [OF inv ev]) (auto simp: result_tags_def)
  next
    case (Op_cancel cmd)
    with op have "request_cancel cmd now eid t = Inr t'" by simp
    from request_cancel_returns [OF wf this] obtain ty md n where
      "t_events t' = t_events t @ [new_event (''cancel:'' @ py_strip cmd) ty md n eid t]"
      by cases simp
    then show ?thesis by (rule plain) (rule other_tags(3))
  next
    case (Op_confirm aid l)
    with op have "confirm_cancel aid l now eid t = Inr t'" by simp
    from confirm_cancel_returns [OF wf this] show ?thesis
    proof cases
      case (2 i n tr md)
      show ?thesis
        by (rule res [of tr TASK_CANCELLED md n eid "''cancelled:''" i "[]" ATT_CANCELLED])
          (use 2(2) in \<open>simp_all add: 2(4,6) result_tags_def holds_lease_index\<close>)
    qed (use inv in simp)
  next
    case (Op_complete aid l fp sm)
    with op have "complete aid l fp sm now eid t = Inr t'" by simp
    from complete_returns [OF wf this] show ?thesis
    proof cases
      case (2 i n tr md)
      show ?thesis
        by (rule res [of tr TASK_SUCCEEDED md n eid "''succeeded:''" i "'':'' @ py_strip fp" ATT_SUCCEEDED])
          (use 2(2) in \<open>simp_all add: 2(7,9) result_tags_def holds_lease_index\<close>)
    qed (use inv in simp)
  next
    case (Op_fail aid l cat code fp retry)
    with op have "fail aid l cat code fp retry now eid t = Inr t'" by simp
    from fail_returns [OF wf this] show ?thesis
    proof cases
      case (2 i n tr md ty s av)
      show ?thesis
        by (rule res [of tr ty md n eid "''failed:''" i "'':'' @ py_strip fp" ATT_FAILED])
          (use 2(2) in \<open>simp_all add: 2(7,9) result_tags_def holds_lease_index\<close>)
    qed (use inv in simp)
  next
    case (Op_requeue cmd)
    with op have "requeue_due cmd now eid t = Inr t'" by simp
    from requeue_due_returns [OF wf this] obtain ty md n where
      "t_events t' = t_events t @ [new_event (''requeue:'' @ py_strip cmd) ty md n eid t]"
      by cases simp
    then show ?thesis by (rule plain) (rule other_tags(4))
  next
    case (Op_retry cmd)
    with op have "request_manual_retry cmd now eid t = Inr t'" by simp
    from request_manual_retry_returns [OF wf this] obtain ty md n where
      "t_events t' = t_events t @ [new_event (''manual-retry:'' @ py_strip cmd) ty md n eid t]"
      by cases simp
    then show ?thesis by (rule plain) (rule other_tags(5))
  next
    case (Op_recover cmd retry ao)
    with op have "recover_expired_attempt cmd retry now ao eid t = Inr t'" by simp
    from recover_expired_attempt_returns [OF wf this] obtain ty md n where
      "t_events t' = t_events t @ [new_event (''recovered:'' @ py_strip cmd) ty md n eid t]"
      by cases simp
    then show ?thesis by (rule plain) (rule other_tags(6))
  qed
qed

lemma reachable_tags: "task_reachable t \<Longrightarrow> tags_ended t"
proof (induction rule: task_reachable.induct)
  case (created ty owner key input mx dm allow now tid eid t)
  from create_task_returns [OF created] have "transition_ids t = [''create:'' @ py_strip key]"
    by cases (simp add: transition_ids_def)
  then show ?case by (auto simp: tags_ended_def result_tags_def)
next
  case (stepped t t')
  then show ?case using tags_ended_run_op reachable_wf by (blast elim!: task_stepE)
qed

lemma active_tag_unused:
  assumes "task_reachable t" "i < length (t_attempts t)" "is_active (t_attempts t ! i)"
    "p \<in> set result_tags"
  shows "p @ uuid_str (a_id (t_attempts t ! i)) @ r \<notin> set (transition_ids t)"
proof
  assume "p @ uuid_str (a_id (t_attempts t ! i)) @ r \<in> set (transition_ids t)"
  with reachable_tags [OF assms(1)] assms(4) obtain a where
    a: "a \<in> set (t_attempts t)" "a_id a = a_id (t_attempts t ! i)" "\<not> is_active a"
    unfolding tags_ended_def by blast
  then obtain j where "j < length (t_attempts t)" "a = t_attempts t ! j"
    by (auto simp: in_set_conv_nth)
  with a assms(2,3) reachable_wf [OF assms(1)] show False
    by (auto simp: wf_task_def wf_attempts_def distinct_conv_nth)
qed

end
