(* ===== verification/Task_Checks.thy ===== *)
theory Task_Checks
  imports Task_Properties
begin

text \<open>
  The final \<open>_validate_invariants\<close> of every task operation passes on a reachable task: no operation
  raises the \<open>ValueError\<close> of a broken invariant.
\<close>

abbreviation "BROKEN \<equiv> ValueError Broken_invariant"

named_theorems not_broken \<open>calls that never raise the broken-invariant error\<close>

lemma require_text_not_broken [not_broken]: "require_text s \<noteq> Inl BROKEN"
  by (simp add: require_text_def)

lemma require_text_value_not_broken [not_broken]: "require_text_value v \<noteq> Inl BROKEN"
  by (cases v) (simp_all add: require_text_value_def not_broken)

lemma require_utc_not_broken [not_broken]: "require_utc d \<noteq> Inl BROKEN"
  by (cases d) simp_all

lemma require_utc_opt_not_broken [not_broken]: "require_utc_opt d \<noteq> Inl BROKEN"
  by (cases d) (simp_all add: not_broken)

lemma code_not_broken [not_broken]: "require_safe_failure_code s \<noteq> Inl BROKEN"
  by (auto simp: require_safe_failure_code_def errE_simps not_broken split: if_splits)

lemma fingerprint_not_broken [not_broken]: "require_safe_fingerprint s \<noteq> Inl BROKEN"
  by (auto simp: require_safe_fingerprint_def errE_simps not_broken split: if_splits)

lemma optE_not_broken: "(\<And>x. f x \<noteq> Inl e) \<Longrightarrow> optE f v \<noteq> Inl e"
  by (cases v) (auto simp: errE_simps)

lemma metadata_entry_not_broken [not_broken]: "safe_metadata_entry al k v \<noteq> Inl BROKEN"
proof
  assume "safe_metadata_entry al k v = Inl BROKEN"
  then show False
    by (cases v) (auto simp: safe_metadata_entry_def errE_simps not_broken split: if_splits)
qed

lemma metadata_loop_not_broken [not_broken]: "safe_metadata_loop al n m \<noteq> Inl BROKEN"
  by (induction m arbitrary: n) (auto simp: errE_simps not_broken)

lemma metadata_not_broken [not_broken]: "safe_metadata ty m \<noteq> Inl BROKEN"
  by (auto simp: safe_metadata_def errE_simps not_broken split: if_splits)

lemma mk_event_not_broken [not_broken]: "mk_event a b c d e f g \<noteq> Inl BROKEN"
  by (auto simp: mk_event_def errE_simps not_broken)

lemma append_event_not_broken [not_broken]: "append_event tr ty md n eid t \<noteq> Inl BROKEN"
  by (auto simp: append_event_def errE_simps not_broken split: if_splits)

lemma optE_utc_not_broken [not_broken]: "optE require_utc v \<noteq> Inl BROKEN"
  by (rule optE_not_broken) (rule not_broken)

lemma mk_attempt_not_broken [not_broken]: "mk_attempt a b c d e f g h i j k l m p \<noteq> Inl BROKEN"
  unfolding mk_attempt_def by (simp add: errE_simps not_broken)

lemma assert_token_not_broken [not_broken]: "assert_token l a \<noteq> Inl BROKEN"
  by (auto simp: assert_token_def errE_simps not_broken)

lemma valid_lease_not_broken [not_broken]: "assert_valid_lease l now a \<noteq> Inl BROKEN"
  by (auto simp: assert_valid_lease_def errE_simps not_broken)

lemma renew_not_broken [not_broken]: "attempt_renew l r e now a \<noteq> Inl BROKEN"
proof
  assume "attempt_renew l r e now a = Inl BROKEN"
  then show False
    unfolding attempt_renew_def by (auto simp: errE_simps not_broken split: if_splits)
qed

lemma finish_not_broken [not_broken]: "attempt_finish s now cat co fp a \<noteq> Inl BROKEN"
  unfolding attempt_finish_def
  by (auto simp: errE_simps not_broken optE_not_broken split: if_splits)

lemma active_not_broken [not_broken]: "active_attempt t \<noteq> Inl BROKEN"
  by (simp add: active_attempt_def)

lemma find_not_broken [not_broken]: "find_attempt aid t \<noteq> Inl BROKEN"
  by (simp add: find_attempt_def split: option.splits)

lemma active_lease_not_broken [not_broken]: "assert_active_lease i l now t \<noteq> Inl BROKEN"
  by (auto simp: assert_active_lease_def errE_simps not_broken split: if_splits)

lemma terminal_not_broken [not_broken]: "assert_same_terminal_result a l f \<noteq> Inl BROKEN"
  by (auto simp: assert_same_terminal_result_def errE_simps not_broken)

lemma outcome_not_broken [not_broken]: "recovery_outcome r n t \<noteq> Inl BROKEN"
  by (auto simp: recovery_outcome_def errE_simps not_broken split: option.splits)

lemma checked_wf: "wf_task t \<Longrightarrow> checked t \<noteq> Inl e"
  by (simp add: wf_task_checked)

section \<open>Operation by operation\<close>

lemma claim_not_broken:
  assumes wf: "wf_task t" and fresh: "aid \<notin> a_id ` set (t_attempts t)"
  shows "claim w c l e now aid eid t \<noteq> Inl BROKEN"
proof
  assume "claim w c l e now aid eid t = Inl BROKEN"
  then obtain n a t' where st: "t_status t = QUEUED" "attempt_count t < t_max_attempts t"
    and mk: "mk_attempt (t_id t) (attempt_count t + 1) w c l e aid ATT_ACTIVE 0 (Aware n)
               None None None None = Inr a"
    and ap: "append_event (''claim:'' @ a_claim_id a) TASK_CLAIMED
       [(''attempt_number'', VInt (a_number a)), (''claim_id'', VStr (a_claim_id a)),
        (''worker_id'', VStr (a_worker_id a))] n eid
       (t\<lparr>t_attempts := t_attempts t @ [a], t_status := RUNNING, t_updated_at := n\<rparr>) = Inr t'"
    and bad: "checked t' = Inl BROKEN"
    unfolding claim_def Let_def
    by (auto simp: errE_simps not_broken not_le simp del: append.simps append_Cons split: if_splits)
  have core: "is_active a" "a_task_id a = t_id t" "a_number a = attempt_count t + 1"
    "a_id a \<notin> a_id ` set (t_attempts t)"
    using mk fresh by (auto simp: is_active_def mk_attempt_fresh_iff)
  show False
    using claim_core [OF wf st core(1) mk_attempt_wf [OF mk] core(2-4) ap] bad checked_wf by blast
qed

lemma renew_lease_not_broken: "renew_lease aid l r e now t \<noteq> Inl BROKEN"
  unfolding renew_lease_def by (auto simp: errE_simps not_broken split: if_splits)

lemma request_cancel_not_broken:
  assumes wf: "wf_task t"
  shows "request_cancel cmd now eid t \<noteq> Inl BROKEN"
proof
  define q where "q = (if t_status t = RUNNING then (TASK_CANCEL_REQUESTED, [], CANCEL_REQUESTED)
       else (TASK_CANCELLED, [(''cancel_mode'', VStr ''queued'')], CANCELLED))"
  obtain ty md s where tms: "(ty, md, s) = q" by (cases q) auto
  assume "request_cancel cmd now eid t = Inl BROKEN"
  then obtain n t' where st: "t_status t \<in> {QUEUED, RETRY_WAIT, RUNNING}"
    and c: "trimmed (py_strip cmd)"
    and ap: "append_event (''cancel:'' @ py_strip cmd) ty md n eid
       (t\<lparr>t_cancel_requested_at := Some n, t_status := s, t_updated_at := n\<rparr>) = Inr t'"
    and bad: "checked t' = Inl BROKEN"
    using tms unfolding q_def request_cancel_def Let_def
    by (auto simp: errE_simps not_broken simp del: append.simps append_Cons split: if_splits)
  show False
    using request_cancel_core [OF wf st c tms [unfolded q_def] ap] bad checked_wf by blast
qed

lemma confirm_cancel_not_broken:
  assumes wf: "wf_task t"
  shows "confirm_cancel aid l now eid t \<noteq> Inl BROKEN"
proof
  assume "confirm_cancel aid l now eid t = Inl BROKEN"
  then obtain i n a' t' where f: "find_attempt aid t = Inr i"
    and fin: "attempt_finish ATT_CANCELLED (Aware n) None None None (t_attempts t ! i) = Inr a'"
    and ap: "append_event (''cancelled:'' @ uuid_str (a_id (t_attempts t ! i))) TASK_CANCELLED
        [(''attempt_number'', VInt (a_number (t_attempts t ! i))), (''cancel_mode'', VStr ''confirmed'')]
        n eid (t\<lparr>t_attempts := (t_attempts t)[i := a'], t_status := CANCELLED, t_updated_at := n\<rparr>)
        = Inr t'"
    and bad: "checked t' = Inl BROKEN"
    unfolding confirm_cancel_def Let_def
    by (auto simp: errE_simps not_broken simp del: append.simps append_Cons split: if_splits)
  show False
    using confirm_cancel_core [OF wf conjunct1 [OF find_attempt_Inr [OF f]] fin ap] bad checked_wf
    by blast
qed

lemma complete_not_broken:
  assumes wf: "wf_task t"
  shows "complete aid l fp sm now eid t \<noteq> Inl BROKEN"
proof
  assume "complete aid l fp sm now eid t = Inl BROKEN"
  then obtain i n a' t' where f: "find_attempt aid t = Inr i"
    and fp: "trimmed (py_strip fp)" "is_safe_fingerprint (py_strip fp)"
    and sm: "trimmed (py_strip sm)"
    and fin: "attempt_finish ATT_SUCCEEDED (Aware n) None None (Some (py_strip fp))
                (t_attempts t ! i) = Inr a'"
    and ap: "append_event
        (''succeeded:'' @ uuid_str (a_id (t_attempts t ! i)) @ '':'' @ py_strip fp)
        TASK_SUCCEEDED [(''attempt_number'', VInt (a_number (t_attempts t ! i))),
          (''result_fingerprint'', VStr (py_strip fp))] n eid
        (t\<lparr>t_attempts := (t_attempts t)[i := a'], t_status := SUCCEEDED,
           t_result_fingerprint := Some (py_strip fp), t_result_summary := Some (py_strip sm),
           t_failure_code := None, t_updated_at := n\<rparr>) = Inr t'"
    and bad: "checked t' = Inl BROKEN"
    unfolding complete_def Let_def
    by (auto simp: errE_simps not_broken simp del: append.simps append_Cons split: if_splits)
  show False
    using complete_core [OF wf conjunct1 [OF find_attempt_Inr [OF f]] fp sm fin ap] bad checked_wf
    by blast
qed

lemma fail_not_broken:
  assumes wf: "wf_task t"
  shows "fail aid l cat code fp retry now eid t \<noteq> Inl BROKEN"
proof
  define retryable where "retryable \<longleftrightarrow> cat = TRANSIENT \<and> attempt_count t < t_max_attempts t"
  obtain ty s where q: "(ty, s) =
      (if retryable then (TASK_RETRY_SCHEDULED, RETRY_WAIT) else (TASK_FAILED, FAILED))"
    by (cases retryable) auto
  then have ty: "ty = (if retryable then TASK_RETRY_SCHEDULED else TASK_FAILED)"
    and s: "s = (if retryable then RETRY_WAIT else FAILED)" by auto
  define avail where "avail n = (if retryable then bindE (require_utc_opt retry) (\<lambda>r.
       if r < n then Inl (ValueError Bad_retry_time) else Inr r) else Inr (t_available_at t))" for n
  have avail: "avail n \<noteq> Inl BROKEN" for n
    by (auto simp: avail_def errE_simps not_broken split: if_splits)
  assume "fail aid l cat code fp retry now eid t = Inl BROKEN"
  then obtain i n a' av t' where f: "find_attempt aid t = Inr i"
    and fp: "trimmed (py_strip fp)" "is_safe_fingerprint (py_strip fp)"
    and co: "trimmed (py_strip code)" "is_safe_failure_code (py_strip code)"
    and av: "avail n = Inr av"
    and fin: "attempt_finish ATT_FAILED (Aware n) (Some cat) (Some (py_strip code))
                (Some (py_strip fp)) (t_attempts t ! i) = Inr a'"
    and ap: "append_event
        (''failed:'' @ uuid_str (a_id (t_attempts t ! i)) @ '':'' @ py_strip fp) ty
        [(''attempt_number'', VInt (a_number (t_attempts t ! i))),
         (''failure_category'', VStr (failure_category_value cat)),
         (''failure_code'', VStr (py_strip code))] n eid
        (t\<lparr>t_attempts := (t_attempts t)[i := a'], t_failure_code := Some (py_strip code),
           t_result_fingerprint := Some (py_strip fp), t_result_summary := None, t_updated_at := n,
           t_status := s, t_available_at := av\<rparr>) = Inr t'"
    and bad: "checked t' = Inl BROKEN"
    unfolding fail_def Let_def ty s retryable_def [symmetric] avail_def [symmetric]
    by (auto simp: errE_simps not_broken avail simp del: append.simps append_Cons split: if_splits)
  show False
    using fail_core [OF wf conjunct1 [OF find_attempt_Inr [OF f]] fp co q fin ap] bad checked_wf
    by blast
qed

lemma plain_not_broken:
  assumes "wf_task t" "trimmed tr" "clean_metadata ty md" "same_task t t1"
    "t_attempts t1 = t_attempts t" "t_events t1 = t_events t"
    "active_expected (t_status t1) = active_expected (t_status t)" "wf_result t1"
  shows "bindE (append_event tr ty md n eid t1) checked \<noteq> Inl BROKEN"
proof
  assume "bindE (append_event tr ty md n eid t1) checked = Inl BROKEN"
  then obtain t2 where "append_event tr ty md n eid t1 = Inr t2" "checked t2 = Inl BROKEN"
    by (auto simp: errE_simps not_broken)
  with plain_move [OF assms(1) this(1) assms(2-)] show False using checked_wf by blast
qed

lemma requeue_due_not_broken:
  assumes "wf_task t"
  shows "requeue_due cmd now eid t \<noteq> Inl BROKEN"
proof
  assume bad: "requeue_due cmd now eid t = Inl BROKEN"
  then obtain n where "t_status t = RETRY_WAIT" "trimmed (py_strip cmd)" and
    "bindE (append_event (''requeue:'' @ py_strip cmd) TASK_REQUEUED [] n eid
      (t\<lparr>t_status := QUEUED, t_available_at := n, t_updated_at := n\<rparr>)) checked = Inl BROKEN"
    unfolding requeue_due_def
    by (auto simp: bindE_Inl_iff [of "require_utc now"] bindE_Inl_iff [of "require_text cmd"]
        not_broken require_text_Inr_iff simp del: append.simps append_Cons split: if_splits)
  with plain_not_broken [OF assms trimmed_transition(7) clean_empty(2)] show False
    by (auto simp: same_task_def wf_result_def simp del: append.simps append_Cons)
qed

lemma request_manual_retry_not_broken:
  assumes "wf_task t"
  shows "request_manual_retry cmd now eid t \<noteq> Inl BROKEN"
proof
  assume bad: "request_manual_retry cmd now eid t = Inl BROKEN"
  then obtain n where "t_status t = FAILED" "trimmed (py_strip cmd)" and
    "bindE (append_event (''manual-retry:'' @ py_strip cmd) TASK_RETRY_REQUESTED [] n eid
      (t\<lparr>t_status := QUEUED, t_available_at := n, t_failure_code := None,
         t_result_fingerprint := None, t_updated_at := n\<rparr>)) checked = Inl BROKEN"
    unfolding request_manual_retry_def
    by (auto simp: bindE_Inl_iff [of "require_utc now"] bindE_Inl_iff [of "require_text cmd"]
        not_broken require_text_Inr_iff simp del: append.simps append_Cons split: if_splits)
  with plain_not_broken [OF assms trimmed_transition(8) clean_empty(3)] show False
    by (auto simp: same_task_def wf_result_def simp del: append.simps append_Cons)
qed

lemma recover_expired_attempt_not_broken:
  assumes wf: "wf_task t"
  shows "recover_expired_attempt cmd retry now ao eid t \<noteq> Inl BROKEN"
proof
  assume "recover_expired_attempt cmd retry now ao eid t = Inl BROKEN"
  then obtain i n s co av a' t' where act: "active_attempt t = Inr (Some i)"
    and fin: "attempt_finish ATT_EXPIRED (Aware n) (Some LEASE_EXPIRED) (Some ''LEASE_EXPIRED'') None
        (t_attempts t ! i) = Inr a'"
    and out: "recovery_outcome retry n t = Inr (s, co, av)"
    and c: "trimmed (py_strip cmd)"
    and ap: "append_event (''recovered:'' @ py_strip cmd) TASK_RECOVERED
        [(''attempt_number'', VInt (a_number (t_attempts t ! i))),
         (''outcome'', VStr (task_status_value s))] n eid
        (t\<lparr>t_attempts := (t_attempts t)[i := a'], t_failure_code := co, t_available_at := av,
           t_status := s, t_updated_at := n\<rparr>) = Inr t'"
    and bad: "checked t' = Inl BROKEN"
    unfolding recover_expired_attempt_def Let_def
    by (auto simp: errE_simps not_broken simp del: append.simps append_Cons
        split: if_splits option.splits)
  have "s \<in> {CANCELLED, FAILED, RETRY_WAIT, QUEUED}"
    using recovery_outcome_Inr [OF out]
    by (auto simp: recovers_to_def split: if_splits option.splits datetime.splits)
  from recover_core [OF wf conjunct1 [OF active_attempt_Inr_Some [OF act]] c this fin ap] bad
  show False using checked_wf by blast
qed

lemma run_op_not_broken:
  assumes "wf_task t" "op_fresh opr eid t"
  shows "run_op opr now eid t \<noteq> Inl BROKEN"
  using assms
  by (cases opr) (auto simp: errE_simps op_fresh_def claim_not_broken renew_lease_not_broken
      request_cancel_not_broken confirm_cancel_not_broken complete_not_broken fail_not_broken
      requeue_due_not_broken request_manual_retry_not_broken recover_expired_attempt_not_broken)

end
