(* ===== verification/Task_Samples.thy ===== *)
theory Task_Samples
  imports Task_Checks
begin

text \<open>
  A concrete task, created, claimed, and with its lease expired: the inputs at which the properties
  are applied.
\<close>

definition sample_new :: task where
  "sample_new =
     \<lparr>t_task_type = ''demo'', t_owner_subject = ''alice'', t_idempotency_key = ''k1'',
      t_input_fingerprint = ''in1'', t_max_attempts = 2, t_available_at = 0, t_id = 1,
      t_status = QUEUED, t_display_metadata = [], t_allow_manual_retry = True, t_created_at = 0,
      t_updated_at = 0, t_cancel_requested_at = None, t_result_summary = None,
      t_result_fingerprint = None, t_failure_code = None, t_attempts = [],
      t_events = [\<lparr>e_task_id = 1, e_sequence = 1, e_transition_id = ''create:k1'',
        e_event_type = TASK_CREATED, e_metadata = [(''task_type'', VStr ''demo'')],
        e_created_at = 0, e_id = 10\<rparr>]\<rparr>"

definition sample_attempt :: task_attempt where
  "sample_attempt =
     \<lparr>a_task_id = 1, a_number = 1, a_worker_id = ''w1'', a_claim_id = ''c1'',
      a_lease_token = ''tok'', a_lease_expires_at = 100, a_id = 7, a_status = ATT_ACTIVE,
      a_renewal_sequence = 0, a_created_at = 5, a_finished_at = None, a_failure_category = None,
      a_failure_code = None, a_result_fingerprint = None\<rparr>"

definition sample_running :: task where
  "sample_running =
     sample_new\<lparr>t_attempts := [sample_attempt], t_status := RUNNING, t_updated_at := 5,
      t_events := t_events sample_new @
        [\<lparr>e_task_id = 1, e_sequence = 2, e_transition_id = ''claim:c1'',
          e_event_type = TASK_CLAIMED,
          e_metadata = [(''attempt_number'', VInt 1), (''claim_id'', VStr ''c1''),
            (''worker_id'', VStr ''w1'')],
          e_created_at = 5, e_id = 11\<rparr>]\<rparr>"

lemma sample_create:
  "create_task ''demo'' '' alice '' ''k1'' ''in1'' 2 None True (Aware 0) 1 10 = Inr sample_new"
  by code_simp

lemma sample_claim:
  "run_op (Op_claim ''w1'' ''c1'' ''tok'' (Aware 100) 7) (Aware 5) 11 sample_new = Inr sample_running"
  by code_simp

lemma sample_new_reachable: "task_reachable sample_new"
  by (rule task_reachable.created [OF sample_create])

lemma sample_running_reachable: "task_reachable sample_running"
proof (rule task_reachable.stepped [OF sample_new_reachable])
  show "task_step sample_new sample_running"
    by (rule task_step.step [OF sample_claim]) (simp add: op_fresh_def sample_new_def)
qed

definition sample_recovered :: task where
  "sample_recovered =
     sample_running\<lparr>t_attempts := [sample_attempt\<lparr>a_status := ATT_EXPIRED,
        a_finished_at := Some 100, a_failure_category := Some LEASE_EXPIRED,
        a_failure_code := Some ''LEASE_EXPIRED''\<rparr>], t_status := QUEUED, t_updated_at := 100,
      t_available_at := 100,
      t_events := t_events sample_running @
        [\<lparr>e_task_id = 1, e_sequence = 3, e_transition_id = ''recovered:r1'',
          e_event_type = TASK_RECOVERED,
          e_metadata = [(''attempt_number'', VInt 1), (''outcome'', VStr ''queued'')],
          e_created_at = 100, e_id = 12\<rparr>]\<rparr>"

definition sample_done :: task where
  "sample_done =
     sample_running\<lparr>t_attempts := [sample_attempt\<lparr>a_status := ATT_SUCCEEDED,
        a_finished_at := Some 50, a_result_fingerprint := Some ''out1''\<rparr>],
      t_status := SUCCEEDED, t_updated_at := 50, t_result_fingerprint := Some ''out1'',
      t_result_summary := Some ''ok'',
      t_events := t_events sample_running @
        [\<lparr>e_task_id = 1, e_sequence = 3,
          e_transition_id = ''succeeded:'' @ uuid_str 7 @ '':out1'',
          e_event_type = TASK_SUCCEEDED,
          e_metadata = [(''attempt_number'', VInt 1), (''result_fingerprint'', VStr ''out1'')],
          e_created_at = 50, e_id = 12\<rparr>]\<rparr>"

lemma sample_recover:
  "run_op (Op_recover ''r1'' None (Some 7)) (Aware 100) 12 sample_running = Inr sample_recovered"
  by code_simp

lemma sample_complete:
  "run_op (Op_complete 7 ''tok'' ''out1'' ''ok'') (Aware 50) 12 sample_running = Inr sample_done"
  by code_simp

lemma sample_recovered_reachable: "task_reachable sample_recovered"
proof (rule task_reachable.stepped [OF sample_running_reachable])
  show "task_step sample_running sample_recovered"
    by (rule task_step.step [OF sample_recover])
      (simp add: op_fresh_def sample_running_def sample_new_def)
qed

lemma sample_done_reachable: "task_reachable sample_done"
proof (rule task_reachable.stepped [OF sample_running_reachable])
  show "task_step sample_running sample_done"
    by (rule task_step.step [OF sample_complete])
      (simp add: op_fresh_def sample_running_def sample_new_def)
qed

definition sample_retry :: task where
  "sample_retry =
     sample_running\<lparr>t_attempts := [sample_attempt\<lparr>a_status := ATT_FAILED,
        a_finished_at := Some 50, a_failure_category := Some TRANSIENT,
        a_failure_code := Some ''E1'', a_result_fingerprint := Some ''out1''\<rparr>],
      t_status := RETRY_WAIT, t_updated_at := 50, t_result_fingerprint := Some ''out1'',
      t_failure_code := Some ''E1'', t_available_at := 80,
      t_events := t_events sample_running @
        [\<lparr>e_task_id = 1, e_sequence = 3,
          e_transition_id = ''failed:'' @ uuid_str 7 @ '':out1'',
          e_event_type = TASK_RETRY_SCHEDULED,
          e_metadata = [(''attempt_number'', VInt 1), (''failure_category'', VStr ''transient''),
            (''failure_code'', VStr ''E1'')],
          e_created_at = 50, e_id = 12\<rparr>]\<rparr>"

lemma sample_fail:
  "fail 7 ''tok'' TRANSIENT ''E1'' ''out1'' (Some (Aware 80)) (Aware 50) 12 sample_running
     = Inr sample_retry"
  by code_simp

end
