(* ===== verification/Task_Theorems.thy ===== *)
theory Task_Theorems
  imports Task_Samples
begin

text \<open>
  The properties of the task aggregate, each over the reachable tasks of \<open>Task_Machine\<close> and each
  with a concrete instance.
\<close>

section \<open>Facts about reachable tasks the properties share\<close>

lemma reachable_log:
  "task_reachable t \<Longrightarrow> log_run (t_events t) = Log_at (t_status t)
     \<and> claims_logged (t_events t) = length (t_attempts t)
     \<and> length (t_events t) + task_rank t \<le> 3 * nat (t_max_attempts t) + 2"
proof (induction rule: task_reachable.induct)
  case (created ty owner key input mx dm allow now tid eid t)
  from create_task_returns [OF created] show ?case
    by cases (simp add: log_run_def claims_logged_def task_rank_def attempt_count_def)
next
  case (stepped t t')
  then obtain eid where "effect eid t t'" using step_effect by blast
  then have "same_task t t'" "silent t t' \<or> logged eid t t'" by (simp_all add: effect_def)
  with stepped.IH show ?case
    by (auto simp: silent_def logged_def log_run_def claims_logged_def task_rank_def
        attempt_count_def same_task_def)
qed

lemma steps_finished:
  assumes "task_step\<^sup>*\<^sup>* t u" "task_reachable t" "a \<in> set (t_attempts t)" "\<not> is_active a"
  obtains i where "task_reachable u" "i < length (t_attempts u)" "t_attempts u ! i = a"
proof -
  from assms(3) obtain i where i: "i < length (t_attempts t)" "t_attempts t ! i = a"
    by (auto simp: in_set_conv_nth)
  with steps_evolve [OF assms(1,2)] assms(4)
  have "task_reachable u" "i < length (t_attempts u)" "t_attempts u ! i = a"
    by (auto simp: attempts_evolve_def)
  then show thesis by (rule that)
qed

lemma find_attempt_reachable:
  "task_reachable t \<Longrightarrow> i < length (t_attempts t) \<Longrightarrow> find_attempt (a_id (t_attempts t ! i)) t = Inr i"
  using reachable_wf [of t] by (intro find_attempt_nth) (simp_all add: wf_task_def wf_attempts_def)

lemma holds_lease_unique:
  assumes "task_reachable t" "holds_lease t j (a_id (t_attempts t ! i)) l n" "i < length (t_attempts t)"
  shows "j = i"
  using find_attempt_reachable [OF assms(1,3)] find_attempt_reachable [OF assms(1), of j] assms(2)
  by (simp add: holds_lease_def)

fun names_attempt :: "task_op \<Rightarrow> uuid \<Rightarrow> bool" where
  \<comment> \<open>the operations a worker sends for an attempt\<close>
  "names_attempt (Op_renew aid l r e) a = (aid = a)"
| "names_attempt (Op_confirm aid l) a = (aid = a)"
| "names_attempt (Op_complete aid l fp sm) a = (aid = a)"
| "names_attempt (Op_fail aid l cat code fp retry) a = (aid = a)"
| "names_attempt _ a = False"

lemma finished_op_no_change:
  assumes "task_reachable u" "i < length (t_attempts u)" "\<not> is_active (t_attempts u ! i)"
    "names_attempt opr (a_id (t_attempts u ! i))" "run_op opr now eid u = Inr v"
  shows "v = u"
proof -
  note wf = reachable_wf [OF assms(1)] and find_i = find_attempt_reachable [OF assms(1,2)]
  show ?thesis
    using assms(3-5) find_i
    by (cases opr) (auto simp: errE_simps renew_lease_def confirm_cancel_def complete_def fail_def
        Let_def split: if_splits)
qed

lemma terminal_op_no_change:
  assumes "task_reachable t" "t_status t \<in> {SUCCEEDED, CANCELLED}" "run_op opr now eid t = Inr t'"
  shows "t' = t"
  using assms(2,3)
  by (cases opr) (auto simp: errE_simps claim_def renew_lease_def request_cancel_def
      confirm_cancel_def complete_def fail_def requeue_due_def request_manual_retry_def
      recover_expired_attempt_def Let_def simp del: append.simps append_Cons split: if_splits)

lemma ended_sel [simp]:
  "a_status (ended s n cat co fp a) = s" "a_id (ended s n cat co fp a) = a_id a"
  "a_lease_token (ended s n cat co fp a) = a_lease_token a"
  "a_result_fingerprint (ended s n cat co fp a) = fp"
  by (simp_all add: ended_def)

lemma find_attempt_replaced:
  assumes "t_attempts u = (t_attempts t)[i := b]" "a_id b = a_id (t_attempts t ! i)"
  shows "find_attempt aid u = find_attempt aid t"
proof -
  have "map a_id (t_attempts u) = map a_id (t_attempts t)"
    using assms by (metis list_update_id map_update)
  from first_index_cong [OF this, of "\<lambda>x. x = aid"] show ?thesis by (simp add: find_attempt_def)
qed

text \<open>The attempt \<open>aid\<close> ended with this status and result under the token \<open>l\<close>.\<close>

definition recorded :: "task \<Rightarrow> uuid \<Rightarrow> string \<Rightarrow> attempt_status \<Rightarrow> string option \<Rightarrow> bool" where
  "recorded t aid l s fp \<longleftrightarrow>
     (\<exists>i. find_attempt aid t = Inr i \<and> a_status (t_attempts t ! i) = s
        \<and> a_lease_token (t_attempts t ! i) = py_strip l \<and> trimmed (py_strip l)
        \<and> (fp \<noteq> None \<longrightarrow> a_result_fingerprint (t_attempts t ! i) = fp))"

lemma recorded_end:
  assumes "task_reachable t" "holds_lease t i aid l n"
    "t_attempts t' = (t_attempts t)[i := ended s n cat co fp (t_attempts t ! i)]"
  shows "recorded t' aid l s fp"
proof -
  have i: "i < length (t_attempts t)" "a_id (t_attempts t ! i) = aid"
    "a_lease_token (t_attempts t ! i) = py_strip l"
    using assms(2) by (simp_all add: holds_lease_def)
  then have "wf_attempt (t_attempts t ! i)"
    using reachable_wf [OF assms(1)] by (simp add: wf_task_def wf_attempts_def)
  then have "trimmed (py_strip l)" using i by (simp add: wf_attempt_def)
  moreover have "find_attempt aid t' = Inr i"
    using find_attempt_reachable [OF assms(1) i(1)] find_attempt_replaced [OF assms(3)] i by simp
  ultimately show ?thesis using assms(3) i by (simp add: recorded_def)
qed

lemma complete_records:
  assumes "task_reachable t" "complete aid l fp sm now eid t = Inr t'"
  shows "t_status t' = SUCCEEDED \<and> recorded t' aid l ATT_SUCCEEDED (Some (py_strip fp))
    \<and> require_safe_fingerprint fp = Inr (py_strip fp)"
proof -
  have fp: "require_safe_fingerprint fp = Inr (py_strip fp)"
    using assms(2) by (auto simp: complete_def Let_def errE_simps simp del: append.simps append_Cons)
  from complete_returns [OF reachable_wf [OF assms(1)] assms(2)] show ?thesis
  proof cases
    case (1 i)
    with find_attempt_reachable [OF assms(1), of i] assms(2) fp show ?thesis
      by (auto simp: recorded_def complete_def Let_def errE_simps)
  next
    case (2 i n tr md)
    show ?thesis using recorded_end [OF assms(1) 2(2)] fp by (simp add: 2(9))
  qed
qed

lemma fail_records:
  assumes "task_reachable t" "fail aid l cat code fp retry now eid t = Inr t'"
  shows "t_status t' \<in> {RETRY_WAIT, FAILED} \<and> recorded t' aid l ATT_FAILED (Some (py_strip fp))
    \<and> require_safe_fingerprint fp = Inr (py_strip fp)"
proof -
  have fp: "require_safe_fingerprint fp = Inr (py_strip fp)"
    using assms(2) by (auto simp: fail_def Let_def errE_simps simp del: append.simps append_Cons)
  from fail_returns [OF reachable_wf [OF assms(1)] assms(2)] show ?thesis
  proof cases
    case (1 i)
    with find_attempt_reachable [OF assms(1), of i] assms(2) fp show ?thesis
      by (auto simp: recorded_def fail_def Let_def errE_simps)
  next
    case (2 i n tr md ty s av)
    show ?thesis using recorded_end [OF assms(1) 2(2)] 2(4) fp by (auto simp: 2(9) split: if_splits)
  qed
qed

lemma confirm_records:
  assumes "task_reachable t" "confirm_cancel aid l now eid t = Inr t'"
  shows "t_status t' = CANCELLED \<and> recorded t' aid l ATT_CANCELLED None"
  using confirm_cancel_returns [OF reachable_wf [OF assms(1)] assms(2)]
proof cases
  case (1 i)
  with find_attempt_reachable [OF assms(1), of i] assms(2) show ?thesis
    by (auto simp: recorded_def confirm_cancel_def Let_def errE_simps)
next
  case (2 i n tr md)
  show ?thesis using recorded_end [OF assms(1) 2(2)] by (simp add: 2(6))
qed

lemma complete_replay:
  assumes "t_status t = SUCCEEDED" "recorded t aid l ATT_SUCCEEDED (Some f)"
    "require_safe_fingerprint fp = Inr g"
  shows "complete aid l fp sm now eid t =
    (if g = f then Inr t else Inl TaskIdempotencyConflictError)"
  using assms by (auto simp: recorded_def complete_def Let_def assert_same_terminal_result_def
      assert_token_def require_text_def trimmed_nonempty)

lemma fail_replay:
  assumes "t_status t \<in> {RETRY_WAIT, FAILED}" "recorded t aid l ATT_FAILED (Some f)"
    "require_safe_fingerprint fp = Inr g"
  shows "fail aid l cat code fp retry now eid t =
    (if g = f then Inr t else Inl TaskIdempotencyConflictError)"
  using assms by (auto simp: recorded_def fail_def Let_def assert_same_terminal_result_def
      assert_token_def require_text_def trimmed_nonempty)

lemma confirm_replay:
  assumes "t_status t = CANCELLED" "recorded t aid l ATT_CANCELLED None"
  shows "confirm_cancel aid l now eid t = Inr t"
  using assms by (auto simp: recorded_def confirm_cancel_def Let_def assert_token_def
      require_text_def trimmed_nonempty)

lemma renew_replay:
  assumes "task_reachable t" "renew_lease aid l r e now t = Inr (t', b)"
  shows "renew_lease aid l r e now2 t' = Inr (t', b)"
  using renew_lease_returns [OF reachable_wf [OF assms(1)] assms(2)]
proof cases
  case (1 i)
  from attempt_renew_frame [OF 1(4)] have b: "same_attempt (t_attempts t ! i) b" "is_active b" by auto
  have at: "t_attempts t' ! i = b" "i < length (t_attempts t')" using 1(1,5) by simp_all
  have "find_attempt aid t' = Inr i"
    using find_attempt_reachable [OF assms(1) 1(1)] find_attempt_replaced [of t' t i b aid] b(1) 1(2,5)
    by (simp add: same_attempt_def)
  moreover have "active_attempt t' = Inr (Some i)"
    using active_attempt_Some [OF 1(6) at(2)] at b by simp
  moreover have "attempt_renew l r e now2 b = Inr b"
    using 1(4) by (auto simp: attempt_renew_Inr_iff is_active_def)
  ultimately show ?thesis using at b 1(3) list_update_id [of "t_attempts t'" i]
    by (simp add: renew_lease_def 1(5))
qed

section \<open>Invariants\<close>

text \<open>
  C1: the final invariant check of every operation passes. On every reachable task the class
  invariants hold (attempts and events numbered from one, transition identifiers unique, exactly one
  active attempt while running or being cancelled and none otherwise, a summary on success), the
  attempt budget is respected, and no operation, whatever its arguments, raises the broken-invariant
  error.
\<close>

theorem final_check_never_fires:
  assumes "task_reachable t" "op_fresh opr eid t"
  shows "validate_invariants t = Inr () \<and> attempt_count t \<le> t_max_attempts t
    \<and> run_op opr now eid t \<noteq> Inl (ValueError Broken_invariant)"
  using reachable_wf [OF assms(1)] run_op_not_broken [OF _ assms(2)]
  by (auto simp: wf_task_valid) (simp add: wf_task_def wf_attempts_def)

theorem final_check_never_fires_witness:
  "validate_invariants sample_running = Inr () \<and> attempt_count sample_running \<le> t_max_attempts sample_running
    \<and> run_op (Op_cancel ''stop'') (Aware 9) 12 sample_running \<noteq> Inl (ValueError Broken_invariant)"
  by (rule final_check_never_fires [OF sample_running_reachable])
    (simp add: op_fresh_def sample_running_def sample_new_def)

text \<open>
  C2: the event log is the history of the task. Replaying the logged events of a reachable task
  through the abstract life cycle (created, then only the transitions of \<open>lifecycle_next\<close>) never
  breaks and ends in the status the aggregate stores; every attempt has exactly one claim event.
\<close>

theorem event_log_determines_status:
  assumes "task_reachable t"
  shows "log_run (t_events t) = Log_at (t_status t)
    \<and> claims_logged (t_events t) = length (t_attempts t)"
  using reachable_log [OF assms] by blast

theorem event_log_determines_status_witness:
  "log_run (t_events sample_running) = Log_at (t_status sample_running)
    \<and> claims_logged (t_events sample_running) = length (t_attempts sample_running)"
  by (rule event_log_determines_status [OF sample_running_reachable])

text \<open>
  C3: a life cycle is bounded. Whatever sequence of operations is sent, a task with a budget of
  \<open>max_attempts\<close> logs at most \<open>3 * max_attempts + 2\<close> events, so claims, retries, recoveries and
  cancellations cannot go on for ever.
\<close>

theorem life_cycle_is_bounded:
  assumes "task_reachable t"
  shows "length (t_events t) \<le> 3 * nat (t_max_attempts t) + 2"
  using reachable_log [OF assms] by linarith

theorem life_cycle_is_bounded_witness:
  "length (t_events sample_running) \<le> 3 * nat (t_max_attempts sample_running) + 2"
  by (rule life_cycle_is_bounded [OF sample_running_reachable])

text \<open>
  C4: a finished attempt is fenced. Once an attempt has ended (by its result, a confirmed
  cancellation or a lease recovery), it stays in the list unchanged through every later operation, and
  a worker that still sends a renewal, a result or a confirmation for it is refused or, on a replay,
  changes nothing.
\<close>

theorem finished_attempt_is_fenced:
  assumes "task_reachable t" "a \<in> set (t_attempts t)" "\<not> is_active a" "task_step\<^sup>*\<^sup>* t u"
    "names_attempt opr (a_id a)"
  shows "a \<in> set (t_attempts u) \<and> run_op opr now eid u \<in> range Inl \<union> {Inr u}"
proof -
  from steps_finished [OF assms(4,1,2,3)] obtain i where
    i: "task_reachable u" "i < length (t_attempts u)" "t_attempts u ! i = a" .
  with assms(3,5) have "v = u" if "run_op opr now eid u = Inr v" for v
    using finished_op_no_change [OF i(1,2)] that by blast
  with i show ?thesis by (cases "run_op opr now eid u") auto
qed

theorem finished_attempt_is_fenced_witness:
  "sample_attempt\<lparr>a_status := ATT_EXPIRED, a_finished_at := Some 100,
      a_failure_category := Some LEASE_EXPIRED, a_failure_code := Some ''LEASE_EXPIRED''\<rparr>
     \<in> set (t_attempts sample_recovered)
   \<and> run_op (Op_complete 7 ''tok'' ''r'' ''s'') (Aware 101) 13 sample_recovered \<in> range Inl \<union> {Inr sample_recovered}"
  by (rule finished_attempt_is_fenced [OF sample_recovered_reachable _ _ rtranclp.rtrancl_refl])
    (simp_all add: sample_recovered_def is_active_def sample_attempt_def)

text \<open>
  C5: success and cancellation are final. A task that has succeeded or was cancelled is never
  changed again by any sequence of operations, replays included.
\<close>

theorem terminal_status_is_final:
  assumes "task_reachable t" "t_status t \<in> {SUCCEEDED, CANCELLED}" "task_step\<^sup>*\<^sup>* t u"
  shows "u = t"
  using assms(3)
proof (induction rule: rtranclp_induct)
  case (step v w)
  with assms(1,2) terminal_op_no_change show ?case by (metis task_stepE)
qed simp

theorem terminal_status_is_final_witness:
  "{u. task_step\<^sup>*\<^sup>* sample_done u} = {sample_done}"
  using terminal_status_is_final [OF sample_done_reachable] by (auto simp: sample_done_def)

section \<open>Results\<close>

text \<open>
  C6: worker commands are idempotent. When a renewal, a success, a failure or a confirmed
  cancellation has been accepted, sending the same command again at any later time, with any new event
  id, is accepted and returns the same task.
\<close>

theorem worker_command_replays:
  assumes "task_reachable t" "names_attempt opr aid" "run_op opr now eid t = Inr t'"
  shows "run_op opr now2 eid2 t' = Inr t'"
proof (cases opr)
  case (Op_renew a l r e)
  with assms(3) obtain b where "renew_lease a l r e now t = Inr (t', b)" by (auto simp: errE_simps)
  from renew_replay [OF assms(1) this] Op_renew show ?thesis by simp
next
  case (Op_complete a l fp sm)
  with assms(3) have "complete a l fp sm now eid t = Inr t'" by simp
  note r = complete_records [OF assms(1) this]
  from complete_replay [OF conjunct1 [OF r] conjunct1 [OF conjunct2 [OF r]] conjunct2 [OF conjunct2 [OF r]]]
    Op_complete show ?thesis by simp
next
  case (Op_fail a l cat code fp retry)
  with assms(3) have "fail a l cat code fp retry now eid t = Inr t'" by simp
  note r = fail_records [OF assms(1) this]
  from fail_replay [OF conjunct1 [OF r] conjunct1 [OF conjunct2 [OF r]] conjunct2 [OF conjunct2 [OF r]]]
    Op_fail show ?thesis by simp
next
  case (Op_confirm a l)
  with assms(3) have "confirm_cancel a l now eid t = Inr t'" by simp
  note r = confirm_records [OF assms(1) this]
  from confirm_replay [OF conjunct1 [OF r] conjunct2 [OF r]] Op_confirm show ?thesis by simp
qed (use assms(2) in simp_all)

theorem worker_command_replays_witness:
  "run_op (Op_complete 7 ''tok'' ''out1'' ''ok'') (Aware 5000) 99 sample_done = Inr sample_done"
  by (rule worker_command_replays [OF sample_running_reachable _ sample_complete]) simp

text \<open>
  C7: a result cannot be replaced. Once a success has been accepted, the same attempt and token with
  a different fingerprint is refused as an idempotency conflict, and so is a different fingerprint for
  a recorded failure while the task waits for its retry or stays failed.
\<close>

theorem conflicting_result_refused:
  assumes "task_reachable t" "require_safe_fingerprint fp2 = Inr g" "g \<noteq> py_strip fp"
    "complete aid l fp sm now eid t = Inr t' \<and> opr = Op_complete aid l fp2 sm2
     \<or> fail aid l cat code fp retry now eid t = Inr t' \<and> opr = Op_fail aid l cat2 code2 fp2 retry2"
  shows "run_op opr now2 eid2 t' = Inl TaskIdempotencyConflictError"
  using assms(4)
proof (elim disjE conjE)
  assume op: "complete aid l fp sm now eid t = Inr t'" "opr = Op_complete aid l fp2 sm2"
  note r = complete_records [OF assms(1) op(1)]
  from complete_replay [OF conjunct1 [OF r] conjunct1 [OF conjunct2 [OF r]] assms(2)] assms(3) op(2)
  show ?thesis by simp
next
  assume op: "fail aid l cat code fp retry now eid t = Inr t'"
    "opr = Op_fail aid l cat2 code2 fp2 retry2"
  note r = fail_records [OF assms(1) op(1)]
  from fail_replay [OF conjunct1 [OF r] conjunct1 [OF conjunct2 [OF r]] assms(2)] assms(3) op(2)
  show ?thesis by simp
qed

theorem conflicting_result_refused_witness:
  "run_op (Op_complete 7 ''tok'' ''out2'' ''ok'') (Aware 60) 14 sample_done
     = Inl TaskIdempotencyConflictError"
proof (rule conflicting_result_refused [OF sample_running_reachable])
  show "require_safe_fingerprint ''out2'' = Inr ''out2''" by code_simp
  show "''out2'' \<noteq> py_strip ''out1''" by code_simp
  show "complete 7 ''tok'' ''out1'' ''ok'' (Aware 50) 12 sample_running = Inr sample_done
      \<and> Op_complete 7 ''tok'' ''out2'' ''ok'' = Op_complete 7 ''tok'' ''out2'' ''ok''
    \<or> fail 7 ''tok'' TRANSIENT [] ''out1'' None (Aware 50) 12 sample_running = Inr sample_done
      \<and> Op_complete 7 ''tok'' ''out2'' ''ok'' = Op_fail 7 ''tok'' TRANSIENT [] ''out2'' None"
    using sample_complete by simp
qed

end
