(* ===== verification/Task_Progress.thy ===== *)
theory Task_Progress
  imports Task_Theorems
begin

text \<open>
  Progress of the task aggregate: which calls are certain to be accepted. The holder of the lease
  can always commit its result, a due task can always be claimed, and the attempt of an expired lease
  can always be recovered. Each is stated with the state the call leaves.
\<close>

lemma append_event_fresh:
  assumes "trimmed tr" "clean_metadata ty md" "tr \<notin> set (transition_ids t)"
  shows "append_event tr ty md n eid t = Inr (t\<lparr>t_events := t_events t @ [new_event tr ty md n eid t]\<rparr>)"
  using assms by (simp add: append_event_clean)

lemma finish_plain:
  assumes "is_active a" "s \<noteq> ATT_ACTIVE"
    "optE require_safe_failure_code co = Inr co" "optE require_safe_fingerprint fp = Inr fp"
    "co \<noteq> Some []" "fp \<noteq> Some []"
  shows "attempt_finish s (Aware n) cat co fp a = Inr (ended s n cat co fp a)"
proof -
  have "truthy_text co = co" "truthy_text fp = fp"
    using assms(5,6) by (cases co; cases fp; simp)+
  with assms(1-4) show ?thesis by (simp add: attempt_finish_Inr_iff ended_def)
qed

lemma holder:
  assumes "task_reachable t" "holds_lease t i aid l n"
  shows "find_attempt aid t = Inr i \<and> active_attempt t = Inr (Some i) \<and> i < length (t_attempts t)
    \<and> is_active (t_attempts t ! i) \<and> a_status (t_attempts t ! i) = ATT_ACTIVE
    \<and> assert_active_lease i l (Aware n) t = Inr ()"
proof -
  have i: "i < length (t_attempts t)" "is_active (t_attempts t ! i)" "a_id (t_attempts t ! i) = aid"
    "a_lease_token (t_attempts t ! i) = py_strip l" "n < a_lease_expires_at (t_attempts t ! i)"
    using assms(2) by (simp_all add: holds_lease_def)
  have wf: "wf_task t" using assms(1) by (rule reachable_wf)
  with i have "wf_attempt (t_attempts t ! i)" by (simp add: wf_task_def wf_attempts_def)
  then have "trimmed (py_strip l)" using i by (simp add: wf_attempt_def)
  with i active_attempt_Some [OF wf i(1,2)] find_attempt_reachable [OF assms(1) i(1)] show ?thesis
    by (simp add: errE_simps is_active_def)
qed

lemma complete_accepted:
  assumes r: "task_reachable t" and h: "holds_lease t i aid l n" and st: "t_status t = RUNNING"
    and fp: "trimmed (py_strip fp)" "is_safe_fingerprint (py_strip fp)" and sm: "trimmed (py_strip sm)"
  obtains t' where "complete aid l fp sm (Aware n) eid t = Inr t'"
proof -
  note hd = holder [OF r h] and wf = reachable_wf [OF r]
  let ?a = "t_attempts t ! i"
  let ?a' = "ended ATT_SUCCEEDED n None None (Some (py_strip fp)) ?a"
  let ?tr = "''succeeded:'' @ uuid_str (a_id ?a) @ '':'' @ py_strip fp"
  let ?md = "[(''attempt_number'', VInt (a_number ?a)), (''result_fingerprint'', VStr (py_strip fp))]"
  let ?t1 = "t\<lparr>t_attempts := (t_attempts t)[i := ?a'], t_status := SUCCEEDED,
      t_result_fingerprint := Some (py_strip fp), t_result_summary := Some (py_strip sm),
      t_failure_code := None, t_updated_at := n\<rparr>"
  have fin: "attempt_finish ATT_SUCCEEDED (Aware n) None None (Some (py_strip fp)) ?a = Inr ?a'"
    using hd fp by (intro finish_plain) (auto simp: require_safe_fingerprint_def trimmed_nonempty)
  have "?tr \<notin> set (transition_ids ?t1)"
    using active_tag_unused [OF r, of i "''succeeded:''" "'':'' @ py_strip fp"] hd
    by (simp add: result_tags_def)
  then obtain t' where ap: "append_event ?tr TASK_SUCCEEDED ?md n eid ?t1 = Inr t'"
    using append_event_fresh [OF trimmed_transition(5) [OF trimmed_reference [OF fp(1)]]
        clean_succeeded [OF number_positive [OF wf, of i] fp]] hd by blast
  from complete_core [OF wf _ fp sm fin ap] hd have ck: "checked t' = Inr t'"
    by (simp add: wf_task_checked del: append.simps append_Cons)
  have "complete aid l fp sm (Aware n) eid t = Inr t'"
    unfolding complete_def Let_def
    using hd st fp sm fin ap ck
    by (simp add: require_safe_fingerprint_def require_text_def trimmed_nonempty
        del: append.simps append_Cons)
  then show thesis by (rule that)
qed

text \<open>
  C8: exactly the lease holder can complete. On a running task, \<open>complete\<close> is accepted if and only
  if the named attempt is the active one, the token is its token, its lease has not expired, the
  fingerprint is a safe reference and the summary is not blank; nothing in the task's past (no
  transition id, no count, no final check) can get in the way.
\<close>

theorem result_accepted_iff_lease_held:
  assumes "task_reachable t" "t_status t = RUNNING"
  shows "complete aid l fp sm (Aware n) eid t \<in> range Inr \<longleftrightarrow>
    (\<exists>i. holds_lease t i aid l n) \<and> py_strip fp \<noteq> [] \<and> is_safe_fingerprint (py_strip fp)
    \<and> py_strip sm \<noteq> []"
proof
  assume "complete aid l fp sm (Aware n) eid t \<in> range Inr"
  then obtain t' where "complete aid l fp sm (Aware n) eid t = Inr t'" by auto
  from complete_returns [OF reachable_wf [OF assms(1)] this] assms(2)
  show "(\<exists>i. holds_lease t i aid l n) \<and> py_strip fp \<noteq> [] \<and> is_safe_fingerprint (py_strip fp)
    \<and> py_strip sm \<noteq> []"
    by cases (auto simp: trimmed_nonempty)
next
  assume "(\<exists>i. holds_lease t i aid l n) \<and> py_strip fp \<noteq> [] \<and> is_safe_fingerprint (py_strip fp)
    \<and> py_strip sm \<noteq> []"
  then obtain i where "holds_lease t i aid l n" "trimmed (py_strip fp)"
    "is_safe_fingerprint (py_strip fp)" "trimmed (py_strip sm)"
    by (auto simp: trimmed_py_strip)
  from complete_accepted [OF assms(1) this(1) assms(2) this(2-4)]
  show "complete aid l fp sm (Aware n) eid t \<in> range Inr" by (metis rangeI)
qed

theorem result_accepted_iff_lease_held_witness:
  "complete 7 ''tok'' ''out1'' ''ok'' (Aware 100) 12 sample_running \<notin> range Inr
   \<and> complete 7 ''tok'' ''out1'' ''ok'' (Aware 99) 12 sample_running \<in> range Inr"
  using result_accepted_iff_lease_held [OF sample_running_reachable]
  by (simp add: sample_running_def holds_lease_def sample_attempt_def is_active_def
      py_strip_def py_space_def is_safe_fingerprint_def is_alnum_def is_lower_def is_upper_def
      is_digit_def)

text \<open>
  C9: the retry decision. When a failure report is accepted on a running task, the task waits for a
  retry exactly when the failure is transient and the budget of attempts is not spent, and then until
  the given time, which is not in the past; otherwise it fails for good. The code and fingerprint are
  stored, the attempt keeps the category, and no attempt is active any more.
\<close>

theorem failure_retry_decision:
  assumes "task_reachable t" "t_status t = RUNNING"
    "fail aid l cat code fp retry (Aware n) eid t = Inr t'"
  shows "(if cat = TRANSIENT \<and> attempt_count t < t_max_attempts t
          then t_status t' = RETRY_WAIT \<and> retry = Some (Aware (t_available_at t')) \<and> n \<le> t_available_at t'
          else t_status t' = FAILED \<and> t_available_at t' = t_available_at t)
    \<and> t_failure_code t' = Some (py_strip code) \<and> t_result_fingerprint t' = Some (py_strip fp)
    \<and> active_count t' = 0 \<and> attempt_count t' = attempt_count t"
proof -
  from fail_returns [OF reachable_wf [OF assms(1)] assms(3)] show ?thesis
  proof cases
    case (2 i m tr md ty s av)
    have "active_count t' = active_expected (t_status t')"
      using 2(10) by (simp add: wf_task_def wf_attempts_def)
    moreover have "t_status t' = s" "t_available_at t' = av" by (simp_all add: 2(9))
    moreover have "attempt_count t' = attempt_count t" by (simp add: 2(9) attempt_count_def)
    moreover have "t_failure_code t' = Some (py_strip code)"
      "t_result_fingerprint t' = Some (py_strip fp)" by (simp_all add: 2(9))
    ultimately show ?thesis using 2(1,4-6) by (auto split: if_splits)
  qed (use assms(2) in simp)
qed

theorem failure_retry_decision_witness:
  "t_status sample_retry = RETRY_WAIT \<and> t_available_at sample_retry = 80 \<and> active_count sample_retry = 0"
proof -
  have "t_status sample_running = RUNNING" "attempt_count sample_running < t_max_attempts sample_running"
    by (simp_all add: sample_running_def attempt_count_def sample_new_def)
  with failure_retry_decision [OF sample_running_reachable _ sample_fail] show ?thesis by simp
qed

section \<open>Claims and recovery\<close>

text \<open>
  C10: a due task can be claimed. A reachable task that is queued always has budget left, so a claim
  at or after its available time is accepted whenever worker, claim and token are not blank, the lease
  ends later than now and the claim id is new; it starts attempt number \<open>attempt_count + 1\<close>, which
  holds the lease.
\<close>

theorem due_task_is_claimable:
  assumes "task_reachable t" "t_status t = QUEUED" "t_available_at t \<le> n" "n < ex"
    "py_strip w \<noteq> []" "py_strip c \<noteq> []" "py_strip l \<noteq> []"
    "''claim:'' @ py_strip c \<notin> set (transition_ids t)" "aid \<notin> a_id ` set (t_attempts t)"
  shows "\<exists>t' a. claim w c l (Aware ex) (Aware n) aid eid t = Inr (t', a) \<and> t_status t' = RUNNING
    \<and> a_number a = attempt_count t + 1 \<and> holds_lease t' (length (t_attempts t)) aid l n"
proof -
  have r: "wf_task t" "attempt_count t < t_max_attempts t"
    using reachable_wf [OF assms(1)] reachable_budget [OF assms(1)] assms(2)
    by (simp_all add: budget_ok_def)
  have tx: "trimmed (py_strip w)" "trimmed (py_strip c)" "trimmed (py_strip l)"
    using assms(5-7) by (auto simp: trimmed_py_strip)
  define a where "a = \<lparr>a_task_id = t_id t, a_number = attempt_count t + 1,
      a_worker_id = py_strip w, a_claim_id = py_strip c, a_lease_token = py_strip l,
      a_lease_expires_at = ex, a_id = aid, a_status = ATT_ACTIVE, a_renewal_sequence = 0,
      a_created_at = n, a_finished_at = None, a_failure_category = None, a_failure_code = None,
      a_result_fingerprint = None\<rparr>"
  have mk: "mk_attempt (t_id t) (attempt_count t + 1) w c l (Aware ex) aid ATT_ACTIVE 0 (Aware n)
      None None None None = Inr a"
    using tx assms(4) by (simp add: mk_attempt_fresh_iff a_def attempt_count_def)
  have a: "is_active a" "wf_attempt a" "a_task_id a = t_id t" "a_number a = attempt_count t + 1"
    "a_id a \<notin> a_id ` set (t_attempts t)"
    using mk_attempt_wf [OF mk] assms(9) by (simp_all add: a_def is_active_def)
  let ?t1 = "t\<lparr>t_attempts := t_attempts t @ [a], t_status := RUNNING, t_updated_at := n\<rparr>"
  have new: "''claim:'' @ a_claim_id a \<notin> set (transition_ids ?t1)"
    using assms(8) by (simp add: a_def)
  have md: "clean_metadata TASK_CLAIMED [(''attempt_number'', VInt (a_number a)),
      (''claim_id'', VStr (a_claim_id a)), (''worker_id'', VStr (a_worker_id a))]"
    using tx by (auto intro!: clean_claimed simp: a_def attempt_count_def)
  have tr: "trimmed (''claim:'' @ a_claim_id a)"
    using trimmed_transition(2) [OF tx(2)] by (simp add: a_def del: append.simps append_Cons)
  obtain t' where ap: "append_event (''claim:'' @ a_claim_id a) TASK_CLAIMED
      [(''attempt_number'', VInt (a_number a)), (''claim_id'', VStr (a_claim_id a)),
       (''worker_id'', VStr (a_worker_id a))] n eid ?t1 = Inr t'"
    using append_event_fresh [OF tr md new] by blast
  from claim_core [OF r(1) assms(2) r(2) a ap] have t': "wf_task t'" "t_status t' = RUNNING"
    "t_attempts t' = t_attempts t @ [a]" by auto
  have "claim w c l (Aware ex) (Aware n) aid eid t = Inr (t', a)"
    unfolding claim_def Let_def
    using assms(2,3) r mk ap wf_task_checked [OF t'(1)] by (simp del: append.simps append_Cons)
  moreover have "holds_lease t' (length (t_attempts t)) aid l n"
    using t'(3) a(1) assms(4) by (simp add: holds_lease_def a_def is_active_def)
  ultimately show ?thesis using t'(2) a(4) by blast
qed

theorem due_task_is_claimable_witness:
  "\<exists>t' a. claim ''w2'' ''c2'' ''tok2'' (Aware 300) (Aware 100) 8 20 sample_recovered = Inr (t', a)
    \<and> t_status t' = RUNNING \<and> a_number a = attempt_count sample_recovered + 1
    \<and> holds_lease t' (length (t_attempts sample_recovered)) 8 ''tok2'' 100"
  by (rule due_task_is_claimable [OF sample_recovered_reachable])
    (simp_all add: sample_recovered_def sample_running_def sample_new_def sample_attempt_def
      transition_ids_def py_strip_def py_space_def)

text \<open>
  C11: an expired lease is recoverable. On a reachable task with an active attempt whose lease has run
  out, a recovery with a fresh command id always succeeds: a requested cancellation becomes final, a
  spent budget becomes a failure, and otherwise the task is queued again or waits for the retry time.
  The attempt becomes an expired one, so its worker is fenced off.
\<close>

theorem expired_lease_is_recoverable:
  assumes "task_reachable t" "i < length (t_attempts t)" "is_active (t_attempts t ! i)"
    "a_lease_expires_at (t_attempts t ! i) \<le> n" "py_strip cmd \<noteq> []"
    "''recovered:'' @ py_strip cmd \<notin> set (transition_ids t)"
    "ao \<in> {None, Some (a_id (t_attempts t ! i))}" "retry \<in> insert None (range (\<lambda>r. Some (Aware r)))"
  shows "\<exists>t'. recover_expired_attempt cmd retry (Aware n) ao eid t = Inr t'
    \<and> recovers_to t retry n (t_status t') (t_available_at t')
    \<and> a_status (t_attempts t' ! i) = ATT_EXPIRED \<and> active_count t' = 0"
proof -
  note wf = reachable_wf [OF assms(1)]
  have st: "t_status t \<in> {RUNNING, CANCEL_REQUESTED}" using active_status [OF wf assms(2,3)] .
  have act: "active_attempt t = Inr (Some i)" using active_attempt_Some [OF wf assms(2,3)] .
  have c: "trimmed (py_strip cmd)" using assms(5) by (rule trimmed_py_strip)
  have "recovery_outcome retry n t \<in> range Inr"
    using assms(8) by (auto simp: recovery_outcome_def)
  then obtain s co av where out: "recovery_outcome retry n t = Inr (s, co, av)"
    by (metis imageE prod_cases3)
  have to: "recovers_to t retry n s av" using out by (rule recovery_outcome_Inr)
  then have s: "s \<in> {CANCELLED, FAILED, RETRY_WAIT, QUEUED}"
    by (auto simp: recovers_to_def split: if_splits option.splits datetime.splits)
  let ?a = "t_attempts t ! i"
  let ?a' = "ended ATT_EXPIRED n (Some LEASE_EXPIRED) (Some ''LEASE_EXPIRED'') None ?a"
  have fin: "attempt_finish ATT_EXPIRED (Aware n) (Some LEASE_EXPIRED) (Some ''LEASE_EXPIRED'') None ?a
      = Inr ?a'"
    using assms(3) by (intro finish_plain) (simp_all, code_simp)
  let ?md = "[(''attempt_number'', VInt (a_number ?a)), (''outcome'', VStr (task_status_value s))]"
  let ?t1 = "t\<lparr>t_attempts := (t_attempts t)[i := ?a'], t_failure_code := co, t_available_at := av,
      t_status := s, t_updated_at := n\<rparr>"
  have new: "''recovered:'' @ py_strip cmd \<notin> set (transition_ids ?t1)" using assms(6) by simp
  obtain t' where ap: "append_event (''recovered:'' @ py_strip cmd) TASK_RECOVERED ?md n eid ?t1 = Inr t'"
    using append_event_fresh [OF trimmed_transition(9) [OF c]
        clean_recovered [OF number_positive [OF wf assms(2)]] new] by blast
  from recover_core [OF wf assms(2) c s fin ap] have t': "wf_task t'" "t_status t' = s"
    "t_available_at t' = av" "t_attempts t' = (t_attempts t)[i := ?a']" by auto
  have "recover_expired_attempt cmd retry (Aware n) ao eid t = Inr t'"
    unfolding recover_expired_attempt_def Let_def
    using st act assms(4,7) fin out c ap wf_task_checked [OF t'(1)]
    by (auto simp: require_text_def trimmed_nonempty simp del: append.simps append_Cons)
  moreover have "active_count t' = 0"
    using t'(1,2) s by (auto simp: wf_task_def wf_attempts_def)
  ultimately show ?thesis using to t' assms(2) by auto
qed

theorem expired_lease_is_recoverable_witness:
  "\<exists>t'. recover_expired_attempt ''r9'' (Some (Aware 150)) (Aware 100) None 12 sample_running = Inr t'
    \<and> recovers_to sample_running (Some (Aware 150)) 100 (t_status t') (t_available_at t')
    \<and> a_status (t_attempts t' ! 0) = ATT_EXPIRED \<and> active_count t' = 0"
  by (rule expired_lease_is_recoverable [OF sample_running_reachable])
    (simp_all add: sample_running_def sample_new_def sample_attempt_def is_active_def
      transition_ids_def py_strip_def py_space_def)

text \<open>
  C12: events carry no sensitive data. Every event of a reachable task has exactly the metadata fields
  its type allows, with every required one present, none of them has a sensitive name, attempt numbers
  are positive, and failure codes and fingerprints are safe references.
\<close>

theorem event_metadata_is_safe:
  assumes "task_reachable t" "ev \<in> set (t_events t)" "k \<in> dict_keys (e_metadata ev)"
  shows "\<not> is_sensitive_key k \<and> k \<in> set (event_metadata_fields (e_event_type ev))
    \<and> (\<exists>v. map_of (e_metadata ev) k = Some v \<and> clean_value k v)
    \<and> safe_metadata (e_event_type ev) (e_metadata ev) = Inr (e_metadata ev)"
proof -
  have c: "clean_metadata (e_event_type ev) (e_metadata ev)"
    using reachable_wf [OF assms(1)] assms(2) by (simp add: wf_task_def wf_events_def clean_event_def)
  from assms(3) obtain v where "map_of (e_metadata ev) k = Some v"
    by (metis dict_keys_def domD dom_map_of_conv_image_fst)
  moreover from this c have "clean_value k v"
    by (auto simp: clean_metadata_def dest!: map_of_SomeD)
  ultimately show ?thesis
    using clean_metadata_not_sensitive [OF c assms(3)] safe_metadata_clean [OF c] c assms(3)
    by (auto simp: clean_metadata_def)
qed

theorem event_metadata_is_safe_witness:
  "\<not> is_sensitive_key ''worker_id'' \<and> ''worker_id'' \<in> set (event_metadata_fields TASK_CLAIMED)
    \<and> safe_metadata TASK_CLAIMED (e_metadata (t_events sample_running ! 1))
      = Inr (e_metadata (t_events sample_running ! 1))"
  using event_metadata_is_safe [OF sample_running_reachable, of "t_events sample_running ! 1" "''worker_id''"]
  by (simp add: sample_running_def sample_new_def)

end
