(* ===== verification/Task_Records.thy ===== *)
theory Task_Records
  imports Task_Progress
begin

text \<open>
  The PostgreSQL rows of a task (\<open>app/infrastructure/persistence/models/task.py\<close>) and the mapper
  between rows and the aggregate (\<open>app/infrastructure/persistence/task_mapper.py\<close>). A row is a record
  with one field per column; status columns hold the text of the enumeration, time columns the instant,
  and a JSON object its key/value pairs.

  The lemmas show that the mapper is lossless: a well-formed attempt, event or task is rebuilt, with
  every check of its constructor, from the row it was written to.
\<close>

section \<open>Rows\<close>

record task_record =
  tr_id :: uuid
  tr_task_type :: string
  tr_owner_subject :: string
  tr_idempotency_key :: string
  tr_input_fingerprint :: string
  tr_max_attempts :: int
  tr_available_at :: int
  tr_status :: string
  tr_display_metadata :: "(string \<times> string) list"
  tr_allow_manual_retry :: bool
  tr_created_at :: int
  tr_updated_at :: int
  tr_cancel_requested_at :: "int option"
  tr_result_summary :: "string option"
  tr_result_fingerprint :: "string option"
  tr_failure_code :: "string option"

record attempt_record =
  ar_id :: uuid
  ar_task_id :: uuid
  ar_number :: int
  ar_worker_id :: string
  ar_claim_id :: string
  ar_lease_token :: string
  ar_lease_expires_at :: int
  ar_status :: string
  ar_renewal_sequence :: int
  ar_created_at :: int
  ar_finished_at :: "int option"
  ar_failure_category :: "string option"
  ar_failure_code :: "string option"
  ar_result_fingerprint :: "string option"

record event_record =
  er_id :: uuid
  er_task_id :: uuid
  er_sequence :: int
  er_transition_id :: string
  er_event_type :: string
  er_metadata :: py_dict
  er_created_at :: int

record receipt_record =
  rr_id :: uuid
  rr_task_id :: uuid
  rr_command_type :: string
  rr_command_id :: string
  rr_created_at :: int

section \<open>The mapper\<close>

definition task_to_record :: "task \<Rightarrow> task_record" where
  "task_to_record t =
     \<lparr>tr_id = t_id t, tr_task_type = t_task_type t, tr_owner_subject = t_owner_subject t,
      tr_idempotency_key = t_idempotency_key t, tr_input_fingerprint = t_input_fingerprint t,
      tr_max_attempts = t_max_attempts t, tr_available_at = t_available_at t,
      tr_status = task_status_value (t_status t), tr_display_metadata = t_display_metadata t,
      tr_allow_manual_retry = t_allow_manual_retry t, tr_created_at = t_created_at t,
      tr_updated_at = t_updated_at t, tr_cancel_requested_at = t_cancel_requested_at t,
      tr_result_summary = t_result_summary t, tr_result_fingerprint = t_result_fingerprint t,
      tr_failure_code = t_failure_code t\<rparr>"

definition update_task_record :: "task_record \<Rightarrow> task \<Rightarrow> task_record" where
  "update_task_record r t =
     r\<lparr>tr_status := task_status_value (t_status t), tr_available_at := t_available_at t,
       tr_display_metadata := t_display_metadata t,
       tr_allow_manual_retry := t_allow_manual_retry t, tr_updated_at := t_updated_at t,
       tr_cancel_requested_at := t_cancel_requested_at t, tr_result_summary := t_result_summary t,
       tr_result_fingerprint := t_result_fingerprint t, tr_failure_code := t_failure_code t\<rparr>"

definition attempt_to_record :: "task_attempt \<Rightarrow> attempt_record" where
  "attempt_to_record a =
     \<lparr>ar_id = a_id a, ar_task_id = a_task_id a, ar_number = a_number a,
      ar_worker_id = a_worker_id a, ar_claim_id = a_claim_id a, ar_lease_token = a_lease_token a,
      ar_lease_expires_at = a_lease_expires_at a, ar_status = attempt_status_value (a_status a),
      ar_renewal_sequence = a_renewal_sequence a, ar_created_at = a_created_at a,
      ar_finished_at = a_finished_at a,
      ar_failure_category = map_option failure_category_value (a_failure_category a),
      ar_failure_code = a_failure_code a, ar_result_fingerprint = a_result_fingerprint a\<rparr>"

definition update_attempt_record :: "attempt_record \<Rightarrow> task_attempt \<Rightarrow> attempt_record" where
  "update_attempt_record r a =
     r\<lparr>ar_lease_expires_at := a_lease_expires_at a, ar_status := attempt_status_value (a_status a),
       ar_renewal_sequence := a_renewal_sequence a, ar_finished_at := a_finished_at a,
       ar_failure_category := map_option failure_category_value (a_failure_category a),
       ar_failure_code := a_failure_code a, ar_result_fingerprint := a_result_fingerprint a\<rparr>"

definition event_to_record :: "task_event \<Rightarrow> event_record" where
  "event_to_record ev =
     \<lparr>er_id = e_id ev, er_task_id = e_task_id ev, er_sequence = e_sequence ev,
      er_transition_id = e_transition_id ev, er_event_type = task_event_type_value (e_event_type ev),
      er_metadata = e_metadata ev, er_created_at = e_created_at ev\<rparr>"

definition attempt_from_record :: "attempt_record \<Rightarrow> task_error + task_attempt" where
  "attempt_from_record r =
     bindE (attempt_status_of (ar_status r)) (\<lambda>st.
     bindE (optE failure_category_of (truthy_text (ar_failure_category r))) (\<lambda>category.
       mk_attempt (ar_task_id r) (ar_number r) (ar_worker_id r) (ar_claim_id r) (ar_lease_token r)
         (Aware (ar_lease_expires_at r)) (ar_id r) st (ar_renewal_sequence r)
         (Aware (ar_created_at r)) (map_option Aware (ar_finished_at r)) category
         (ar_failure_code r) (ar_result_fingerprint r)))"

definition event_from_record :: "event_record \<Rightarrow> task_error + task_event" where
  "event_from_record r =
     bindE (task_event_type_of (er_event_type r)) (\<lambda>ty.
       mk_event (er_task_id r) (er_sequence r) (er_transition_id r) ty (er_metadata r)
         (Aware (er_created_at r)) (er_id r))"

definition task_from_records ::
  "task_record \<Rightarrow> attempt_record list \<Rightarrow> event_record list \<Rightarrow> task_error + task" where
  "task_from_records r attempts events =
     bindE (task_status_of (tr_status r)) (\<lambda>st.
     bindE (mapE attempt_from_record attempts) (\<lambda>as.
     bindE (mapE event_from_record events) (\<lambda>es.
       mk_task (tr_task_type r) (tr_owner_subject r) (tr_idempotency_key r)
         (tr_input_fingerprint r) (tr_max_attempts r) (Aware (tr_available_at r)) (tr_id r) st
         (tr_display_metadata r) (tr_allow_manual_retry r) (Aware (tr_created_at r))
         (Aware (tr_updated_at r)) (tr_cancel_requested_at r) (tr_result_summary r)
         (tr_result_fingerprint r) (tr_failure_code r) as es)))"

section \<open>The mapper is lossless\<close>

lemma category_not_blank [simp]: "failure_category_value c \<noteq> []"
  using trimmed_category_value [of c] by (rule trimmed_nonempty)

lemma attempt_roundtrip: "wf_attempt a \<Longrightarrow> attempt_from_record (attempt_to_record a) = Inr a"
  using remake_attempt_wf [of a]
  by (cases "a_failure_category a") (simp_all add: attempt_from_record_def attempt_to_record_def
      remake_attempt_def)

lemma mk_event_self:
  "clean_event ev \<Longrightarrow> mk_event (e_task_id ev) (e_sequence ev) (e_transition_id ev) (e_event_type ev)
     (e_metadata ev) (Aware (e_created_at ev)) (e_id ev) = Inr ev"
  by (simp add: mk_event_Inr_iff clean_event_def py_strip_trimmed safe_metadata_clean)

lemma event_roundtrip: "clean_event ev \<Longrightarrow> event_from_record (event_to_record ev) = Inr ev"
  by (simp add: event_from_record_def event_to_record_def mk_event_self)

lemma mk_task_self:
  assumes "wf_task t"
  shows "mk_task (t_task_type t) (t_owner_subject t) (t_idempotency_key t) (t_input_fingerprint t)
    (t_max_attempts t) (Aware (t_available_at t)) (t_id t) (t_status t) (t_display_metadata t)
    (t_allow_manual_retry t) (Aware (t_created_at t)) (Aware (t_updated_at t))
    (t_cancel_requested_at t) (t_result_summary t) (t_result_fingerprint t) (t_failure_code t)
    (t_attempts t) (t_events t) = Inr t"
  using assms wf_task_valid [OF assms]
  by (cases t) (simp add: mk_task_def wf_task_def wf_fields_def)

lemma task_roundtrip:
  assumes "wf_task t"
  shows "task_from_records (task_to_record t) (map attempt_to_record (t_attempts t))
     (map event_to_record (t_events t)) = Inr t"
proof -
  have "mapE attempt_from_record (map attempt_to_record (t_attempts t)) = Inr (t_attempts t)"
    using assms by (auto intro: mapE_map_id simp: wf_task_def wf_attempts_def attempt_roundtrip)
  moreover have "mapE event_from_record (map event_to_record (t_events t)) = Inr (t_events t)"
    using assms by (auto intro: mapE_map_id simp: wf_task_def wf_events_def event_roundtrip)
  ultimately show ?thesis
    using mk_task_self [OF assms] by (simp add: task_from_records_def) (simp add: task_to_record_def)
qed

lemma update_task_record_same:
  "same_task t u \<Longrightarrow> update_task_record (task_to_record t) u = task_to_record u"
  by (simp add: update_task_record_def task_to_record_def same_task_def)

lemma update_attempt_record_same:
  "same_attempt a b \<Longrightarrow> update_attempt_record (attempt_to_record a) b = attempt_to_record b"
  by (simp add: update_attempt_record_def attempt_to_record_def same_attempt_def)

lemma record_keys [simp]:
  "tr_id (task_to_record t) = t_id t" "ar_id (attempt_to_record a) = a_id a"
  "ar_task_id (attempt_to_record a) = a_task_id a" "ar_number (attempt_to_record a) = a_number a"
  "er_id (event_to_record ev) = e_id ev" "er_task_id (event_to_record ev) = e_task_id ev"
  "er_sequence (event_to_record ev) = e_sequence ev"
  by (simp_all add: task_to_record_def attempt_to_record_def event_to_record_def)

end
