(* ===== verification/Task_Port.thy ===== *)
theory Task_Port
  imports Task_Records "HOL-Library.Product_Lexorder" "HOL-Library.Multiset"
begin

text \<open>
  The persistence port of the Task application (\<open>app/platform/task/ports/repository.py\<close>): its value
  types, the port as a record of operations over an abstract store \<open>'s\<close>, and the contract the
  application relies on as a locale. A reading operation leaves the store as it is; a writing one
  returns the new store, or the exception and then nothing is written (its transaction is rolled back).
\<close>

section \<open>Values\<close>

record command_receipt =
  cr_task_id :: uuid
  cr_command_type :: string
  cr_command_id :: string

record expired_candidate =
  xc_task_id :: uuid
  xc_attempt_id :: uuid
  xc_lease_expires_at :: int

record due_retry_candidate =
  dc_task_id :: uuid
  dc_available_at :: int

record task_list_cursor =
  lc_updated_at :: int
  lc_id :: uuid

record task_list_page =
  lp_tasks :: "task list"
  lp_has_more :: bool
  lp_next_cursor :: "task_list_cursor option"

record task_event_page =
  ep_events :: "task_event list"
  ep_has_more :: bool
  ep_next_after_sequence :: "int option"

section \<open>The port\<close>

record 's task_repository_port =
  rp_get :: "uuid \<Rightarrow> 's \<Rightarrow> task_error + task option"
  rp_get_for_update :: "uuid \<Rightarrow> 's \<Rightarrow> task_error + task option"
  rp_get_next_queued_for_update :: "int \<Rightarrow> 's \<Rightarrow> task_error + task option"
  rp_get_expired_attempts_for_update :: "int \<Rightarrow> int \<Rightarrow> 's \<Rightarrow> task_error + expired_candidate list"
  rp_get_due_retries_for_update :: "int \<Rightarrow> int \<Rightarrow> 's \<Rightarrow> task_error + due_retry_candidate list"
  rp_list_owned :: "string \<Rightarrow> int \<Rightarrow> task_list_cursor option \<Rightarrow> 's \<Rightarrow> task_error + task_list_page"
  rp_get_owned :: "uuid \<Rightarrow> string \<Rightarrow> 's \<Rightarrow> task_error + task option"
  rp_read_owned_events ::
    "uuid \<Rightarrow> string \<Rightarrow> int \<Rightarrow> int option \<Rightarrow> 's \<Rightarrow> task_error + task_event_page option"
  rp_create_or_get_submission :: "task \<Rightarrow> 's \<Rightarrow> task_error + 's \<times> task"
  rp_save :: "task \<Rightarrow> command_receipt option \<Rightarrow> 's \<Rightarrow> task_error + 's"
  rp_has_processed_command :: "uuid \<Rightarrow> string \<Rightarrow> string \<Rightarrow> 's \<Rightarrow> task_error + bool"
  rp_mark_command_processed :: "uuid \<Rightarrow> string \<Rightarrow> string \<Rightarrow> 's \<Rightarrow> task_error + 's"

section \<open>The contract\<close>

definition storable :: "task \<Rightarrow> bool" where
  \<comment> \<open>well formed, and no two attempts share worker and claim\<close>
  "storable t \<longleftrightarrow> wf_task t \<and> distinct (map (\<lambda>a. (a_worker_id a, a_claim_id a)) (t_attempts t))"

definition task_ids :: "task \<Rightarrow> uuid set" where
  \<comment> \<open>the UUIDs a task's rows are keyed by\<close>
  "task_ids t = a_id ` set (t_attempts t) \<union> e_id ` set (t_events t)"

definition extends_task :: "task \<Rightarrow> task \<Rightarrow> bool" where
  \<comment> \<open>what a sequence of operations can make of a stored task\<close>
  "extends_task t u \<longleftrightarrow>
     same_task t u \<and> attempts_evolve (t_attempts t) (t_attempts u)
     \<and> (\<exists>es. t_events u = t_events t @ es)"

definition new_ids :: "task \<Rightarrow> task \<Rightarrow> uuid set" where
  \<comment> \<open>the UUIDs of the attempts and events \<open>u\<close> has and \<open>t\<close> has not\<close>
  "new_ids t u = (a_id ` set (t_attempts u) - a_id ` set (t_attempts t))
     \<union> (e_id ` set (t_events u) - e_id ` set (t_events t))"

definition submission_key :: "task \<Rightarrow> string \<times> string \<times> string" where
  "submission_key t = (t_owner_subject t, t_task_type t, t_idempotency_key t)"

locale task_repository =
  fixes port :: "'s task_repository_port"
    and ok :: "'s \<Rightarrow> bool"
    and view :: "'s \<Rightarrow> uuid \<Rightarrow> task option"
    and handled :: "'s \<Rightarrow> (uuid \<times> string \<times> string) set"
    and used :: "'s \<Rightarrow> uuid set"
    and supplied :: "'s \<Rightarrow> bool"
  assumes get: "ok s \<Longrightarrow> rp_get port tid s = Inr (view s tid)"
    and get_for_update: "ok s \<Longrightarrow> rp_get_for_update port tid s = Inr (view s tid)"
    and get_owned: "ok s \<Longrightarrow> rp_get_owned port tid owner s = Inr (case view s tid of
        Some t \<Rightarrow> if t_owner_subject t = owner then Some t else None | None \<Rightarrow> None)"
    and view_ok: "ok s \<Longrightarrow> view s tid = Some t \<Longrightarrow> t_id t = tid \<and> storable t \<and> task_ids t \<subseteq> used s"
    and view_key: "ok s \<Longrightarrow> view s i = Some t \<Longrightarrow> view s j = Some u \<Longrightarrow>
      submission_key t = submission_key u \<Longrightarrow> i = j"
    and next_queued: "ok s \<Longrightarrow> rp_get_next_queued_for_update port now s = Inr c \<Longrightarrow>
      (\<forall>t. c = Some t \<longrightarrow> view s (t_id t) = Some t \<and> t_status t = QUEUED \<and> t_available_at t \<le> now)"
    and expired: "ok s \<Longrightarrow> 0 < n \<Longrightarrow>
      \<exists>cs. rp_get_expired_attempts_for_update port now n s = Inr cs \<and> int (length cs) \<le> n
        \<and> (\<forall>c \<in> set cs. \<exists>t i. view s (xc_task_id c) = Some t \<and> i < length (t_attempts t)
             \<and> a_id (t_attempts t ! i) = xc_attempt_id c \<and> is_active (t_attempts t ! i)
             \<and> a_lease_expires_at (t_attempts t ! i) = xc_lease_expires_at c \<and> xc_lease_expires_at c \<le> now)
        \<and> distinct (map xc_task_id cs)"
    and due_retries: "ok s \<Longrightarrow> 0 < n \<Longrightarrow>
      \<exists>cs. rp_get_due_retries_for_update port now n s = Inr cs \<and> int (length cs) \<le> n
        \<and> (\<forall>c \<in> set cs. \<exists>t. view s (dc_task_id c) = Some t \<and> t_status t = RETRY_WAIT
             \<and> t_available_at t = dc_available_at c \<and> dc_available_at c \<le> now)
        \<and> distinct (map dc_task_id cs)"
    and has_processed: "ok s \<Longrightarrow>
      rp_has_processed_command port tid ct cid s = Inr ((tid, ct, cid) \<in> handled s)"
    and save: "ok s \<Longrightarrow> view s (t_id u) = Some t \<Longrightarrow> extends_task t u \<Longrightarrow> storable u \<Longrightarrow>
      distinct (map e_id (t_events u)) \<Longrightarrow> new_ids t u \<inter> used s = {} \<Longrightarrow>
      (rc \<noteq> None \<Longrightarrow> supplied s) \<Longrightarrow>
      (\<And>r. rc = Some r \<Longrightarrow> cr_task_id r = t_id u \<and> trimmed (cr_command_type r) \<and> trimmed (cr_command_id r)) \<Longrightarrow>
      \<exists>s'. rp_save port u rc s = Inr s' \<and> ok s' \<and> view s' = (view s)(t_id u \<mapsto> u)
        \<and> handled s' = handled s \<union> (case rc of None \<Rightarrow> {} | Some r \<Rightarrow>
            {(cr_task_id r, cr_command_type r, cr_command_id r)})
        \<and> used s' = used s \<union> task_ids u"
    and submit_new: "ok s \<Longrightarrow> storable t \<Longrightarrow> view s (t_id t) = None \<Longrightarrow> t_attempts t = [] \<Longrightarrow>
      t_events t = [ev] \<Longrightarrow> e_id ev \<notin> used s \<Longrightarrow>
      (\<And>i u. view s i = Some u \<Longrightarrow> submission_key u \<noteq> submission_key t) \<Longrightarrow>
      \<exists>s'. rp_create_or_get_submission port t s = Inr (s', t) \<and> ok s'
        \<and> view s' = (view s)(t_id t \<mapsto> t) \<and> handled s' = handled s
        \<and> used s' = used s \<union> task_ids t"
    and submit_existing: "ok s \<Longrightarrow> t_events t \<noteq> [] \<Longrightarrow> view s i = Some u \<Longrightarrow>
      submission_key u = submission_key t \<Longrightarrow>
      rp_create_or_get_submission port t s = Inr (s, u)"

end
