(* ===== verification/Tables.thy ===== *)
theory Tables
  imports Prelude "HOL-Library.Multiset"
begin

text \<open>
  What the two PostgreSQL adapters share: \<open>btrim\<close>, the selection of a row by a unique key, unique
  constraints checked group by group, and the order in which the rows of an aggregate are read back.
\<close>

definition pg_btrim :: "string \<Rightarrow> string" where
  "pg_btrim s = rev (dropWhile ((=) (CHR '' '')) (rev (dropWhile ((=) (CHR '' '')) s)))"

lemma trimmed_btrim:
  assumes "trimmed s"
  shows "pg_btrim s \<noteq> []"
proof -
  have "py_space (CHR '' '')" by (simp add: py_space_def)
  with assms have "CHR '' '' \<noteq> hd s" "CHR '' '' \<noteq> last s" by (auto simp: trimmed_def)
  then have "dropWhile ((=) (CHR '' '')) s = s" "dropWhile ((=) (CHR '' '')) (rev s) = rev s"
    by (auto intro!: dropWhile_id simp: hd_rev)
  with assms show ?thesis by (simp add: pg_btrim_def trimmed_def)
qed

lemma stripped_blank: "rev (dropWhile P (rev (dropWhile P s))) = [] \<Longrightarrow> \<forall>c \<in> set s. P c"
proof -
  assume "rev (dropWhile P (rev (dropWhile P s))) = []"
  then have all: "\<forall>c \<in> set (dropWhile P s). P c" by (simp add: dropWhile_eq_Nil_conv)
  have "dropWhile P s = []"
  proof (rule ccontr)
    assume d: "dropWhile P s \<noteq> []"
    from hd_dropWhile [OF d] all hd_in_set [OF d] show False by blast
  qed
  then show "\<forall>c \<in> set s. P c" unfolding dropWhile_eq_Nil_conv .
qed

lemma stripped_other:
  assumes "rev (dropWhile Q (rev (dropWhile Q s))) \<noteq> []" "Q a"
  shows "rev (dropWhile ((=) a) (rev (dropWhile ((=) a) s))) \<noteq> []"
proof
  assume "rev (dropWhile ((=) a) (rev (dropWhile ((=) a) s))) = []"
  then have eq: "\<forall>c \<in> set s. a = c" by (rule stripped_blank)
  have "\<forall>c \<in> set s. Q c"
  proof
    fix c assume "c \<in> set s"
    with eq have "a = c" by simp
    with assms(2) show "Q c" by simp
  qed
  then have "dropWhile Q s = []" unfolding dropWhile_eq_Nil_conv .
  with assms(1) show False by simp
qed

lemma btrim_nonempty: "py_strip s \<noteq> [] \<Longrightarrow> pg_btrim s \<noteq> []"
  unfolding py_strip_def pg_btrim_def by (erule stripped_other) (simp add: py_space_def)

lemma distinct_by_group:
  "distinct (map (\<lambda>r. (g r, f r)) xs) \<longleftrightarrow> (\<forall>t. distinct (map f (filter (\<lambda>r. g r = t) xs)))"
proof (induction xs)
  case (Cons x xs)
  have "distinct (map f (filter (\<lambda>r. g r = t) (x # xs))) \<longleftrightarrow>
      distinct (map f (filter (\<lambda>r. g r = t) xs)) \<and> (g x = t \<longrightarrow> (g x, f x) \<notin> (\<lambda>r. (g r, f r)) ` set xs)" for t
    by (auto simp: image_iff)
  with Cons show ?case by auto
qed simp

lemma distinct_group_filter:
  "distinct (map g (filter P xs)) \<longleftrightarrow> (\<forall>t. length (filter P (filter (\<lambda>r. g r = t) xs)) \<le> 1)"
proof (induction xs)
  case (Cons x xs)
  have none: "g x \<notin> g ` set (filter P xs) \<longleftrightarrow> filter P (filter (\<lambda>r. g r = g x) xs) = []"
    by (auto simp: filter_empty_conv image_iff)
  show ?case
  proof (cases "P x")
    case True
    have "length (filter P (filter (\<lambda>r. g r = t) (x # xs))) \<le> 1 \<longleftrightarrow>
        length (filter P (filter (\<lambda>r. g r = t) xs)) \<le> 1
        \<and> (g x = t \<longrightarrow> filter P (filter (\<lambda>r. g r = g x) xs) = [])" for t
      using True by auto
    with True Cons none show ?thesis by auto
  next
    case False
    have "filter P (filter (\<lambda>r. g r = t) (x # xs)) = filter P (filter (\<lambda>r. g r = t) xs)" for t
      using False by auto
    with False Cons show ?thesis by simp
  qed
qed simp

lemma distinct_map_mset: "mset xs = mset ys \<Longrightarrow> distinct (map f xs) \<longleftrightarrow> distinct (map f ys)"
  by (metis mset_eq_imp_distinct_iff mset_map)

lemma length_filter_mset: "mset xs = mset ys \<Longrightarrow> length (filter P xs) = length (filter P ys)"
  by (metis mset_filter size_mset)

lemma unique_row:
  assumes "distinct (map f rs)" "r \<in> set rs"
  shows "filter (\<lambda>x. f x = f r) rs = [r]"
  using assms by (induction rs) (auto simp: filter_empty_conv image_iff)

lemma sort_numbered:
  assumes "mset xs = mset (map g ys)" "numbered_from_1 (map (k \<circ> g) ys)"
  shows "sort_key k xs = map g ys"
proof (rule sort_key_inj_key_eq [OF assms(1)])
  have ns: "map k (map g ys) = map int [1..<Suc (length ys)]"
    using assms(2) by (simp add: numbered_from_1_def)
  have "distinct (map k (map g ys))" unfolding ns by (simp add: distinct_map)
  then show "inj_on k (set xs)"
    using mset_eq_setD [OF assms(1)] by (simp only: distinct_map)
  show "sorted (map k (map g ys))" unfolding ns
    by (rule sorted_map_mono [OF sorted_upt]) (auto simp: mono_on_def)
qed

lemma map_if_other:
  "(\<And>r. k (f r) = k r) \<Longrightarrow> k x \<noteq> c \<Longrightarrow>
   x \<in> set (map (\<lambda>r. if k r = c then f r else r) rs) \<longleftrightarrow> x \<in> set rs"
  by (induction rs) auto

lemma distinct_scan:
  assumes "distinct (map f xs)"
  shows "distinct (map f (take n (sort_key k xs)))"
proof -
  have "distinct (map f (sort_key k xs))"
    using assms distinct_map_mset [of "sort_key k xs" xs f] by simp
  then show ?thesis by (simp add: take_map [symmetric])
qed

lemma insort_key_map: "insort_key f (g x) (map g xs) = map g (insort_key (\<lambda>x. f (g x)) x xs)"
  by (induction xs) simp_all

lemma sort_key_map: "sort_key f (map g xs) = map g (sort_key (f \<circ> g) xs)"
  by (induction xs) (simp_all add: insort_key_map comp_def)

lemma filter_map_same: "(\<And>r. k (g r) = k r) \<Longrightarrow> filter (\<lambda>r. P (k r)) (map g rs) = map g (filter (\<lambda>r. P (k r)) rs)"
  by (induction rs) simp_all

lemma foldl_keeps: "(\<And>r e. k (f r e) = k r) \<Longrightarrow> k (foldl f r es) = k r"
  by (induction es arbitrary: r) simp_all

lemma foldl_absorbs: "(\<And>e. e \<in> set es \<Longrightarrow> f r e = r) \<Longrightarrow> foldl f r es = r"
  by (induction es) simp_all

lemma foldl_once:
  \<comment> \<open>one element of a list without duplicate keys acts on the row, once\<close>
  assumes "distinct (map key es)" "e \<in> set es" "f r e = r'"
    "\<And>x. x \<in> set es \<Longrightarrow> key x \<noteq> key e \<Longrightarrow> f r x = r \<and> f r' x = r'"
  shows "foldl f r es = r'"
  using assms
proof (induction es)
  case (Cons a es)
  show ?case
  proof (cases "key a = key e")
    case True
    then have a: "a = e" "key e \<notin> key ` set es" using Cons.prems(1,2) by (auto simp: rev_image_eqI)
    have "foldl f r' es = r'" using Cons.prems(4) a by (intro foldl_absorbs) (metis image_eqI list.set_intros(2))
    with a Cons.prems(3) show ?thesis by simp
  next
    case False
    with Cons show ?thesis by auto
  qed
qed simp

end
