(* ===== verification/Task_Store.thy ===== *)
theory Task_Store
  imports Task_Port Tables
begin

text \<open>
  The PostgreSQL adapter of the task repository
  (\<open>app/infrastructure/persistence/repositories/task_repository.py\<close>) over the tables and constraints of
  \<open>app/infrastructure/persistence/models/task.py\<close>. A table is the list of its rows, a statement the
  selection it denotes, and a commit checks every declared constraint and is refused, with nothing
  written, when one is violated.

  Two things the session decides are arguments: \<open>flt\<close>, the message of the \<open>SQLAlchemyError\<close> this
  call's statements raise, if any (connection loss, missing tables), and \<open>locked\<close>, the tasks whose rows
  another transaction holds, which the \<open>SKIP LOCKED\<close> scans pass over. A row lock is held until the next
  commit or rollback of the same session, so a call sequence between two commits is one step here.
\<close>

section \<open>Tables and constraints\<close>

record task_db =
  db_tasks :: "task_record list"
  db_attempts :: "attempt_record list"
  db_events :: "event_record list"
  db_receipts :: "receipt_record list"
  db_uuid4 :: "nat \<Rightarrow> uuid" \<comment> \<open>what successive calls of \<open>uuid4\<close> return\<close>
  db_drawn :: nat
  db_now :: int \<comment> \<open>\<open>datetime.now(timezone.utc)\<close>\<close>

definition task_row_ok :: "task_record \<Rightarrow> bool" where
  "task_row_ok r \<longleftrightarrow>
     pg_btrim (tr_task_type r) \<noteq> [] \<and> pg_btrim (tr_owner_subject r) \<noteq> []
     \<and> pg_btrim (tr_idempotency_key r) \<noteq> [] \<and> pg_btrim (tr_input_fingerprint r) \<noteq> []
     \<and> 0 < tr_max_attempts r
     \<and> tr_status r \<in> {''queued'', ''running'', ''retry_wait'', ''cancel_requested'', ''succeeded'',
         ''failed'', ''cancelled''}"

definition attempt_row_ok :: "attempt_record \<Rightarrow> bool" where
  "attempt_row_ok r \<longleftrightarrow>
     0 < ar_number r \<and> pg_btrim (ar_worker_id r) \<noteq> [] \<and> pg_btrim (ar_claim_id r) \<noteq> []
     \<and> pg_btrim (ar_lease_token r) \<noteq> [] \<and> ar_created_at r < ar_lease_expires_at r
     \<and> ar_status r \<in> {''active'', ''succeeded'', ''failed'', ''cancelled'', ''expired''}
     \<and> 0 \<le> ar_renewal_sequence r
     \<and> ar_failure_category r \<in> {None, Some ''transient'', Some ''permanent'', Some ''lease_expired''}"

definition event_row_ok :: "event_record \<Rightarrow> bool" where
  "event_row_ok r \<longleftrightarrow>
     0 < er_sequence r \<and> pg_btrim (er_transition_id r) \<noteq> []
     \<and> er_event_type r \<in> {''TASK_CREATED'', ''TASK_CLAIMED'', ''TASK_CANCEL_REQUESTED'',
         ''TASK_CANCELLED'', ''TASK_SUCCEEDED'', ''TASK_FAILED'', ''TASK_RETRY_SCHEDULED'',
         ''TASK_REQUEUED'', ''TASK_RETRY_REQUESTED'', ''TASK_RECOVERED''}"

definition receipt_row_ok :: "receipt_record \<Rightarrow> bool" where
  "receipt_row_ok r \<longleftrightarrow> pg_btrim (rr_command_type r) \<noteq> [] \<and> pg_btrim (rr_command_id r) \<noteq> []"

definition task_table_ok :: "task_record list \<Rightarrow> bool" where
  "task_table_ok rs \<longleftrightarrow>
     list_all task_row_ok rs \<and> distinct (map tr_id rs)
     \<and> distinct (map (\<lambda>r. (tr_owner_subject r, tr_task_type r, tr_idempotency_key r)) rs)"

definition attempt_table_ok :: "uuid list \<Rightarrow> attempt_record list \<Rightarrow> bool" where
  "attempt_table_ok tids rs \<longleftrightarrow>
     list_all attempt_row_ok rs \<and> distinct (map ar_id rs)
     \<and> distinct (map (\<lambda>r. (ar_task_id r, ar_number r)) rs)
     \<and> distinct (map (\<lambda>r. (ar_task_id r, ar_worker_id r, ar_claim_id r)) rs)
     \<and> distinct (map ar_task_id (filter (\<lambda>r. ar_status r = ''active'') rs))
     \<and> list_all (\<lambda>r. ar_task_id r \<in> set tids) rs"

definition event_table_ok :: "uuid list \<Rightarrow> event_record list \<Rightarrow> bool" where
  "event_table_ok tids rs \<longleftrightarrow>
     list_all event_row_ok rs \<and> distinct (map er_id rs)
     \<and> distinct (map (\<lambda>r. (er_task_id r, er_sequence r)) rs)
     \<and> distinct (map (\<lambda>r. (er_task_id r, er_transition_id r)) rs)
     \<and> list_all (\<lambda>r. er_task_id r \<in> set tids) rs"

definition receipt_table_ok :: "uuid list \<Rightarrow> receipt_record list \<Rightarrow> bool" where
  "receipt_table_ok tids rs \<longleftrightarrow>
     list_all receipt_row_ok rs \<and> distinct (map rr_id rs)
     \<and> distinct (map (\<lambda>r. (rr_task_id r, rr_command_type r, rr_command_id r)) rs)
     \<and> list_all (\<lambda>r. rr_task_id r \<in> set tids) rs"

definition constraints_ok :: "task_db \<Rightarrow> bool" where
  "constraints_ok db \<longleftrightarrow>
     (let tids = map tr_id (db_tasks db)
      in task_table_ok (db_tasks db) \<and> attempt_table_ok tids (db_attempts db)
         \<and> event_table_ok tids (db_events db) \<and> receipt_table_ok tids (db_receipts db))"

definition commit :: "task_db \<Rightarrow> task_error + task_db" where
  "commit db = (if constraints_ok db then Inr db else Inl IntegrityError)"

section \<open>Error translation\<close>

definition is_missing_task_schema :: "string \<Rightarrow> bool" where
  "is_missing_task_schema message0 =
     (let message = py_lower message0
      in (py_contains ''undefinedtable'' message \<or> py_contains ''does not exist'' message)
         \<and> py_contains ''task'' message)"

definition translated :: "string \<Rightarrow> task_error" where
  \<comment> \<open>\<open>_translate_schema_error(exc); raise\<close>\<close>
  "translated message =
     (if is_missing_task_schema message then TaskSchemaUnavailableError else SQLAlchemyError)"

fun in_session :: "string option \<Rightarrow> task_error + 'a \<Rightarrow> task_error + 'a" where
  "in_session None result = result"
| "in_session (Some message) result = Inl (translated message)"

section \<open>Reading\<close>

definition attempts_of :: "task_db \<Rightarrow> uuid \<Rightarrow> attempt_record list" where
  "attempts_of db tid = sort_key ar_number (filter (\<lambda>r. ar_task_id r = tid) (db_attempts db))"

definition events_of :: "task_db \<Rightarrow> uuid \<Rightarrow> event_record list" where
  "events_of db tid = sort_key er_sequence (filter (\<lambda>r. er_task_id r = tid) (db_events db))"

definition from_task_record :: "task_db \<Rightarrow> task_record \<Rightarrow> task_error + task" where
  "from_task_record db r = task_from_records r (attempts_of db (tr_id r)) (events_of db (tr_id r))"

definition load_first :: "task_db \<Rightarrow> task_record list \<Rightarrow> task_error + task option" where
  \<comment> \<open>\<open>session.scalar(statement)\<close> and the aggregate of the row it returns\<close>
  "load_first db rs =
     (case rs of [] \<Rightarrow> Inr None | r # _ \<Rightarrow> bindE (from_task_record db r) (\<lambda>t. Inr (Some t)))"

definition pg_load :: "uuid \<Rightarrow> task_db \<Rightarrow> task_error + task option" where
  "pg_load tid db = load_first db (filter (\<lambda>r. tr_id r = tid) (db_tasks db))"

definition pg_get :: "string option \<Rightarrow> uuid \<Rightarrow> task_db \<Rightarrow> task_error + task option" where
  "pg_get flt tid db = in_session flt (pg_load tid db)"

definition pg_get_for_update :: "string option \<Rightarrow> uuid \<Rightarrow> task_db \<Rightarrow> task_error + task option" where
  "pg_get_for_update flt tid db = in_session flt (pg_load tid db)"

definition pg_get_next_queued_for_update ::
  "string option \<Rightarrow> (uuid \<Rightarrow> bool) \<Rightarrow> int \<Rightarrow> task_db \<Rightarrow> task_error + task option" where
  "pg_get_next_queued_for_update flt locked now db =
     in_session flt (load_first db
       (sort_key (\<lambda>r. (tr_available_at r, tr_created_at r, tr_id r))
         (filter (\<lambda>r. tr_status r = ''queued'' \<and> tr_available_at r \<le> now \<and> \<not> locked (tr_id r))
           (db_tasks db))))"

definition pg_get_expired_attempts_for_update ::
  "string option \<Rightarrow> (uuid \<Rightarrow> bool) \<Rightarrow> int \<Rightarrow> int \<Rightarrow> task_db \<Rightarrow> task_error + expired_candidate list" where
  "pg_get_expired_attempts_for_update flt locked now limit db =
     (if limit \<le> 0 then Inl (ValueError Bad_limit)
      else in_session flt (Inr (map (\<lambda>(r, a).
          \<lparr>xc_task_id = tr_id r, xc_attempt_id = ar_id a, xc_lease_expires_at = ar_lease_expires_at a\<rparr>)
        (take (nat limit)
          (sort_key (\<lambda>(r, a). (ar_lease_expires_at a, tr_id r))
            (filter (\<lambda>(r, a). ar_task_id a = tr_id r \<and> tr_status r \<in> {''running'', ''cancel_requested''}
                \<and> ar_status a = ''active'' \<and> ar_lease_expires_at a \<le> now \<and> \<not> locked (tr_id r))
              (List.product (db_tasks db) (db_attempts db))))))))"

definition pg_get_due_retries_for_update ::
  "string option \<Rightarrow> (uuid \<Rightarrow> bool) \<Rightarrow> int \<Rightarrow> int \<Rightarrow> task_db \<Rightarrow> task_error + due_retry_candidate list" where
  "pg_get_due_retries_for_update flt locked now limit db =
     (if limit \<le> 0 then Inl (ValueError Bad_limit)
      else in_session flt (Inr (map (\<lambda>r. \<lparr>dc_task_id = tr_id r, dc_available_at = tr_available_at r\<rparr>)
        (take (nat limit)
          (sort_key (\<lambda>r. (tr_available_at r, tr_id r))
            (filter (\<lambda>r. tr_status r = ''retry_wait'' \<and> tr_available_at r \<le> now \<and> \<not> locked (tr_id r))
              (db_tasks db)))))))"

definition sort_desc :: "('a \<Rightarrow> 'k::linorder) \<Rightarrow> 'a list \<Rightarrow> 'a list" where
  "sort_desc k xs = rev (sort_key k xs)"

definition before_cursor :: "task_list_cursor option \<Rightarrow> task_record \<Rightarrow> bool" where
  "before_cursor cursor r =
     (case cursor of
        None \<Rightarrow> True
      | Some c \<Rightarrow> tr_updated_at r < lc_updated_at c
          \<or> tr_updated_at r = lc_updated_at c \<and> tr_id r < lc_id c)"

definition pg_list_owned ::
  "string option \<Rightarrow> string \<Rightarrow> int \<Rightarrow> task_list_cursor option \<Rightarrow> task_db \<Rightarrow> task_error + task_list_page" where
  "pg_list_owned flt owner limit cursor db =
     (if limit \<le> 0 then Inl (ValueError Bad_limit)
      else in_session flt
        (let records = take (nat limit + 1)
               (sort_desc (\<lambda>r. (tr_updated_at r, tr_id r))
                 (filter (\<lambda>r. tr_owner_subject r = owner \<and> before_cursor cursor r) (db_tasks db)));
             has_more = (int (length records) > limit)
         in bindE (mapE (from_task_record db) (take (nat limit) records)) (\<lambda>tasks.
              Inr \<lparr>lp_tasks = tasks, lp_has_more = has_more,
                   lp_next_cursor = (if has_more
                     then Some \<lparr>lc_updated_at = t_updated_at (last tasks), lc_id = t_id (last tasks)\<rparr>
                     else None)\<rparr>)))"

definition pg_get_owned :: "string option \<Rightarrow> uuid \<Rightarrow> string \<Rightarrow> task_db \<Rightarrow> task_error + task option" where
  "pg_get_owned flt tid owner db =
     in_session flt
       (load_first db (filter (\<lambda>r. tr_id r = tid \<and> tr_owner_subject r = owner) (db_tasks db)))"

definition pg_read_owned_events ::
  "string option \<Rightarrow> uuid \<Rightarrow> string \<Rightarrow> int \<Rightarrow> int option \<Rightarrow> task_db \<Rightarrow>
   task_error + task_event_page option" where
  "pg_read_owned_events flt tid owner limit after_sequence db =
     (if limit \<le> 0 then Inl (ValueError Bad_limit)
      else if (case after_sequence of None \<Rightarrow> False | Some k \<Rightarrow> k \<le> 0) then Inl (ValueError Bad_limit)
      else in_session flt
        (if \<not> list_ex (\<lambda>r. tr_id r = tid \<and> tr_owner_subject r = owner) (db_tasks db) then Inr None
         else
           let records = take (nat limit + 1)
                 (sort_key er_sequence (filter (\<lambda>r. er_task_id r = tid
                     \<and> (case after_sequence of None \<Rightarrow> True | Some k \<Rightarrow> k < er_sequence r)) (db_events db)));
               has_more = (int (length records) > limit)
           in bindE (mapE event_from_record (take (nat limit) records)) (\<lambda>events.
                Inr (Some \<lparr>ep_events = events, ep_has_more = has_more,
                  ep_next_after_sequence = (if has_more then Some (e_sequence (last events)) else None)\<rparr>))))"

definition pg_has_processed_command ::
  "string option \<Rightarrow> uuid \<Rightarrow> string \<Rightarrow> string \<Rightarrow> task_db \<Rightarrow> task_error + bool" where
  "pg_has_processed_command flt tid ct cid db =
     in_session flt (Inr (list_ex (\<lambda>r. rr_task_id r = tid \<and> rr_command_type r = ct
       \<and> rr_command_id r = cid) (db_receipts db)))"

section \<open>Writing\<close>

definition find_submission :: "string \<Rightarrow> string \<Rightarrow> string \<Rightarrow> task_db \<Rightarrow> task_error + task option" where
  "find_submission owner task_type key db =
     load_first db (filter (\<lambda>r. tr_owner_subject r = owner \<and> tr_task_type r = task_type
       \<and> tr_idempotency_key r = key) (db_tasks db))"

definition insert_submission :: "task \<Rightarrow> task_db \<Rightarrow> task_error + task_db" where
  \<comment> \<open>add the task row, flush, add the row of \<open>task.events[0]\<close>, commit\<close>
  "insert_submission t db =
     bindE (commit (db\<lparr>db_tasks := db_tasks db @ [task_to_record t]\<rparr>)) (\<lambda>db1.
       case t_events t of
         [] \<Rightarrow> Inl IndexError
       | ev # _ \<Rightarrow> commit (db1\<lparr>db_events := db_events db1 @ [event_to_record ev]\<rparr>))"

definition pg_create_or_get_submission ::
  "string option \<Rightarrow> task \<Rightarrow> task_db \<Rightarrow> task_error + task_db \<times> task" where
  "pg_create_or_get_submission flt t db =
     in_session flt
       (case insert_submission t db of
          Inr db' \<Rightarrow> Inr (db', t)
        | Inl IntegrityError \<Rightarrow>
            bindE (find_submission (t_owner_subject t) (t_task_type t) (t_idempotency_key t) db)
              (\<lambda>existing. case existing of None \<Rightarrow> Inl IntegrityError | Some u \<Rightarrow> Inr (db, u))
        | Inl e \<Rightarrow> Inl e)"

definition save_attempt ::
  "uuid \<Rightarrow> uuid set \<Rightarrow> attempt_record list \<Rightarrow> task_attempt \<Rightarrow> attempt_record list" where
  \<comment> \<open>one round of the attempt loop of \<open>save\<close>; \<open>ids\<close> are the rows that existed before it\<close>
  "save_attempt tid ids rows a =
     (if a_id a \<in> ids
      then map (\<lambda>r. if ar_id r = a_id a \<and> ar_task_id r = tid then update_attempt_record r a else r) rows
      else rows @ [attempt_to_record a])"

definition save_attempts :: "uuid \<Rightarrow> task_attempt list \<Rightarrow> attempt_record list \<Rightarrow> attempt_record list" where
  "save_attempts tid as rows =
     (let ids = ar_id ` set (filter (\<lambda>r. ar_task_id r = tid) rows)
      in foldl (save_attempt tid ids) rows as)"

definition save_events :: "uuid \<Rightarrow> task_event list \<Rightarrow> event_record list \<Rightarrow> event_record list" where
  "save_events tid es rows =
     (let ids = er_id ` set (filter (\<lambda>r. er_task_id r = tid) rows)
      in rows @ map event_to_record (filter (\<lambda>e. e_id e \<notin> ids) es))"

definition add_receipt :: "uuid \<Rightarrow> string \<Rightarrow> string \<Rightarrow> task_db \<Rightarrow> task_db" where
  \<comment> \<open>insert the receipt unless it is there, drawing its id and creation time\<close>
  "add_receipt tid ct cid db =
     (if list_ex (\<lambda>r. rr_task_id r = tid \<and> rr_command_type r = ct \<and> rr_command_id r = cid)
           (db_receipts db)
      then db
      else db\<lparr>db_receipts := db_receipts db @
                [\<lparr>rr_id = db_uuid4 db (db_drawn db), rr_task_id = tid, rr_command_type = ct,
                  rr_command_id = cid, rr_created_at = db_now db\<rparr>],
              db_drawn := Suc (db_drawn db)\<rparr>)"

definition pg_save ::
  "string option \<Rightarrow> task \<Rightarrow> command_receipt option \<Rightarrow> task_db \<Rightarrow> task_error + task_db" where
  "pg_save flt t receipt db =
     in_session flt
       (if \<not> list_ex (\<lambda>r. tr_id r = t_id t) (db_tasks db) then Inl TaskNotFoundError
        else
          let db1 = db\<lparr>db_tasks := map (\<lambda>r. if tr_id r = t_id t then update_task_record r t else r)
                         (db_tasks db),
                       db_attempts := save_attempts (t_id t) (t_attempts t) (db_attempts db),
                       db_events := save_events (t_id t) (t_events t) (db_events db)\<rparr>
          in commit (case receipt of
               None \<Rightarrow> db1
             | Some c \<Rightarrow> add_receipt (cr_task_id c) (cr_command_type c) (cr_command_id c) db1))"

definition pg_mark_command_processed ::
  "string option \<Rightarrow> uuid \<Rightarrow> string \<Rightarrow> string \<Rightarrow> task_db \<Rightarrow> task_error + task_db" where
  "pg_mark_command_processed flt tid ct cid db =
     in_session flt
       (if list_ex (\<lambda>r. rr_task_id r = tid \<and> rr_command_type r = ct \<and> rr_command_id r = cid)
             (db_receipts db)
        then Inr db else commit (add_receipt tid ct cid db))"

definition pg_release_claim_slot :: "task_db \<Rightarrow> task_db" where
  \<comment> \<open>a rollback: nothing is written\<close>
  "pg_release_claim_slot db = db"

definition postgres_port :: "string option \<Rightarrow> (uuid \<Rightarrow> bool) \<Rightarrow> task_db task_repository_port" where
  "postgres_port flt locked =
     \<lparr>rp_get = pg_get flt, rp_get_for_update = pg_get_for_update flt,
      rp_get_next_queued_for_update = pg_get_next_queued_for_update flt locked,
      rp_get_expired_attempts_for_update = pg_get_expired_attempts_for_update flt locked,
      rp_get_due_retries_for_update = pg_get_due_retries_for_update flt locked,
      rp_list_owned = pg_list_owned flt, rp_get_owned = pg_get_owned flt,
      rp_read_owned_events = pg_read_owned_events flt,
      rp_create_or_get_submission = pg_create_or_get_submission flt,
      rp_save = pg_save flt, rp_has_processed_command = pg_has_processed_command flt,
      rp_mark_command_processed = pg_mark_command_processed flt\<rparr>"

end
