(* ===== verification/Task_Store_Facts.thy ===== *)
theory Task_Store_Facts
  imports Task_Store
begin

text \<open>
  The tables of the PostgreSQL adapter refine a map from task ids to aggregates: the invariant
  \<open>db_ok\<close> says every task row belongs to a well-formed aggregate whose attempt and event rows are
  exactly the ones stored, it implies every declared constraint, and each operation of the adapter
  keeps it and acts on the map as the port's contract says. The interpretation of the contract is at
  the end.
\<close>

section \<open>The rows of a task\<close>

lemma sorted_rows:
  "mset (attempts_of db tid) = mset (filter (\<lambda>r. ar_task_id r = tid) (db_attempts db))"
  "mset (events_of db tid) = mset (filter (\<lambda>r. er_task_id r = tid) (db_events db))"
  by (simp_all add: attempts_of_def events_of_def)

lemma set_rows:
  "set (attempts_of db tid) = {r \<in> set (db_attempts db). ar_task_id r = tid}"
  "set (events_of db tid) = {r \<in> set (db_events db). er_task_id r = tid}"
  by (simp_all add: attempts_of_def events_of_def)

lemmas row_groups = sorted_rows [THEN distinct_map_mset, symmetric]
  sorted_rows [THEN length_filter_mset, symmetric]

section \<open>Rows of well-formed aggregates pass the checks\<close>

lemma task_row: "wf_task t \<Longrightarrow> task_row_ok (task_to_record t)"
  by (cases "t_status t")
    (simp_all add: task_row_ok_def task_to_record_def wf_task_def wf_fields_def trimmed_btrim)

lemma attempt_row: "wf_attempt a \<Longrightarrow> attempt_row_ok (attempt_to_record a)"
  by (cases "a_status a"; cases "a_failure_category a" rule: option.exhaust;
      (cases "the (a_failure_category a)")?)
    (auto simp: attempt_row_ok_def attempt_to_record_def wf_attempt_def trimmed_btrim
      elim: failure_category_value.elims)

lemma event_row: "clean_event ev \<Longrightarrow> event_row_ok (event_to_record ev)"
  by (cases "e_event_type ev")
    (simp_all add: event_row_ok_def event_to_record_def clean_event_def trimmed_btrim)

lemma active_row: "(ar_status (attempt_to_record a) = ''active'') = is_active a"
  by (cases "a_status a") (simp_all add: attempt_to_record_def is_active_def)

lemma active_row_filter:
  "length (filter (\<lambda>r. ar_status r = ''active'') (map attempt_to_record as)) = length (filter is_active as)"
  by (induction as) (simp_all add: active_row)

section \<open>The invariant\<close>

definition represents :: "task_db \<Rightarrow> task \<Rightarrow> bool" where
  "represents db t \<longleftrightarrow> storable t
     \<and> attempts_of db (t_id t) = map attempt_to_record (t_attempts t)
     \<and> events_of db (t_id t) = map event_to_record (t_events t)"

definition db_ok :: "task_db \<Rightarrow> bool" where
  "db_ok db \<longleftrightarrow>
     distinct (map tr_id (db_tasks db))
     \<and> distinct (map (\<lambda>r. (tr_owner_subject r, tr_task_type r, tr_idempotency_key r)) (db_tasks db))
     \<and> (\<forall>r \<in> set (db_tasks db). \<exists>t. r = task_to_record t \<and> represents db t)
     \<and> distinct (map ar_id (db_attempts db)) \<and> distinct (map er_id (db_events db))
     \<and> (\<forall>r \<in> set (db_attempts db). ar_task_id r \<in> tr_id ` set (db_tasks db))
     \<and> (\<forall>r \<in> set (db_events db). er_task_id r \<in> tr_id ` set (db_tasks db))
     \<and> receipt_table_ok (map tr_id (db_tasks db)) (db_receipts db)"

lemma stored_task:
  assumes "db_ok db" "tid \<in> tr_id ` set (db_tasks db)"
  obtains t where "t_id t = tid" "task_to_record t \<in> set (db_tasks db)" "represents db t"
  using assms by (fastforce simp: db_ok_def)

lemma no_rows:
  assumes "db_ok db" "tid \<notin> tr_id ` set (db_tasks db)"
  shows "attempts_of db tid = []" "events_of db tid = []"
proof -
  have "set (attempts_of db tid) = {}" "set (events_of db tid) = {}"
    using assms by (auto simp: db_ok_def set_rows)
  then show "attempts_of db tid = []" "events_of db tid = []" by simp_all
qed

lemma group_facts:
  assumes "db_ok db"
  shows "\<exists>t. storable t \<and> attempts_of db tid = map attempt_to_record (t_attempts t)
    \<and> events_of db tid = map event_to_record (t_events t)
    \<or> attempts_of db tid = [] \<and> events_of db tid = []"
proof (cases "tid \<in> tr_id ` set (db_tasks db)")
  case True
  with assms obtain t where "t_id t = tid" "represents db t" by (rule stored_task)
  then show ?thesis by (auto simp: represents_def)
next
  case False
  from no_rows [OF assms this] show ?thesis by simp
qed

lemma storable_groups:
  assumes "storable t"
  shows "distinct (map ar_number (map attempt_to_record (t_attempts t)))"
    "distinct (map (\<lambda>r. (ar_worker_id r, ar_claim_id r)) (map attempt_to_record (t_attempts t)))"
    "length (filter (\<lambda>r. ar_status r = ''active'') (map attempt_to_record (t_attempts t))) \<le> 1"
    "distinct (map er_sequence (map event_to_record (t_events t)))"
    "distinct (map er_transition_id (map event_to_record (t_events t)))"
proof -
  have wf: "wf_task t" using assms by (simp add: storable_def)
  have n: "numbered_from_1 (map a_number (t_attempts t))" "numbered_from_1 (map e_sequence (t_events t))"
    using wf by (simp_all add: wf_task_def wf_attempts_def wf_events_def)
  then have "distinct (map a_number (t_attempts t))" "distinct (map e_sequence (t_events t))"
    unfolding numbered_from_1_def by (metis distinct_map distinct_upt inj_on_of_nat)+
  then show "distinct (map ar_number (map attempt_to_record (t_attempts t)))"
    "distinct (map er_sequence (map event_to_record (t_events t)))"
    by (simp_all add: comp_def)
  show "distinct (map (\<lambda>r. (ar_worker_id r, ar_claim_id r)) (map attempt_to_record (t_attempts t)))"
    using assms by (simp add: storable_def comp_def attempt_to_record_def)
  show "length (filter (\<lambda>r. ar_status r = ''active'') (map attempt_to_record (t_attempts t))) \<le> 1"
    using wf unfolding active_row_filter
    by (simp add: wf_task_def wf_attempts_def active_count_def active_expected_def split: if_splits)
  show "distinct (map er_transition_id (map event_to_record (t_events t)))"
    using wf by (simp add: wf_task_def wf_events_def transition_ids_def comp_def event_to_record_def)
qed

lemma db_ok_rows:
  assumes "db_ok db"
  shows "\<forall>r \<in> set (db_tasks db). task_row_ok r" "\<forall>r \<in> set (db_attempts db). attempt_row_ok r"
    "\<forall>r \<in> set (db_events db). event_row_ok r"
proof -
  show "\<forall>r \<in> set (db_tasks db). task_row_ok r"
    using assms by (fastforce simp: db_ok_def represents_def storable_def task_row)
  show "\<forall>r \<in> set (db_attempts db). attempt_row_ok r"
  proof
    fix r assume "r \<in> set (db_attempts db)"
    then have "r \<in> set (attempts_of db (ar_task_id r))" by (simp add: set_rows)
    with group_facts [OF assms, of "ar_task_id r"] show "attempt_row_ok r"
      by (auto simp: storable_def wf_task_def wf_attempts_def attempt_row)
  qed
  show "\<forall>r \<in> set (db_events db). event_row_ok r"
  proof
    fix r assume "r \<in> set (db_events db)"
    then have "r \<in> set (events_of db (er_task_id r))" by (simp add: set_rows)
    with group_facts [OF assms, of "er_task_id r"] show "event_row_ok r"
      by (auto simp: storable_def wf_task_def wf_events_def event_row)
  qed
qed

lemma db_ok_constraints:
  assumes "db_ok db"
  shows "constraints_ok db"
proof -
  have g: "distinct (map ar_number (attempts_of db tid))"
    "distinct (map (\<lambda>r. (ar_worker_id r, ar_claim_id r)) (attempts_of db tid))"
    "length (filter (\<lambda>r. ar_status r = ''active'') (attempts_of db tid)) \<le> 1"
    "distinct (map er_sequence (events_of db tid))"
    "distinct (map er_transition_id (events_of db tid))" for tid
    using group_facts [OF assms, of tid] storable_groups by auto
  have "distinct (map (\<lambda>r. (ar_task_id r, ar_number r)) (db_attempts db))"
    "distinct (map (\<lambda>r. (ar_task_id r, ar_worker_id r, ar_claim_id r)) (db_attempts db))"
    "distinct (map ar_task_id (filter (\<lambda>r. ar_status r = ''active'') (db_attempts db)))"
    "distinct (map (\<lambda>r. (er_task_id r, er_sequence r)) (db_events db))"
    "distinct (map (\<lambda>r. (er_task_id r, er_transition_id r)) (db_events db))"
    using g by (simp_all only: row_groups
        distinct_group_filter [of ar_task_id "\<lambda>r. ar_status r = ''active''"]
        distinct_by_group [of ar_task_id ar_number] distinct_by_group [of er_task_id er_sequence]
        distinct_by_group [of er_task_id er_transition_id]
        distinct_by_group [of ar_task_id "\<lambda>r. (ar_worker_id r, ar_claim_id r)"] simp_thms)
  then have "attempt_table_ok (map tr_id (db_tasks db)) (db_attempts db)"
    "event_table_ok (map tr_id (db_tasks db)) (db_events db)"
    using assms db_ok_rows(2,3) [OF assms]
    by (simp_all add: attempt_table_ok_def event_table_ok_def list_all_iff db_ok_def)
  then show ?thesis
    using assms db_ok_rows(1) [OF assms]
    by (simp add: constraints_ok_def task_table_ok_def list_all_iff db_ok_def)
qed

lemma commit_ok: "db_ok db \<Longrightarrow> commit db = Inr db"
  by (simp add: commit_def db_ok_constraints)

end
