(* ===== verification/Task_Reach.thy ===== *)
theory Task_Reach
  imports Task_Port
begin

text \<open>
  What the repository's contract asks of a saved aggregate, shown for the reachable tasks: no two
  attempts share a claim id, event ids are distinct, and one operation extends the aggregate and adds
  only the UUIDs it was given.
\<close>

fun is_claim :: "task_op \<Rightarrow> bool" where
  "is_claim (Op_claim w c l e aid) = True"
| "is_claim _ = False"

definition op_ids :: "task_op \<Rightarrow> uuid \<Rightarrow> uuid set" where
  \<comment> \<open>the UUIDs an operation draws\<close>
  "op_ids opr eid = insert eid (case opr of Op_claim _ _ _ _ aid \<Rightarrow> {aid} | _ \<Rightarrow> {})"

lemma op_fresh_used:
  "op_ids opr eid \<inter> U = {} \<Longrightarrow> task_ids t \<subseteq> U \<Longrightarrow> op_fresh opr eid t"
  by (cases opr) (auto simp: op_ids_def op_fresh_def task_ids_def)

lemma append_event_frame:
  "append_event tr ty md n eid t = Inr t' \<Longrightarrow> t_attempts t' = t_attempts t
     \<and> (\<exists>ev. t_events t' = t_events t @ [ev] \<and> e_id ev = eid)"
  by (auto simp: append_event_def mk_event_def errE_simps split: if_splits)

lemma other_op_length:
  assumes "run_op opr now eid t = Inr t'" "\<not> is_claim opr"
  shows "length (t_attempts t') = length (t_attempts t)"
  using assms
  by (cases opr) (auto simp: errE_simps renew_lease_def request_cancel_def
      confirm_cancel_def complete_def fail_def requeue_due_def request_manual_retry_def
      recover_expired_attempt_def Let_def simp del: append.simps append_Cons
      split: if_splits option.splits prod.splits dest!: append_event_frame)

definition claims_match :: "task \<Rightarrow> bool" where
  \<comment> \<open>the claim events name the claims of the attempts, in order\<close>
  "claims_match t \<longleftrightarrow>
     map (\<lambda>a. ''claim:'' @ a_claim_id a) (t_attempts t)
       = map e_transition_id (filter (\<lambda>e. e_event_type e = TASK_CLAIMED) (t_events t))"

lemma claims_match_run_op:
  assumes wf: "wf_task t" and cm: "claims_match t" and op: "run_op opr now eid t = Inr t'"
    and fr: "op_fresh opr eid t"
  shows "claims_match t'"
proof (cases "is_claim opr")
  case True
  then obtain w c l e aid where opr: "opr = Op_claim w c l e aid" by (cases opr) auto
  with op fr obtain a where "claim w c l e now aid eid t = Inr (t', a)"
    "aid \<notin> a_id ` set (t_attempts t)" by (auto simp: errE_simps op_fresh_def)
  from claim_returns [OF wf this(2,1)] cm show ?thesis
    by cases (simp add: claims_match_def)
next
  case False
  have len: "length (t_attempts t') = length (t_attempts t)" using other_op_length [OF op False] .
  have eff: "effect eid t t'" using run_op_effect [OF wf op fr] .
  then have "attempts_evolve (t_attempts t) (t_attempts t')" by (simp add: effect_def)
  with len have att: "map (\<lambda>a. ''claim:'' @ a_claim_id a) (t_attempts t')
      = map (\<lambda>a. ''claim:'' @ a_claim_id a) (t_attempts t)"
    by (intro nth_equalityI) (auto simp: attempts_evolve_def same_attempt_def)
  from eff len have "filter (\<lambda>e. e_event_type e = TASK_CLAIMED) (t_events t')
      = filter (\<lambda>e. e_event_type e = TASK_CLAIMED) (t_events t)"
    by (auto simp: effect_def silent_def logged_def split: if_splits)
  with att cm show ?thesis by (simp add: claims_match_def)
qed

lemma effect_event_ids:
  assumes "effect eid t t'" "eid \<notin> e_id ` set (t_events t)" "distinct (map e_id (t_events t))"
  shows "distinct (map e_id (t_events t'))"
  using assms by (auto simp: effect_def silent_def logged_def)

lemma reachable_claims: "task_reachable t \<Longrightarrow> claims_match t \<and> distinct (map e_id (t_events t))"
proof (induction rule: task_reachable.induct)
  case (created ty owner key input mx dm allow now tid eid t)
  from create_task_returns [OF created] show ?case by cases (simp add: claims_match_def)
next
  case (stepped t t')
  from stepped(2) obtain opr now eid where op: "run_op opr now eid t = Inr t'" "op_fresh opr eid t"
    by (auto elim: task_stepE)
  have wf: "wf_task t" using reachable_wf stepped.hyps(1) by blast
  from op(2) have "eid \<notin> e_id ` set (t_events t)" by (simp add: op_fresh_def)
  with stepped.IH run_op_effect [OF wf op] claims_match_run_op [OF wf _ op] effect_event_ids
  show ?case by blast
qed

lemmas reachable_event_ids = reachable_claims [THEN conjunct2]

lemma reachable_storable:
  assumes "task_reachable t"
  shows "storable t"
proof -
  have wf: "wf_task t" and cm: "claims_match t"
    using reachable_wf [OF assms] reachable_claims [OF assms] by auto
  have "distinct (map e_transition_id (filter (\<lambda>e. e_event_type e = TASK_CLAIMED) (t_events t)))"
    using wf by (simp add: wf_task_def wf_events_def transition_ids_def distinct_map_filter)
  then have "distinct (map (\<lambda>a. ''claim:'' @ a_claim_id a) (t_attempts t))"
    using cm by (simp only: claims_match_def)
  then have "distinct (map a_claim_id (t_attempts t))"
    by (auto simp: distinct_map inj_on_def)
  then have "distinct (map (\<lambda>a. (a_worker_id a, a_claim_id a)) (t_attempts t))"
    by (auto simp: distinct_map inj_on_def)
  with wf show ?thesis by (simp add: storable_def)
qed

lemma effect_extends: "effect eid t t' \<Longrightarrow> extends_task t t'"
  by (auto simp: effect_def extends_task_def silent_def logged_def)

lemma new_attempt_ids:
  assumes "wf_task t" "run_op opr now eid t = Inr t'" "op_fresh opr eid t"
  shows "new_ids t t' \<subseteq> op_ids opr eid"
proof -
  have eff: "effect eid t t'" using run_op_effect [OF assms] .
  then have ev: "e_id ` set (t_events t') \<subseteq> insert eid (e_id ` set (t_events t))"
    by (auto simp: effect_def silent_def logged_def)
  have "a_id ` set (t_attempts t') - a_id ` set (t_attempts t) \<subseteq> op_ids opr eid"
  proof (cases "is_claim opr")
    case True
    then obtain w c l e aid where opr: "opr = Op_claim w c l e aid" by (cases opr) auto
    with assms(2,3) obtain a where "claim w c l e now aid eid t = Inr (t', a)"
      "aid \<notin> a_id ` set (t_attempts t)" by (auto simp: errE_simps op_fresh_def)
    from claim_returns [OF assms(1) this(2,1)] show ?thesis
      by cases (auto simp: op_ids_def opr)
  next
    case False
    from other_op_length [OF assms(2) False] eff
    have "map a_id (t_attempts t') = map a_id (t_attempts t)"
      by (intro nth_equalityI) (auto simp: effect_def attempts_evolve_def same_attempt_def)
    then have "a_id ` set (t_attempts t') = a_id ` set (t_attempts t)" by (metis list.set_map)
    then show ?thesis by simp
  qed
  with ev show ?thesis by (auto simp: new_ids_def op_ids_def)
qed

section \<open>Operations on a stored task\<close>

context task_repository
begin

lemma save_step:
  assumes ok: "ok s" and v: "view s tid = Some t" and r: "task_reachable t"
    and op: "run_op opr now eid t = Inr t'" and fr: "op_ids opr eid \<inter> used s = {}"
    and sup: "rc \<noteq> None \<Longrightarrow> supplied s"
    and rc: "\<And>r. rc = Some r \<Longrightarrow> cr_task_id r = tid \<and> trimmed (cr_command_type r) \<and> trimmed (cr_command_id r)"
  obtains s' where "rp_save port t' rc s = Inr s'" "ok s'" "view s' = (view s)(tid \<mapsto> t')"
    "handled s' = handled s \<union> (case rc of None \<Rightarrow> {} | Some r \<Rightarrow>
        {(cr_task_id r, cr_command_type r, cr_command_id r)})"
    "task_reachable t'" "same_task t t'" "t_id t' = tid"
proof -
  have wf: "wf_task t" using reachable_wf [OF r] .
  have t: "t_id t = tid" "task_ids t \<subseteq> used s" using view_ok [OF ok v] by auto
  have fresh: "op_fresh opr eid t" using op_fresh_used [OF fr t(2)] .
  have r': "task_reachable t'" using task_reachable.stepped [OF r task_step.step [OF op fresh]] .
  have ext: "extends_task t t'" using effect_extends [OF run_op_effect [OF wf op fresh]] .
  then have same: "same_task t t'" "t_id t' = tid" using t by (simp_all add: extends_task_def same_task_def)
  have "new_ids t t' \<inter> used s = {}" using new_attempt_ids [OF wf op fresh] fr by blast
  then obtain s' where "rp_save port t' rc s = Inr s'" "ok s'" "view s' = (view s)(t_id t' \<mapsto> t')"
    "handled s' = handled s \<union> (case rc of None \<Rightarrow> {} | Some r \<Rightarrow>
        {(cr_task_id r, cr_command_type r, cr_command_id r)})"
    using save [OF ok _ ext reachable_storable [OF r'] reachable_event_ids [OF r'] _ sup, of rc]
      v rc same(2) by auto
  with that r' same show thesis by simp
qed

end

end
