(* ===== verification/Task_Service.thy ===== *)
theory Task_Service
  imports Task_Reach
begin

text \<open>
  The task lifecycle service (\<open>app/platform/task/application/lifecycle_service.py\<close>) with its commands
  and results (\<open>contracts.py\<close>, \<open>executor_contracts.py\<close>): every use case loads the aggregate through the
  port, runs one operation, and saves it, with a receipt where the command is idempotent by its id.

  A use case is an action on the store of the port. The clock's value, the fresh UUIDs and the port are
  arguments.
\<close>

section \<open>Commands and results\<close>

record submit_command =
  sc_owner_subject :: string
  sc_task_type :: string
  sc_idempotency_key :: string
  sc_input_fingerprint :: string
  sc_max_attempts :: int
  sc_display_metadata :: "(string \<times> string) list option"
  sc_allow_manual_retry :: bool

record cancel_command =
  cc_task_id :: uuid
  cc_command_id :: string

record requeue_command =
  qc_task_id :: uuid
  qc_command_id :: string

record retry_command =
  yc_task_id :: uuid
  yc_command_id :: string

record recover_command =
  rc_task_id :: uuid
  rc_command_id :: string
  rc_retry_at :: "datetime option"
  rc_attempt_id :: "uuid option"

record cancellation_check_command =
  kc_task_id :: uuid
  kc_attempt_id :: uuid
  kc_lease_token :: string

record claim_command =
  mc_task_id :: uuid
  mc_worker_id :: string
  mc_claim_id :: string
  mc_lease_token :: string
  mc_lease_expires_at :: datetime

record renew_command =
  nc_task_id :: uuid
  nc_attempt_id :: uuid
  nc_lease_token :: string
  nc_renewal_sequence :: int
  nc_lease_expires_at :: datetime

record confirm_command =
  fc_task_id :: uuid
  fc_attempt_id :: uuid
  fc_lease_token :: string

record complete_command =
  oc_task_id :: uuid
  oc_attempt_id :: uuid
  oc_lease_token :: string
  oc_result_fingerprint :: string
  oc_result_summary :: string

record fail_command =
  lc_task_id :: uuid
  lc_attempt_id :: uuid
  lc_lease_token :: string
  lc_failure_category :: failure_category
  lc_failure_code :: string
  lc_result_fingerprint :: string
  lc_retry_at :: "datetime option"

record task_view =
  v_id :: uuid
  v_task_type :: string
  v_owner_subject :: string
  v_status :: task_status
  v_attempt_count :: int
  v_max_attempts :: int
  v_available_at :: int
  v_result_summary :: "string option"
  v_failure_code :: "string option"
  v_created_at :: int
  v_updated_at :: int

definition view_from_task :: "task \<Rightarrow> task_view" where
  "view_from_task t =
     \<lparr>v_id = t_id t, v_task_type = t_task_type t, v_owner_subject = t_owner_subject t,
      v_status = t_status t, v_attempt_count = attempt_count t, v_max_attempts = t_max_attempts t,
      v_available_at = t_available_at t, v_result_summary = t_result_summary t,
      v_failure_code = t_failure_code t, v_created_at = t_created_at t,
      v_updated_at = t_updated_at t\<rparr>"

record attempt_lease =
  al_attempt_id :: uuid
  al_worker_id :: string
  al_lease_token :: string
  al_lease_expires_at :: int
  al_renewal_sequence :: int

record leased_result =
  lr_task :: task_view
  lr_lease :: attempt_lease

section \<open>Helpers of the service\<close>

type_synonym ('s, 'a) task_action = "('s, task_error, 'a) action"

definition svc_require_text :: "string \<Rightarrow> task_error + string" where
  "svc_require_text value =
     (if py_strip value = [] then Inl (ValueError Blank_text) else Inr (py_strip value))"

definition svc_lease :: "task_attempt \<Rightarrow> attempt_lease" where
  "svc_lease a =
     \<lparr>al_attempt_id = a_id a, al_worker_id = a_worker_id a, al_lease_token = a_lease_token a,
      al_lease_expires_at = a_lease_expires_at a, al_renewal_sequence = a_renewal_sequence a\<rparr>"

definition svc_task :: "'s task_repository_port \<Rightarrow> uuid \<Rightarrow> ('s, task) task_action" where
  "svc_task port task_id =
     bindA (readA (rp_get_for_update port task_id)) (\<lambda>found.
       case found of None \<Rightarrow> liftA (Inl TaskNotFoundError) | Some t \<Rightarrow> returnA t)"

definition svc_already_processed ::
  "'s task_repository_port \<Rightarrow> uuid \<Rightarrow> string \<Rightarrow> string \<Rightarrow> ('s, bool) task_action" where
  "svc_already_processed port task_id command_type command_id =
     bindA (liftA (svc_require_text command_id)) (\<lambda>cid.
       readA (rp_has_processed_command port task_id command_type cid))"

definition svc_save ::
  "'s task_repository_port \<Rightarrow> task \<Rightarrow> command_receipt option \<Rightarrow> ('s, unit) task_action" where
  "svc_save port t receipt = writeA (\<lambda>s. bindE (rp_save port t receipt s) (\<lambda>s'. Inr (s', ())))"

definition svc_save_with_receipt ::
  "'s task_repository_port \<Rightarrow> task \<Rightarrow> string \<Rightarrow> string \<Rightarrow> ('s, unit) task_action" where
  "svc_save_with_receipt port t command_type command_id =
     bindA (liftA (svc_require_text command_id)) (\<lambda>cid.
       svc_save port t
         (Some \<lparr>cr_task_id = t_id t, cr_command_type = command_type, cr_command_id = cid\<rparr>))"

section \<open>Use cases\<close>

definition svc_submit ::
  "'s task_repository_port \<Rightarrow> submit_command \<Rightarrow> datetime \<Rightarrow> uuid \<Rightarrow> uuid \<Rightarrow> ('s, task_view) task_action" where
  "svc_submit port c now tid eid =
     bindA (liftA (create_task (sc_task_type c) (sc_owner_subject c) (sc_idempotency_key c)
              (sc_input_fingerprint c) (sc_max_attempts c) (sc_display_metadata c)
              (sc_allow_manual_retry c) now tid eid)) (\<lambda>t.
     bindA (writeA (rp_create_or_get_submission port t)) (\<lambda>persisted.
       if t_input_fingerprint persisted \<noteq> t_input_fingerprint t
       then liftA (Inl TaskIdempotencyConflictError)
       else returnA (view_from_task persisted)))"

definition svc_claim ::
  "'s task_repository_port \<Rightarrow> claim_command \<Rightarrow> datetime \<Rightarrow> uuid \<Rightarrow> uuid \<Rightarrow> ('s, leased_result) task_action" where
  "svc_claim port c now aid eid =
     bindA (svc_task port (mc_task_id c)) (\<lambda>t.
     bindA (liftA (find_attempt_by_claim (mc_worker_id c) (mc_claim_id c) t)) (\<lambda>existing.
       case existing of
         Some a \<Rightarrow>
           bindA (liftA (svc_require_text (mc_lease_token c))) (\<lambda>token.
             if a_lease_token a \<noteq> token then liftA (Inl TaskIdempotencyConflictError)
             else returnA \<lparr>lr_task = view_from_task t, lr_lease = svc_lease a\<rparr>)
       | None \<Rightarrow>
           bindA (liftA (claim (mc_worker_id c) (mc_claim_id c) (mc_lease_token c)
                    (mc_lease_expires_at c) now aid eid t)) (\<lambda>(t', a).
           bindA (svc_save port t' None) (\<lambda>_.
             returnA \<lparr>lr_task = view_from_task t', lr_lease = svc_lease a\<rparr>))))"

definition svc_renew_lease ::
  "'s task_repository_port \<Rightarrow> renew_command \<Rightarrow> datetime \<Rightarrow> ('s, leased_result) task_action" where
  "svc_renew_lease port c now =
     bindA (svc_task port (nc_task_id c)) (\<lambda>t.
     bindA (liftA (renew_lease (nc_attempt_id c) (nc_lease_token c) (nc_renewal_sequence c)
              (nc_lease_expires_at c) now t)) (\<lambda>(t', a).
     bindA (svc_save port t' None) (\<lambda>_.
       returnA \<lparr>lr_task = view_from_task t', lr_lease = svc_lease a\<rparr>)))"

definition svc_cancel ::
  "'s task_repository_port \<Rightarrow> cancel_command \<Rightarrow> datetime \<Rightarrow> uuid \<Rightarrow> ('s, task_view) task_action" where
  "svc_cancel port c now eid =
     bindA (svc_task port (cc_task_id c)) (\<lambda>t.
     bindA (svc_already_processed port (t_id t) ''cancel'' (cc_command_id c)) (\<lambda>processed.
       if processed then returnA (view_from_task t)
       else
         bindA (liftA (request_cancel (cc_command_id c) now eid t)) (\<lambda>t'.
         bindA (svc_save_with_receipt port t' ''cancel'' (cc_command_id c)) (\<lambda>_.
           returnA (view_from_task t')))))"

definition svc_confirm_cancellation ::
  "'s task_repository_port \<Rightarrow> confirm_command \<Rightarrow> datetime \<Rightarrow> uuid \<Rightarrow> ('s, task_view) task_action" where
  "svc_confirm_cancellation port c now eid =
     bindA (svc_task port (fc_task_id c)) (\<lambda>t.
     bindA (liftA (confirm_cancel (fc_attempt_id c) (fc_lease_token c) now eid t)) (\<lambda>t'.
     bindA (svc_save port t' None) (\<lambda>_. returnA (view_from_task t'))))"

definition svc_complete ::
  "'s task_repository_port \<Rightarrow> complete_command \<Rightarrow> datetime \<Rightarrow> uuid \<Rightarrow> ('s, task_view) task_action" where
  "svc_complete port c now eid =
     bindA (svc_task port (oc_task_id c)) (\<lambda>t.
     bindA (liftA (complete (oc_attempt_id c) (oc_lease_token c) (oc_result_fingerprint c)
              (oc_result_summary c) now eid t)) (\<lambda>t'.
     bindA (svc_save port t' None) (\<lambda>_. returnA (view_from_task t'))))"

definition svc_fail ::
  "'s task_repository_port \<Rightarrow> fail_command \<Rightarrow> datetime \<Rightarrow> uuid \<Rightarrow> ('s, task_view) task_action" where
  "svc_fail port c now eid =
     bindA (svc_task port (lc_task_id c)) (\<lambda>t.
     bindA (liftA (fail (lc_attempt_id c) (lc_lease_token c) (lc_failure_category c)
              (lc_failure_code c) (lc_result_fingerprint c) (lc_retry_at c) now eid t)) (\<lambda>t'.
     bindA (svc_save port t' None) (\<lambda>_. returnA (view_from_task t'))))"

definition svc_requeue_due ::
  "'s task_repository_port \<Rightarrow> requeue_command \<Rightarrow> datetime \<Rightarrow> uuid \<Rightarrow> ('s, task_view) task_action" where
  "svc_requeue_due port c now eid =
     bindA (svc_task port (qc_task_id c)) (\<lambda>t.
     bindA (svc_already_processed port (t_id t) ''requeue'' (qc_command_id c)) (\<lambda>processed.
       if processed then returnA (view_from_task t)
       else
         bindA (liftA (requeue_due (qc_command_id c) now eid t)) (\<lambda>t'.
         bindA (svc_save_with_receipt port t' ''requeue'' (qc_command_id c)) (\<lambda>_.
           returnA (view_from_task t')))))"

definition svc_retry ::
  "'s task_repository_port \<Rightarrow> retry_command \<Rightarrow> datetime \<Rightarrow> uuid \<Rightarrow> ('s, task_view) task_action" where
  "svc_retry port c now eid =
     bindA (svc_task port (yc_task_id c)) (\<lambda>t.
     bindA (svc_already_processed port (t_id t) ''manual-retry'' (yc_command_id c)) (\<lambda>processed.
       if processed then returnA (view_from_task t)
       else
         bindA (liftA (request_manual_retry (yc_command_id c) now eid t)) (\<lambda>t'.
         bindA (svc_save_with_receipt port t' ''manual-retry'' (yc_command_id c)) (\<lambda>_.
           returnA (view_from_task t')))))"

definition svc_recover ::
  "'s task_repository_port \<Rightarrow> recover_command \<Rightarrow> datetime \<Rightarrow> uuid \<Rightarrow> ('s, task_view) task_action" where
  "svc_recover port c now eid =
     bindA (svc_task port (rc_task_id c)) (\<lambda>t.
     bindA (svc_already_processed port (t_id t) ''recover'' (rc_command_id c)) (\<lambda>processed.
       if processed then returnA (view_from_task t)
       else
         bindA (liftA (recover_expired_attempt (rc_command_id c) (rc_retry_at c) now
                  (rc_attempt_id c) eid t)) (\<lambda>t'.
         bindA (svc_save_with_receipt port t' ''recover'' (rc_command_id c)) (\<lambda>_.
           returnA (view_from_task t')))))"

definition cancel_requested_by :: "string \<Rightarrow> datetime \<Rightarrow> uuid \<Rightarrow> task \<Rightarrow> task_error + bool" where
  \<comment> \<open>\<open>is_cancel_requested\<close> after the task was read\<close>
  "cancel_requested_by lease_token now attempt_id t =
     bindE (find_attempt attempt_id t) (\<lambda>i.
     bindE (svc_require_text lease_token) (\<lambda>token.
       if a_lease_token (t_attempts t ! i) \<noteq> token then Inr False
       else bindE (active_attempt t) (\<lambda>active.
         if active \<noteq> Some i then Inr False
         else (case assert_valid_lease lease_token now (t_attempts t ! i) of
             Inl TaskLeaseRejectedError \<Rightarrow> Inr False
           | Inl e \<Rightarrow> Inl e
           | Inr _ \<Rightarrow> Inr (t_status t = CANCEL_REQUESTED)))))"

definition svc_is_cancel_requested ::
  "'s task_repository_port \<Rightarrow> cancellation_check_command \<Rightarrow> datetime \<Rightarrow> ('s, bool) task_action" where
  "svc_is_cancel_requested port c now =
     bindA (readA (rp_get port (kc_task_id c))) (\<lambda>found.
       case found of
         None \<Rightarrow> liftA (Inl TaskNotFoundError)
       | Some t \<Rightarrow> liftA (cancel_requested_by (kc_lease_token c) now (kc_attempt_id c) t))"

section \<open>One command\<close>

datatype svc_command =
    Svc_submit submit_command
  | Svc_claim claim_command
  | Svc_renew renew_command
  | Svc_cancel cancel_command
  | Svc_confirm confirm_command
  | Svc_complete complete_command
  | Svc_fail fail_command
  | Svc_requeue requeue_command
  | Svc_retry retry_command
  | Svc_recover recover_command

datatype svc_result = Res_view task_view | Res_leased leased_result

definition resultA :: "('a \<Rightarrow> svc_result) \<Rightarrow> ('s, 'a) task_action \<Rightarrow> ('s, svc_result) task_action" where
  "resultA f m = bindA m (\<lambda>x. returnA (f x))"

fun svc_exec ::
  "'s task_repository_port \<Rightarrow> svc_command \<Rightarrow> datetime \<Rightarrow> uuid \<Rightarrow> uuid \<Rightarrow> uuid \<Rightarrow> ('s, svc_result) task_action" where
  "svc_exec port (Svc_submit c) now tid aid eid = resultA Res_view (svc_submit port c now tid eid)"
| "svc_exec port (Svc_claim c) now tid aid eid = resultA Res_leased (svc_claim port c now aid eid)"
| "svc_exec port (Svc_renew c) now tid aid eid = resultA Res_leased (svc_renew_lease port c now)"
| "svc_exec port (Svc_cancel c) now tid aid eid = resultA Res_view (svc_cancel port c now eid)"
| "svc_exec port (Svc_confirm c) now tid aid eid =
     resultA Res_view (svc_confirm_cancellation port c now eid)"
| "svc_exec port (Svc_complete c) now tid aid eid = resultA Res_view (svc_complete port c now eid)"
| "svc_exec port (Svc_fail c) now tid aid eid = resultA Res_view (svc_fail port c now eid)"
| "svc_exec port (Svc_requeue c) now tid aid eid = resultA Res_view (svc_requeue_due port c now eid)"
| "svc_exec port (Svc_retry c) now tid aid eid = resultA Res_view (svc_retry port c now eid)"
| "svc_exec port (Svc_recover c) now tid aid eid = resultA Res_view (svc_recover port c now eid)"

end
