(* ===== verification/Task_Service_Spec.thy ===== *)
theory Task_Service_Spec
  imports Task_Service
begin

text \<open>
  What the lifecycle service promises, as a specification over a map from task ids to aggregates and
  the set of handled commands, and the proof, inside the contract of the port, that every use case
  refines it and keeps every stored task reachable.
\<close>

section \<open>The specification\<close>

type_synonym abstract_store = "(uuid \<Rightarrow> task option) \<times> (uuid \<times> string \<times> string) set"

type_synonym svc_outcome = "abstract_store \<times> (task_error + svc_result)"

definition spec_put :: "uuid \<Rightarrow> (task \<Rightarrow> task_error + task \<times> svc_result) \<Rightarrow> abstract_store \<Rightarrow> svc_outcome" where
  \<comment> \<open>one operation on the stored aggregate\<close>
  "spec_put tid f = (\<lambda>(m, R). case m tid of
       None \<Rightarrow> ((m, R), Inl TaskNotFoundError)
     | Some t \<Rightarrow> (case f t of
         Inl e \<Rightarrow> ((m, R), Inl e)
       | Inr (t', x) \<Rightarrow> ((m(tid \<mapsto> t'), R), Inr x)))"

definition spec_once ::
  "string \<Rightarrow> string \<Rightarrow> uuid \<Rightarrow> (task \<Rightarrow> task_error + task) \<Rightarrow> abstract_store \<Rightarrow> svc_outcome" where
  \<comment> \<open>one operation, done at most once for each command id\<close>
  "spec_once ct cid tid f = (\<lambda>(m, R). case m tid of
       None \<Rightarrow> ((m, R), Inl TaskNotFoundError)
     | Some t \<Rightarrow> (case require_text cid of
         Inl e \<Rightarrow> ((m, R), Inl e)
       | Inr c \<Rightarrow>
           if (tid, ct, c) \<in> R then ((m, R), Inr (Res_view (view_from_task t)))
           else (case f t of
               Inl e \<Rightarrow> ((m, R), Inl e)
             | Inr t' \<Rightarrow> ((m(tid \<mapsto> t'), insert (tid, ct, c) R), Inr (Res_view (view_from_task t'))))))"

definition as_view :: "(task \<Rightarrow> task_error + task) \<Rightarrow> task \<Rightarrow> task_error + task \<times> svc_result" where
  "as_view f t = bindE (f t) (\<lambda>t'. Inr (t', Res_view (view_from_task t')))"

definition as_leased ::
  "(task \<Rightarrow> task_error + task \<times> task_attempt) \<Rightarrow> task \<Rightarrow> task_error + task \<times> svc_result" where
  "as_leased f t = bindE (f t) (\<lambda>(t', a).
     Inr (t', Res_leased \<lparr>lr_task = view_from_task t', lr_lease = svc_lease a\<rparr>))"

definition spec_claim :: "claim_command \<Rightarrow> datetime \<Rightarrow> uuid \<Rightarrow> uuid \<Rightarrow> abstract_store \<Rightarrow> svc_outcome" where
  \<comment> \<open>a claim of the same worker and id returns the first lease, if the token is the same\<close>
  "spec_claim c now aid eid = (\<lambda>(m, R). case m (mc_task_id c) of
       None \<Rightarrow> ((m, R), Inl TaskNotFoundError)
     | Some t \<Rightarrow> (case find_attempt_by_claim (mc_worker_id c) (mc_claim_id c) t of
         Inl e \<Rightarrow> ((m, R), Inl e)
       | Inr (Some a) \<Rightarrow> ((m, R), bindE (require_text (mc_lease_token c)) (\<lambda>token.
           if a_lease_token a \<noteq> token then Inl TaskIdempotencyConflictError
           else Inr (Res_leased \<lparr>lr_task = view_from_task t, lr_lease = svc_lease a\<rparr>)))
       | Inr None \<Rightarrow> spec_put (mc_task_id c) (as_leased (claim (mc_worker_id c) (mc_claim_id c)
           (mc_lease_token c) (mc_lease_expires_at c) now aid eid)) (m, R)))"

definition spec_submit ::
  "submit_command \<Rightarrow> datetime \<Rightarrow> uuid \<Rightarrow> uuid \<Rightarrow> abstract_store \<Rightarrow> svc_outcome \<Rightarrow> bool" where
  \<comment> \<open>one task for each owner, type and key; a second submission must have the same fingerprint\<close>
  "spec_submit c now tid eid = (\<lambda>(m, R) out.
     case create_task (sc_task_type c) (sc_owner_subject c) (sc_idempotency_key c)
            (sc_input_fingerprint c) (sc_max_attempts c) (sc_display_metadata c)
            (sc_allow_manual_retry c) now tid eid of
       Inl e \<Rightarrow> out = ((m, R), Inl e)
     | Inr t \<Rightarrow>
         (\<exists>i u. m i = Some u \<and> submission_key u = submission_key t
            \<and> out = ((m, R), if t_input_fingerprint u \<noteq> t_input_fingerprint t
                      then Inl TaskIdempotencyConflictError
                      else Inr (Res_view (view_from_task u))))
         \<or> (\<forall>i u. m i = Some u \<longrightarrow> submission_key u \<noteq> submission_key t)
            \<and> out = ((m(tid \<mapsto> t), R), Inr (Res_view (view_from_task t))))"

fun spec_exec ::
  "svc_command \<Rightarrow> datetime \<Rightarrow> uuid \<Rightarrow> uuid \<Rightarrow> uuid \<Rightarrow> abstract_store \<Rightarrow> svc_outcome \<Rightarrow> bool" where
  "spec_exec (Svc_submit c) now tid aid eid st out = spec_submit c now tid eid st out"
| "spec_exec (Svc_claim c) now tid aid eid st out = (out = spec_claim c now aid eid st)"
| "spec_exec (Svc_renew c) now tid aid eid st out =
     (out = spec_put (nc_task_id c) (as_leased (renew_lease (nc_attempt_id c) (nc_lease_token c)
        (nc_renewal_sequence c) (nc_lease_expires_at c) now)) st)"
| "spec_exec (Svc_cancel c) now tid aid eid st out =
     (out = spec_once ''cancel'' (cc_command_id c) (cc_task_id c)
        (request_cancel (cc_command_id c) now eid) st)"
| "spec_exec (Svc_confirm c) now tid aid eid st out =
     (out = spec_put (fc_task_id c) (as_view (confirm_cancel (fc_attempt_id c) (fc_lease_token c)
        now eid)) st)"
| "spec_exec (Svc_complete c) now tid aid eid st out =
     (out = spec_put (oc_task_id c) (as_view (complete (oc_attempt_id c) (oc_lease_token c)
        (oc_result_fingerprint c) (oc_result_summary c) now eid)) st)"
| "spec_exec (Svc_fail c) now tid aid eid st out =
     (out = spec_put (lc_task_id c) (as_view (fail (lc_attempt_id c) (lc_lease_token c)
        (lc_failure_category c) (lc_failure_code c) (lc_result_fingerprint c) (lc_retry_at c)
        now eid)) st)"
| "spec_exec (Svc_requeue c) now tid aid eid st out =
     (out = spec_once ''requeue'' (qc_command_id c) (qc_task_id c)
        (requeue_due (qc_command_id c) now eid) st)"
| "spec_exec (Svc_retry c) now tid aid eid st out =
     (out = spec_once ''manual-retry'' (yc_command_id c) (yc_task_id c)
        (request_manual_retry (yc_command_id c) now eid) st)"
| "spec_exec (Svc_recover c) now tid aid eid st out =
     (out = spec_once ''recover'' (rc_command_id c) (rc_task_id c)
        (recover_expired_attempt (rc_command_id c) (rc_retry_at c) now (rc_attempt_id c) eid) st)"

section \<open>Shapes\<close>

text \<open>Each use case is one of two programs over a pure operation.\<close>

definition put_action ::
  "'s task_repository_port \<Rightarrow> uuid \<Rightarrow> (task \<Rightarrow> task_error + task \<times> svc_result) \<Rightarrow> ('s, svc_result) task_action" where
  "put_action port tid f =
     bindA (svc_task port tid) (\<lambda>t. bindA (liftA (f t)) (\<lambda>(t', x).
       bindA (svc_save port t' None) (\<lambda>_. returnA x)))"

definition once_action ::
  "'s task_repository_port \<Rightarrow> string \<Rightarrow> string \<Rightarrow> uuid \<Rightarrow> (task \<Rightarrow> task_error + task) \<Rightarrow> ('s, svc_result) task_action" where
  "once_action port ct cid tid f =
     bindA (svc_task port tid) (\<lambda>t. bindA (svc_already_processed port (t_id t) ct cid) (\<lambda>processed.
       if processed then returnA (Res_view (view_from_task t))
       else bindA (liftA (f t)) (\<lambda>t'. bindA (svc_save_with_receipt port t' ct cid) (\<lambda>_.
         returnA (Res_view (view_from_task t'))))))"

lemma resultA_bind [simp]:
  "resultA h (bindA m f) = bindA m (\<lambda>x. resultA h (f x))"
  "resultA h (returnA x) = returnA (h x)" "resultA h (liftA (Inl e)) = liftA (Inl e)"
  by (simp_all add: resultA_def bindA_assoc fun_eq_iff)

lemma resultA_if [simp]: "resultA h (if b then m else m') = (if b then resultA h m else resultA h m')"
  by simp

lemma resultA_case [simp]:
  "resultA h (case p of (x, y) \<Rightarrow> f x y) = (case p of (x, y) \<Rightarrow> resultA h (f x y))"
  "resultA h (case q of None \<Rightarrow> m | Some z \<Rightarrow> g z) = (case q of None \<Rightarrow> resultA h m | Some z \<Rightarrow> resultA h (g z))"
  by (simp_all split: prod.split option.split)

lemma put_as_view:
  "put_action port tid (as_view f) = bindA (svc_task port tid) (\<lambda>t. bindA (liftA (f t)) (\<lambda>t'.
     bindA (svc_save port t' None) (\<lambda>_. returnA (Res_view (view_from_task t')))))"
  by (simp add: put_action_def as_view_def bindA_bindE)

lemma put_as_leased:
  "put_action port tid (as_leased f) = bindA (svc_task port tid) (\<lambda>t. bindA (liftA (f t)) (\<lambda>(t', a).
     bindA (svc_save port t' None) (\<lambda>_.
       returnA (Res_leased \<lparr>lr_task = view_from_task t', lr_lease = svc_lease a\<rparr>))))"
proof -
  have *: "as_leased f t = bindE (f t) (\<lambda>p. Inr (fst p, Res_leased
      \<lparr>lr_task = view_from_task (fst p), lr_lease = svc_lease (snd p)\<rparr>))" for t
    by (cases "f t") (simp_all add: as_leased_def split_beta)
  show ?thesis by (simp add: put_action_def * bindA_bindE case_prod_unfold)
qed

lemma exec_shapes:
  "svc_exec port (Svc_renew c) now tid aid eid = put_action port (nc_task_id c)
     (as_leased (renew_lease (nc_attempt_id c) (nc_lease_token c) (nc_renewal_sequence c)
       (nc_lease_expires_at c) now))"
  "svc_exec port (Svc_confirm d) now tid aid eid = put_action port (fc_task_id d)
     (as_view (confirm_cancel (fc_attempt_id d) (fc_lease_token d) now eid))"
  "svc_exec port (Svc_complete e) now tid aid eid = put_action port (oc_task_id e)
     (as_view (complete (oc_attempt_id e) (oc_lease_token e) (oc_result_fingerprint e)
       (oc_result_summary e) now eid))"
  "svc_exec port (Svc_fail g) now tid aid eid = put_action port (lc_task_id g)
     (as_view (fail (lc_attempt_id g) (lc_lease_token g) (lc_failure_category g)
       (lc_failure_code g) (lc_result_fingerprint g) (lc_retry_at g) now eid))"
  "svc_exec port (Svc_cancel h) now tid aid eid = once_action port ''cancel'' (cc_command_id h)
     (cc_task_id h) (request_cancel (cc_command_id h) now eid)"
  "svc_exec port (Svc_requeue k) now tid aid eid = once_action port ''requeue'' (qc_command_id k)
     (qc_task_id k) (requeue_due (qc_command_id k) now eid)"
  "svc_exec port (Svc_retry l) now tid aid eid = once_action port ''manual-retry'' (yc_command_id l)
     (yc_task_id l) (request_manual_retry (yc_command_id l) now eid)"
  "svc_exec port (Svc_recover m) now tid aid eid = once_action port ''recover'' (rc_command_id m)
     (rc_task_id m) (recover_expired_attempt (rc_command_id m) (rc_retry_at m) now (rc_attempt_id m) eid)"
  by (simp_all add: put_as_view put_as_leased once_action_def svc_renew_lease_def
      svc_confirm_cancellation_def svc_complete_def svc_fail_def svc_cancel_def svc_requeue_due_def
      svc_retry_def svc_recover_def cong: if_cong)

lemma svc_require_text_eq: "svc_require_text = require_text"
  by (simp add: fun_eq_iff svc_require_text_def require_text_def)

section \<open>Refinement\<close>

context task_repository
begin

definition sound :: "'s \<Rightarrow> bool" where
  \<comment> \<open>the store is consistent and every stored aggregate is reachable\<close>
  "sound s \<longleftrightarrow> ok s \<and> (\<forall>tid t. view s tid = Some t \<longrightarrow> task_reachable t)"

definition refines :: "'s \<Rightarrow> svc_outcome \<Rightarrow> 's \<times> (task_error + svc_result) \<Rightarrow> bool" where
  "refines s out res \<longleftrightarrow> sound (fst res) \<and> out = ((view (fst res), handled (fst res)), snd res)"

lemma svc_task_run:
  "ok s \<Longrightarrow> svc_task port tid s = (s, case view s tid of None \<Rightarrow> Inl TaskNotFoundError | Some t \<Rightarrow> Inr t)"
  by (simp add: svc_task_def bindA_readA get_for_update split: option.split)

lemma refines_stay: "sound s \<Longrightarrow> refines s ((view s, handled s), r) (s, r)"
  by (simp add: refines_def)

lemma sound_update:
  "sound s \<Longrightarrow> ok s' \<Longrightarrow> view s' = (view s)(tid \<mapsto> t') \<Longrightarrow> task_reachable t' \<Longrightarrow> sound s'"
  by (simp add: sound_def)

lemma put_refines:
  assumes s: "sound s" and fr: "op_ids opr eid \<inter> used s = {}"
    and f: "\<And>t t' x. f t = Inr (t', x) \<Longrightarrow> run_op opr now eid t = Inr t'"
  shows "refines s (spec_put tid f (view s, handled s)) (put_action port tid f s)"
proof -
  have ok: "ok s" using s by (simp add: sound_def)
  show ?thesis
  proof (cases "view s tid")
    case None
    then have "put_action port tid f s = (s, Inl TaskNotFoundError)"
      by (simp add: put_action_def svc_task_run [OF ok] bindA_step(2))
    with None s show ?thesis by (simp add: spec_put_def refines_stay)
  next
    case (Some t)
    then have run: "put_action port tid f s = bindA (liftA (f t)) (\<lambda>(t', x).
        bindA (svc_save port t' None) (\<lambda>_. returnA x)) s"
      by (simp add: put_action_def svc_task_run [OF ok] bindA_step(1))
    show ?thesis
    proof (cases "f t")
      case (Inl e)
      with Some run s show ?thesis by (simp add: spec_put_def refines_stay)
    next
      case (Inr p)
      obtain t' x where p: "p = (t', x)" by (cases p)
      have r: "task_reachable t" using s Some by (simp add: sound_def)
      from save_step [OF ok Some r f [OF Inr [unfolded p]] fr, of None] obtain s' where
        s': "rp_save port t' None s = Inr s'" "ok s'" "view s' = (view s)(tid \<mapsto> t')"
        "handled s' = handled s" "task_reachable t'" by auto
      then have "put_action port tid f s = (s', Inr x)"
        using run Inr p by (simp add: svc_save_def writeA_def bindA_def)
      moreover have "sound s'" by (rule sound_update [OF s s'(2,3,5)])
      ultimately show ?thesis using Some Inr p s' by (simp add: spec_put_def refines_def)
    qed
  qed
qed

lemma once_refines:
  assumes s: "sound s" and fr: "op_ids opr eid \<inter> used s = {}" and sup: "supplied s"
    and f: "\<And>t. f t = run_op opr now eid t" and ct: "trimmed ct"
  shows "refines s (spec_once ct cid tid f (view s, handled s)) (once_action port ct cid tid f s)"
proof -
  have ok: "ok s" using s by (simp add: sound_def)
  show ?thesis
  proof (cases "view s tid")
    case None
    then have "once_action port ct cid tid f s = (s, Inl TaskNotFoundError)"
      by (simp add: once_action_def svc_task_run [OF ok] bindA_step(2))
    with None s show ?thesis by (simp add: spec_once_def refines_stay)
  next
    case (Some t)
    have tid: "t_id t = tid" using view_ok [OF ok Some] by simp
    show ?thesis
    proof (cases "require_text cid")
      case (Inl e)
      with Some have "once_action port ct cid tid f s = (s, Inl e)"
        by (simp add: once_action_def svc_task_run [OF ok] svc_already_processed_def
            svc_require_text_eq bindA_def)
      with Inl Some s show ?thesis by (simp add: spec_once_def refines_stay)
    next
      case (Inr c)
      then have c: "trimmed c" by (auto simp: errE_simps)
      have run: "once_action port ct cid tid f s =
          (if (tid, ct, c) \<in> handled s then (s, Inr (Res_view (view_from_task t)))
           else bindA (liftA (f t)) (\<lambda>t'. bindA (svc_save_with_receipt port t' ct cid) (\<lambda>_.
             returnA (Res_view (view_from_task t')))) s)"
        using Some Inr tid
        by (simp add: once_action_def svc_task_run [OF ok] svc_already_processed_def
            svc_require_text_eq bindA_def [of "svc_task port tid"] bindA_def [of "bindA _ _"]
            has_processed [OF ok])
      show ?thesis
      proof (cases "(tid, ct, c) \<in> handled s")
        case True
        with run Some Inr s show ?thesis by (simp add: spec_once_def refines_stay)
      next
        case False
        show ?thesis
        proof (cases "f t")
          case (Inl e)
          with run False Some Inr s show ?thesis by (simp add: spec_once_def refines_stay)
        next
          case op: (Inr t')
          have r: "task_reachable t" using s Some by (simp add: sound_def)
          let ?rc = "\<lparr>cr_task_id = tid, cr_command_type = ct, cr_command_id = c\<rparr>"
          have "run_op opr now eid t = Inr t'" using op f by simp
          from save_step [OF ok Some r this fr, of "Some ?rc"] sup ct c obtain s' where
            s': "rp_save port t' (Some ?rc) s = Inr s'" "ok s'" "view s' = (view s)(tid \<mapsto> t')"
            "handled s' = insert (tid, ct, c) (handled s)" "task_reachable t'" "t_id t' = tid"
            by auto
          then have "once_action port ct cid tid f s = (s', Inr (Res_view (view_from_task t')))"
            using run False op Inr
            by (simp add: svc_save_with_receipt_def svc_require_text_eq svc_save_def writeA_def
                bindA_def)
          moreover have "sound s'" by (rule sound_update [OF s s'(2,3,5)])
          ultimately show ?thesis
            using Some Inr False op s' by (simp add: spec_once_def refines_def)
        qed
      qed
    qed
  qed
qed

lemma claim_refines:
  assumes s: "sound s" and fr: "{aid, eid} \<inter> used s = {}"
  shows "refines s (spec_claim c now aid eid (view s, handled s)) (resultA Res_leased (svc_claim port c now aid eid) s)"
proof -
  have ok: "ok s" using s by (simp add: sound_def)
  show ?thesis
  proof (cases "view s (mc_task_id c)")
    case None
    then have "resultA Res_leased (svc_claim port c now aid eid) s = (s, Inl TaskNotFoundError)"
      by (simp add: svc_claim_def svc_task_run [OF ok] bindA_step(2))
    with None s show ?thesis by (simp add: spec_claim_def refines_stay)
  next
    case (Some t)
    note task = svc_task_run [OF ok, of "mc_task_id c", unfolded Some, simplified]
    show ?thesis
    proof (cases "find_attempt_by_claim (mc_worker_id c) (mc_claim_id c) t")
      case (Inl e)
      with task have "resultA Res_leased (svc_claim port c now aid eid) s = (s, Inl e)"
        by (simp add: svc_claim_def bindA_step(1) [where m = "svc_task port (mc_task_id c)", OF task])
      with Inl Some s show ?thesis by (simp add: spec_claim_def refines_stay)
    next
      case (Inr existing)
      show ?thesis
      proof (cases existing)
        case a: (Some a)
        have "resultA Res_leased (svc_claim port c now aid eid) s
          = (s, bindE (require_text (mc_lease_token c)) (\<lambda>token.
               if a_lease_token a \<noteq> token then Inl TaskIdempotencyConflictError
               else Inr (Res_leased \<lparr>lr_task = view_from_task t, lr_lease = svc_lease a\<rparr>)))"
          using Inr a by (cases "require_text (mc_lease_token c)")
            (simp_all add: svc_claim_def bindA_step(1) [where m = "svc_task port (mc_task_id c)", OF task] svc_require_text_eq)
        with Inr a Some s show ?thesis by (simp add: spec_claim_def refines_stay)
      next
        case None
        let ?f = "as_leased (claim (mc_worker_id c) (mc_claim_id c) (mc_lease_token c)
            (mc_lease_expires_at c) now aid eid)"
        have "resultA Res_leased (svc_claim port c now aid eid) s = put_action port (mc_task_id c) ?f s"
          using Inr None by (simp add: svc_claim_def put_as_leased bindA_step(1) [where m = "svc_task port (mc_task_id c)", OF task])
        moreover have "refines s (spec_put (mc_task_id c) ?f (view s, handled s))
            (put_action port (mc_task_id c) ?f s)"
          by (rule put_refines [OF s, of "Op_claim (mc_worker_id c) (mc_claim_id c) (mc_lease_token c)
              (mc_lease_expires_at c) aid" eid _ now])
            (use fr in \<open>auto simp: op_ids_def as_leased_def errE_simps\<close>)
        ultimately show ?thesis using Inr None Some by (simp add: spec_claim_def)
      qed
    qed
  qed
qed

lemma submit_refines:
  assumes s: "sound s" and new: "view s tid = None" and fr: "eid \<notin> used s"
  shows "\<exists>out. spec_submit c now tid eid (view s, handled s) out
    \<and> refines s out (resultA Res_view (svc_submit port c now tid eid) s)"
proof -
  have ok: "ok s" using s by (simp add: sound_def)
  let ?mk = "create_task (sc_task_type c) (sc_owner_subject c) (sc_idempotency_key c)
            (sc_input_fingerprint c) (sc_max_attempts c) (sc_display_metadata c)
            (sc_allow_manual_retry c) now tid eid"
  show ?thesis
  proof (cases ?mk)
    case (Inl e)
    then have "resultA Res_view (svc_submit port c now tid eid) s = (s, Inl e)"
      by (simp add: svc_submit_def)
    with Inl s show ?thesis
      by (intro exI [of _ "((view s, handled s), Inl e)"]) (simp add: spec_submit_def refines_stay)
  next
    case (Inr t)
    have r: "task_reachable t" by (rule task_reachable.created [OF Inr])
    from create_task_returns [OF Inr] obtain ev where
      t: "t_id t = tid" "t_attempts t = []" "t_events t = [ev]" "e_id ev = eid" by cases simp
    have run: "resultA Res_view (svc_submit port c now tid eid) s =
        bindA (writeA (rp_create_or_get_submission port t)) (\<lambda>p.
          resultA Res_view (if t_input_fingerprint p \<noteq> t_input_fingerprint t
            then liftA (Inl TaskIdempotencyConflictError) else returnA (view_from_task p))) s"
      using Inr by (simp add: svc_submit_def)
    show ?thesis
    proof (cases "\<exists>i u. view s i = Some u \<and> submission_key u = submission_key t")
      case True
      then obtain i u where u: "view s i = Some u" "submission_key u = submission_key t" by blast
      from submit_existing [OF ok _ u] t have w: "rp_create_or_get_submission port t s = Inr (s, u)" by simp
      let ?out = "if t_input_fingerprint u \<noteq> t_input_fingerprint t then Inl TaskIdempotencyConflictError
          else Inr (Res_view (view_from_task u))"
      have "resultA Res_view (svc_submit port c now tid eid) s = (s, ?out)"
        by (simp add: run bindA_step(1) [where m = "writeA (rp_create_or_get_submission port t)", OF writeA_Inr [where g = "rp_create_or_get_submission port t", OF w]])
      with s u Inr show ?thesis
        by (intro exI [of _ "((view s, handled s), ?out)"]) (auto simp: spec_submit_def refines_stay)
    next
      case False
      from submit_new [OF ok reachable_storable [OF r], of ev] t new fr False obtain s' where
        s': "rp_create_or_get_submission port t s = Inr (s', t)" "ok s'" "view s' = (view s)(tid \<mapsto> t)"
        "handled s' = handled s" by auto
      have "resultA Res_view (svc_submit port c now tid eid) s = (s', Inr (Res_view (view_from_task t)))"
        by (simp add: run bindA_step(1) [where m = "writeA (rp_create_or_get_submission port t)", OF writeA_Inr [where g = "rp_create_or_get_submission port t", OF s'(1)]])
      moreover have "sound s'" by (rule sound_update [OF s s'(2,3) r])
      ultimately show ?thesis
        using Inr False s' by (intro exI [of _ "(((view s)(tid \<mapsto> t), handled s), Inr (Res_view (view_from_task t)))"])
          (auto simp: spec_submit_def refines_def)
    qed
  qed
qed

lemma exec_refines:
  assumes "sound s" "{aid, eid} \<inter> used s = {}" "view s tid = None" "supplied s"
  shows "\<exists>out. spec_exec cmd now tid aid eid (view s, handled s) out
    \<and> refines s out (svc_exec port cmd now tid aid eid s)"
proof (cases cmd)
  case (Svc_submit c)
  with submit_refines [OF assms(1,3), of eid c now] assms(2) show ?thesis by auto
next
  case (Svc_claim c)
  with claim_refines [OF assms(1,2)] show ?thesis by simp
next
  case (Svc_renew c)
  show ?thesis unfolding Svc_renew exec_shapes
    by (intro exI conjI, simp, rule put_refines [OF assms(1), of "Op_renew (nc_attempt_id c)
        (nc_lease_token c) (nc_renewal_sequence c) (nc_lease_expires_at c)" eid _ now])
      (use assms(2) in \<open>auto simp: op_ids_def as_leased_def errE_simps\<close>)
next
  case (Svc_cancel c)
  show ?thesis unfolding Svc_cancel exec_shapes
    by (intro exI conjI, simp, rule once_refines [OF assms(1) _ assms(4), of "Op_cancel (cc_command_id c)" eid _ now])
      (use assms(2) in \<open>auto simp: op_ids_def trimmed_def py_space_def\<close>)
next
  case (Svc_confirm c)
  show ?thesis unfolding Svc_confirm exec_shapes
    by (intro exI conjI, simp, rule put_refines [OF assms(1), of "Op_confirm (fc_attempt_id c)
        (fc_lease_token c)" eid _ now])
      (use assms(2) in \<open>auto simp: op_ids_def as_view_def errE_simps\<close>)
next
  case (Svc_complete c)
  show ?thesis unfolding Svc_complete exec_shapes
    by (intro exI conjI, simp, rule put_refines [OF assms(1), of "Op_complete (oc_attempt_id c)
        (oc_lease_token c) (oc_result_fingerprint c) (oc_result_summary c)" eid _ now])
      (use assms(2) in \<open>auto simp: op_ids_def as_view_def errE_simps\<close>)
next
  case (Svc_fail c)
  show ?thesis unfolding Svc_fail exec_shapes
    by (intro exI conjI, simp, rule put_refines [OF assms(1), of "Op_fail (lc_attempt_id c)
        (lc_lease_token c) (lc_failure_category c) (lc_failure_code c) (lc_result_fingerprint c)
        (lc_retry_at c)" eid _ now])
      (use assms(2) in \<open>auto simp: op_ids_def as_view_def errE_simps\<close>)
next
  case (Svc_requeue c)
  show ?thesis unfolding Svc_requeue exec_shapes
    by (intro exI conjI, simp, rule once_refines [OF assms(1) _ assms(4), of "Op_requeue (qc_command_id c)" eid _ now])
      (use assms(2) in \<open>auto simp: op_ids_def trimmed_def py_space_def\<close>)
next
  case (Svc_retry c)
  show ?thesis unfolding Svc_retry exec_shapes
    by (intro exI conjI, simp, rule once_refines [OF assms(1) _ assms(4), of "Op_retry (yc_command_id c)" eid _ now])
      (use assms(2) in \<open>auto simp: op_ids_def trimmed_def py_space_def\<close>)
next
  case (Svc_recover c)
  show ?thesis unfolding Svc_recover exec_shapes
    by (intro exI conjI, simp, rule once_refines [OF assms(1) _ assms(4), of "Op_recover (rc_command_id c)
        (rc_retry_at c) (rc_attempt_id c)" eid _ now])
      (use assms(2) in \<open>auto simp: op_ids_def trimmed_def py_space_def\<close>)
qed

end

end
