(* ===== verification/Task_Postgres.thy ===== *)
theory Task_Postgres
  imports Task_Store_Facts Task_Service_Spec
begin

text \<open>
  Reading and writing through the PostgreSQL adapter: a load returns the stored aggregate, a save
  replaces exactly that aggregate and keeps the invariant of the tables, a submission inserts the
  aggregate or returns the one with the same key. The contract of the port is interpreted on the
  adapter at the end.
\<close>

section \<open>Loading\<close>

lemma db_ok_row:
  assumes "db_ok db" "r \<in> set (db_tasks db)"
  obtains t where "r = task_to_record t" "represents db t"
  using assms by (auto simp: db_ok_def)

definition pg_view :: "task_db \<Rightarrow> uuid \<Rightarrow> task option" where
  "pg_view db tid = (case pg_load tid db of Inr (Some t) \<Rightarrow> Some t | _ \<Rightarrow> None)"

lemma from_record_represents:
  "represents db t \<Longrightarrow> from_task_record db (task_to_record t) = Inr t"
  by (simp add: from_task_record_def represents_def storable_def task_roundtrip)

lemma load_first_stored:
  assumes "db_ok db" "set rs \<subseteq> set (db_tasks db)"
  shows "load_first db rs = Inr None \<and> rs = []
    \<or> (\<exists>t. load_first db rs = Inr (Some t) \<and> represents db t \<and> task_to_record t = hd rs \<and> rs \<noteq> [])"
proof (cases rs)
  case (Cons r rest)
  with assms obtain t where "r = task_to_record t" "represents db t" by (auto simp: db_ok_def)
  with Cons show ?thesis by (simp add: load_first_def from_record_represents)
qed (simp add: load_first_def)

lemma pg_load_row:
  assumes "db_ok db" "represents db t" "task_to_record t \<in> set (db_tasks db)"
  shows "pg_load (t_id t) db = Inr (Some t)"
proof -
  have "filter (\<lambda>r. tr_id r = t_id t) (db_tasks db) = [task_to_record t]"
    using unique_row [of tr_id "db_tasks db" "task_to_record t"] assms by (simp add: db_ok_def)
  with assms(2) show ?thesis by (simp add: pg_load_def load_first_def from_record_represents)
qed

lemma pg_load_view: "db_ok db \<Longrightarrow> pg_load tid db = Inr (pg_view db tid)"
  using load_first_stored [of db "filter (\<lambda>r. tr_id r = tid) (db_tasks db)"]
  by (auto simp: pg_view_def pg_load_def)

lemma pg_view_iff:
  assumes "db_ok db"
  shows "pg_view db tid = Some t \<longleftrightarrow>
    t_id t = tid \<and> represents db t \<and> task_to_record t \<in> set (db_tasks db)"
proof
  assume v: "pg_view db tid = Some t"
  let ?rs = "filter (\<lambda>r. tr_id r = tid) (db_tasks db)"
  have "pg_load tid db = Inr (Some t)" using pg_load_view [OF assms] v by simp
  then have rep: "represents db t" and hd: "task_to_record t = hd ?rs" "?rs \<noteq> []"
    using load_first_stored [OF assms, of ?rs] by (auto simp: pg_load_def)
  have "task_to_record t \<in> set ?rs" unfolding hd(1) using hd(2) by (rule hd_in_set)
  with rep show "t_id t = tid \<and> represents db t \<and> task_to_record t \<in> set (db_tasks db)" by simp
next
  assume "t_id t = tid \<and> represents db t \<and> task_to_record t \<in> set (db_tasks db)"
  then show "pg_view db tid = Some t" using pg_load_row [OF assms] by (auto simp: pg_view_def)
qed

lemma pg_view_None:
  assumes "db_ok db"
  shows "pg_view db tid = None \<longleftrightarrow> tid \<notin> tr_id ` set (db_tasks db)"
proof
  assume "pg_view db tid = None"
  then show "tid \<notin> tr_id ` set (db_tasks db)"
    using stored_task [OF assms, of tid] pg_view_iff [OF assms, of tid] by force
next
  assume "tid \<notin> tr_id ` set (db_tasks db)"
  then show "pg_view db tid = None"
    using pg_view_iff [OF assms, of tid] by (cases "pg_view db tid") force+
qed

lemma pg_view_cong:
  assumes "db_ok db" "db_ok db'"
    "\<And>t. t_id t = tid \<Longrightarrow> represents db t \<and> task_to_record t \<in> set (db_tasks db)
       \<longleftrightarrow> represents db' t \<and> task_to_record t \<in> set (db_tasks db')"
  shows "pg_view db tid = pg_view db' tid"
proof (rule option.expand)
  show "(pg_view db tid = None) = (pg_view db' tid = None)"
    using pg_view_iff [OF assms(1), of tid] pg_view_iff [OF assms(2), of tid] assms(3)
    by (cases "pg_view db tid"; cases "pg_view db' tid") auto
  show "the (pg_view db tid) = the (pg_view db' tid)"
    if "pg_view db tid \<noteq> None" "pg_view db' tid \<noteq> None"
    using that pg_view_iff [OF assms(1), of tid] pg_view_iff [OF assms(2), of tid] assms(3) by force
qed

section \<open>Saving attempts\<close>

definition upd_row :: "uuid \<Rightarrow> attempt_record \<Rightarrow> task_attempt \<Rightarrow> attempt_record" where
  "upd_row tid r a =
     (if ar_id r = a_id a \<and> ar_task_id r = tid then update_attempt_record r a else r)"

lemma upd_row_keys [simp]:
  "ar_id (upd_row tid r a) = ar_id r" "ar_task_id (upd_row tid r a) = ar_task_id r"
  by (simp_all add: upd_row_def update_attempt_record_def)

lemma upd_rows_keys [simp]:
  "ar_id (foldl (upd_row tid) r as) = ar_id r" "ar_task_id (foldl (upd_row tid) r as) = ar_task_id r"
  by (induction as arbitrary: r) simp_all

lemma upd_rows_other:
  "ar_id r \<notin> a_id ` set as \<or> ar_task_id r \<noteq> tid \<Longrightarrow> foldl (upd_row tid) r as = r"
proof (induction as)
  case (Cons a as)
  then have "upd_row tid r a = r" by (auto simp: upd_row_def)
  with Cons show ?case by auto
qed simp

lemma upd_rows_found:
  assumes "distinct (map a_id as)" "b \<in> set as" "ar_id r = a_id b" "ar_task_id r = tid"
  shows "foldl (upd_row tid) r as = update_attempt_record r b"
  using assms
proof (induction as)
  case (Cons a as)
  show ?case
  proof (cases "a_id a = a_id b")
    case True
    with Cons.prems have "a = b" by (auto simp: rev_image_eqI)
    moreover have "ar_id (update_attempt_record r b) = ar_id r"
      by (simp add: update_attempt_record_def)
    moreover have "upd_row tid r b = update_attempt_record r b"
      using Cons.prems(3,4) by (simp add: upd_row_def)
    ultimately show ?thesis
      using Cons.prems upd_rows_other [of "update_attempt_record r b" as tid] by simp
  next
    case False
    with Cons.prems have "b \<in> set as" "upd_row tid r a = r" by (auto simp: upd_row_def)
    with Cons show ?thesis by simp
  qed
qed simp

lemma save_attempt_fold:
  "foldl (save_attempt tid ids) rows as =
     map (\<lambda>r. foldl (upd_row tid) r (filter (\<lambda>a. a_id a \<in> ids) as)) rows
     @ map attempt_to_record (filter (\<lambda>a. a_id a \<notin> ids) as)"
proof (induction as rule: rev_induct)
  case (snoc a as)
  have "upd_row tid (attempt_to_record b) a = attempt_to_record b"
    if "a_id a \<in> ids" "a_id b \<notin> ids" for b
    using that by (auto simp: upd_row_def)
  then show ?case
    using snoc by (auto simp: save_attempt_def upd_row_def [symmetric])
qed simp

lemma evolve_ids:
  assumes "attempts_evolve A0 A"
  shows "map a_id (take (length A0) A) = map a_id A0"
  using assms by (intro nth_equalityI) (auto simp: attempts_evolve_def same_attempt_def)

lemma evolve_split:
  assumes "attempts_evolve A0 A" "distinct (map a_id A)"
  shows "filter (\<lambda>a. a_id a \<in> a_id ` set A0) A = take (length A0) A"
    "filter (\<lambda>a. a_id a \<notin> a_id ` set A0) A = drop (length A0) A"
proof -
  let ?k = "length A0"
  have img: "a_id ` set A0 = a_id ` set (take ?k A)"
    using evolve_ids [OF assms(1)] by (metis list.set_map)
  have "distinct (map a_id (take ?k A) @ map a_id (drop ?k A))"
    using assms(2) by (metis append_take_drop_id map_append)
  then have dis: "a_id ` set (take ?k A) \<inter> a_id ` set (drop ?k A) = {}" by simp
  have sp: "A = take ?k A @ drop ?k A" by simp
  have "filter (\<lambda>a. a_id a \<in> a_id ` set A0) (take ?k A @ drop ?k A) = take ?k A"
    "filter (\<lambda>a. a_id a \<notin> a_id ` set A0) (take ?k A @ drop ?k A) = drop ?k A"
    using dis unfolding img filter_append
    by (auto simp: filter_id_conv filter_empty_conv disjoint_iff)
  then show "filter (\<lambda>a. a_id a \<in> a_id ` set A0) A = take ?k A"
    "filter (\<lambda>a. a_id a \<notin> a_id ` set A0) A = drop ?k A" by simp_all
qed

lemma upd_stored_rows:
  assumes ev: "attempts_evolve A0 A" and dis: "distinct (map a_id A)"
    and own: "\<forall>a \<in> set A0. a_task_id a = tid"
  shows "map (\<lambda>r. foldl (upd_row tid) r (take (length A0) A)) (map attempt_to_record A0)
    = map attempt_to_record (take (length A0) A)"
proof (rule nth_equalityI)
  let ?k = "length A0"
  have len: "?k \<le> length A" using ev by (simp add: attempts_evolve_def)
  then show "length (map (\<lambda>r. foldl (upd_row tid) r (take ?k A)) (map attempt_to_record A0))
    = length (map attempt_to_record (take ?k A))" by simp
  fix i assume "i < length (map (\<lambda>r. foldl (upd_row tid) r (take ?k A)) (map attempt_to_record A0))"
  then have i: "i < ?k" by simp
  have same: "same_attempt (A0 ! i) (A ! i)" using ev i by (simp add: attempts_evolve_def)
  have mem: "A ! i \<in> set (take ?k A)" using i len by (auto simp: in_set_conv_nth)
  have "distinct (map a_id (take ?k A))" using dis by (simp add: distinct_take take_map [symmetric])
  moreover have "ar_id (attempt_to_record (A0 ! i)) = a_id (A ! i)"
    "ar_task_id (attempt_to_record (A0 ! i)) = tid"
    using same own i by (simp_all add: same_attempt_def)
  ultimately have "foldl (upd_row tid) (attempt_to_record (A0 ! i)) (take ?k A)
      = attempt_to_record (A ! i)"
    using upd_rows_found [OF _ mem] same by (simp add: update_attempt_record_same)
  then show "map (\<lambda>r. foldl (upd_row tid) r (take ?k A)) (map attempt_to_record A0) ! i
    = map attempt_to_record (take ?k A) ! i" using i len by simp
qed

lemma rows_of_task:
  assumes "db_ok db" "represents db t"
  shows "mset (filter (\<lambda>r. ar_task_id r = t_id t) (db_attempts db)) = mset (map attempt_to_record (t_attempts t))"
    "mset (filter (\<lambda>r. er_task_id r = t_id t) (db_events db)) = mset (map event_to_record (t_events t))"
  using assms(2) sorted_rows [of db "t_id t"] by (simp_all add: represents_def)

lemma numbered_rows:
  assumes "wf_task t"
  shows "numbered_from_1 (map (ar_number \<circ> attempt_to_record) (t_attempts t))"
    "numbered_from_1 (map (er_sequence \<circ> event_to_record) (t_events t))"
  using assms by (simp_all add: wf_task_def wf_attempts_def wf_events_def comp_def)

section \<open>Saving a task\<close>

definition saved :: "task \<Rightarrow> task_db \<Rightarrow> task_db" where
  \<comment> \<open>the rows a save writes, before the receipt\<close>
  "saved t db =
     db\<lparr>db_tasks := map (\<lambda>r. if tr_id r = t_id t then update_task_record r t else r) (db_tasks db),
       db_attempts := save_attempts (t_id t) (t_attempts t) (db_attempts db),
       db_events := save_events (t_id t) (t_events t) (db_events db)\<rparr>"

lemma stored_ids:
  assumes "db_ok db" "represents db t"
  shows "ar_id ` set (filter (\<lambda>r. ar_task_id r = t_id t) (db_attempts db)) = a_id ` set (t_attempts t)"
    "er_id ` set (filter (\<lambda>r. er_task_id r = t_id t) (db_events db)) = e_id ` set (t_events t)"
  using mset_eq_setD [OF rows_of_task(1) [OF assms]] mset_eq_setD [OF rows_of_task(2) [OF assms]]
  by (simp_all add: image_image)

lemma saved_attempts:
  assumes ok: "db_ok db" and rep: "represents db t" and id: "t_id u = t_id t"
    and ev: "attempts_evolve (t_attempts t) (t_attempts u)" and wf: "wf_task u"
  shows "db_attempts (saved u db) =
      map (\<lambda>r. foldl (upd_row (t_id t)) r (take (length (t_attempts t)) (t_attempts u))) (db_attempts db)
      @ map attempt_to_record (drop (length (t_attempts t)) (t_attempts u))"
proof -
  have "distinct (map a_id (t_attempts u))" using wf by (simp add: wf_task_def wf_attempts_def)
  from evolve_split [OF ev this] show ?thesis
    using stored_ids(1) [OF ok rep]
    by (simp add: saved_def save_attempts_def save_attempt_fold id)
qed

lemma saved_events:
  assumes "db_ok db" "represents db t" "t_id u = t_id t" "t_events u = t_events t @ es"
    "distinct (map e_id (t_events u))"
  shows "db_events (saved u db) = db_events db @ map event_to_record es"
proof -
  have "filter (\<lambda>e. e_id e \<notin> e_id ` set (t_events t)) (t_events u) = es"
    using assms(4,5) by (auto simp: filter_empty_conv filter_id_conv)
  then show ?thesis
    using stored_ids(2) [OF assms(1,2)] by (simp add: saved_def save_events_def assms(3))
qed

lemma saved_this:
  assumes ok: "db_ok db" and rep: "represents db t" and ext: "extends_task t u" and st: "storable u"
    and dis: "distinct (map e_id (t_events u))"
  shows "represents (saved u db) u"
proof -
  have id: "t_id u = t_id t" and ev: "attempts_evolve (t_attempts t) (t_attempts u)"
    using ext by (simp_all add: extends_task_def same_task_def)
  obtain es where es: "t_events u = t_events t @ es" using ext by (auto simp: extends_task_def)
  have wf: "wf_task u" using st by (simp add: storable_def)
  let ?k = "length (t_attempts t)" and ?f = "\<lambda>r. ar_task_id r = t_id t"
  let ?up = "\<lambda>r. foldl (upd_row (t_id t)) r (take ?k (t_attempts u))"
  have own: "\<forall>a \<in> set (t_attempts t). a_task_id a = t_id t"
    "\<forall>a \<in> set (t_attempts u). a_task_id a = t_id t" "\<forall>e \<in> set (t_events u). e_task_id e = t_id t"
    using rep wf id by (auto simp: represents_def storable_def wf_task_def wf_attempts_def wf_events_def)
  have dis_a: "distinct (map a_id (t_attempts u))" using wf by (simp add: wf_task_def wf_attempts_def)
  have new_own: "filter ?f (map attempt_to_record (drop ?k (t_attempts u)))
      = map attempt_to_record (drop ?k (t_attempts u))"
    using own(2) by (auto simp: filter_id_conv dest: in_set_dropD)
  have "mset (filter ?f (db_attempts (saved u db)))
      = mset (map ?up (filter ?f (db_attempts db))) + mset (map attempt_to_record (drop ?k (t_attempts u)))"
    unfolding saved_attempts [OF ok rep id ev wf] filter_append new_own
    by (simp add: filter_map comp_def)
  also have "mset (map ?up (filter ?f (db_attempts db))) = mset (map ?up (map attempt_to_record (t_attempts t)))"
    using rows_of_task(1) [OF ok rep] by (metis mset_map)
  also have "\<dots> = mset (map attempt_to_record (take ?k (t_attempts u)))"
    unfolding upd_stored_rows [OF ev dis_a own(1)] by simp
  also have "\<dots> + mset (map attempt_to_record (drop ?k (t_attempts u)))
      = mset (map attempt_to_record (t_attempts u))"
    by (metis append_take_drop_id map_append mset_append)
  finally have a: "attempts_of (saved u db) (t_id u) = map attempt_to_record (t_attempts u)"
    unfolding attempts_of_def id by (intro sort_numbered numbered_rows(1) [OF wf])
  have "mset (filter (\<lambda>r. er_task_id r = t_id t) (db_events (saved u db)))
      = mset (map event_to_record (t_events t)) + mset (map event_to_record es)"
    using own(3) rows_of_task(2) [OF ok rep] es
    by (simp add: saved_events [OF ok rep id es dis] filter_map comp_def)
  then have "events_of (saved u db) (t_id u) = map event_to_record (t_events u)"
    unfolding events_of_def id
    by (intro sort_numbered numbered_rows(2) [OF wf]) (simp add: es)
  with a st show ?thesis by (simp add: represents_def)
qed

lemma saved_other:
  assumes ok: "db_ok db" and rep: "represents db t" and ext: "extends_task t u" and st: "storable u"
    and dis: "distinct (map e_id (t_events u))" and tid: "tid \<noteq> t_id u"
  shows "attempts_of (saved u db) tid = attempts_of db tid \<and> events_of (saved u db) tid = events_of db tid"
proof -
  have id: "t_id u = t_id t" and ev: "attempts_evolve (t_attempts t) (t_attempts u)"
    using ext by (simp_all add: extends_task_def same_task_def)
  obtain es where es: "t_events u = t_events t @ es" using ext by (auto simp: extends_task_def)
  have wf: "wf_task u" using st by (simp add: storable_def)
  have own: "\<forall>a \<in> set (t_attempts u). a_task_id a = t_id t" "\<forall>e \<in> set es. e_task_id e = t_id t"
    using wf id es by (auto simp: wf_task_def wf_attempts_def wf_events_def)
  let ?up = "\<lambda>r. foldl (upd_row (t_id t)) r (take (length (t_attempts t)) (t_attempts u))"
  have "filter (\<lambda>r. ar_task_id r = tid) (db_attempts (saved u db))
      = map ?up (filter (\<lambda>r. ar_task_id r = tid) (db_attempts db))"
    using own(1) tid
    by (auto simp: saved_attempts [OF ok rep id ev wf] filter_map comp_def filter_empty_conv id
        dest: in_set_dropD)
  also have "\<dots> = filter (\<lambda>r. ar_task_id r = tid) (db_attempts db)"
    using tid by (intro map_idI) (auto intro!: upd_rows_other simp: id)
  moreover have "filter (\<lambda>r. er_task_id r = tid) (db_events (saved u db))
      = filter (\<lambda>r. er_task_id r = tid) (db_events db)"
    using own(2) tid
    by (auto simp: saved_events [OF ok rep id es dis] filter_map comp_def filter_empty_conv id)
  ultimately show ?thesis by (simp add: attempts_of_def events_of_def)
qed

definition pg_used :: "task_db \<Rightarrow> uuid set" where
  "pg_used db = ar_id ` set (db_attempts db) \<union> er_id ` set (db_events db)"

definition pg_handled :: "task_db \<Rightarrow> (uuid \<times> string \<times> string) set" where
  "pg_handled db = (\<lambda>r. (rr_task_id r, rr_command_type r, rr_command_id r)) ` set (db_receipts db)"

definition pg_supplied :: "task_db \<Rightarrow> bool" where
  \<comment> \<open>the next \<open>uuid4\<close> is not the id of a stored receipt\<close>
  "pg_supplied db \<longleftrightarrow> db_uuid4 db (db_drawn db) \<notin> rr_id ` set (db_receipts db)"

lemma update_task_keys [simp]:
  "tr_id (update_task_record r t) = tr_id r" "tr_owner_subject (update_task_record r t) = tr_owner_subject r"
  "tr_task_type (update_task_record r t) = tr_task_type r"
  "tr_idempotency_key (update_task_record r t) = tr_idempotency_key r"
  by (simp_all add: update_task_record_def)

lemma saved_keys:
  "map tr_id (db_tasks (saved u db)) = map tr_id (db_tasks db)"
  "map (\<lambda>r. (tr_owner_subject r, tr_task_type r, tr_idempotency_key r)) (db_tasks (saved u db))
     = map (\<lambda>r. (tr_owner_subject r, tr_task_type r, tr_idempotency_key r)) (db_tasks db)"
  by (auto simp: saved_def)

lemma saved_rows:
  assumes ok: "db_ok db" and row: "task_to_record t \<in> set (db_tasks db)" and same: "same_task t u"
    and r: "r \<in> set (db_tasks (saved u db))"
  shows "r = task_to_record u \<or> r \<in> set (db_tasks db) \<and> tr_id r \<noteq> t_id u"
proof -
  from r obtain r0 where r0: "r0 \<in> set (db_tasks db)"
    "r = (if tr_id r0 = t_id u then update_task_record r0 u else r0)" by (auto simp: saved_def)
  have "inj_on tr_id (set (db_tasks db))" using ok by (simp add: db_ok_def distinct_map)
  from inj_onD [OF this _ r0(1) row] have "r0 = task_to_record t" if "tr_id r0 = t_id u"
    using that same by (simp add: same_task_def)
  with r0 update_task_record_same [OF same] show ?thesis by (cases "tr_id r0 = t_id u") auto
qed

lemma saved_ok:
  assumes ok: "db_ok db" and rep: "represents db t" and row: "task_to_record t \<in> set (db_tasks db)"
    and ext: "extends_task t u" and st: "storable u" and dis: "distinct (map e_id (t_events u))"
    and new: "new_ids t u \<inter> pg_used db = {}"
  shows "db_ok (saved u db)"
proof -
  have id: "t_id u = t_id t" and ev: "attempts_evolve (t_attempts t) (t_attempts u)" and same: "same_task t u"
    using ext by (simp_all add: extends_task_def same_task_def)
  obtain es where es: "t_events u = t_events t @ es" using ext by (auto simp: extends_task_def)
  have wf: "wf_task u" using st by (simp add: storable_def)
  let ?k = "length (t_attempts t)"
  have dis_a: "distinct (map a_id (t_attempts u))" using wf by (simp add: wf_task_def wf_attempts_def)
  note sa = saved_attempts [OF ok rep id ev wf] and se = saved_events [OF ok rep id es dis]
  have tids: "tr_id ` set (db_tasks (saved u db)) = tr_id ` set (db_tasks db)"
    using saved_keys(1) [of u db] by (metis list.set_map)
  have mem: "t_id t \<in> tr_id ` set (db_tasks db)" using row by force
  have own: "\<forall>a \<in> set (t_attempts u). a_task_id a = t_id t" "\<forall>e \<in> set es. e_task_id e = t_id t"
    using wf id es by (auto simp: wf_task_def wf_attempts_def wf_events_def)
  have fresh_a: "a_id a \<notin> ar_id ` set (db_attempts db)" if "a \<in> set (drop ?k (t_attempts u))" for a
  proof -
    from that have "a \<in> set (filter (\<lambda>a. a_id a \<notin> a_id ` set (t_attempts t)) (t_attempts u))"
      unfolding evolve_split(2) [OF ev dis_a] .
    with new show ?thesis by (auto simp: new_ids_def pg_used_def)
  qed
  have fresh_e: "e_id e \<notin> er_id ` set (db_events db)" if "e \<in> set es" for e
  proof -
    from that dis es have "e \<in> set (t_events u)" "e_id e \<notin> e_id ` set (t_events t)" by auto
    with new show ?thesis by (auto simp: new_ids_def pg_used_def)
  qed
  have "distinct (map a_id (drop ?k (t_attempts u)))" using dis_a by (metis distinct_drop drop_map)
  then have "distinct (map ar_id (db_attempts (saved u db)))"
    using ok fresh_a unfolding sa by (simp add: db_ok_def comp_def disjoint_iff) blast
  moreover have "distinct (map er_id (db_events (saved u db)))"
    using ok fresh_e dis es unfolding se by (simp add: db_ok_def comp_def disjoint_iff) blast
  moreover have "\<forall>r \<in> set (db_attempts (saved u db)). ar_task_id r \<in> tr_id ` set (db_tasks db)"
    using ok own(1) mem unfolding sa by (auto simp: db_ok_def dest: in_set_dropD)
  moreover have "\<forall>r \<in> set (db_events (saved u db)). er_task_id r \<in> tr_id ` set (db_tasks db)"
    using ok own(2) mem unfolding se by (auto simp: db_ok_def)
  moreover have "\<exists>v. r = task_to_record v \<and> represents (saved u db) v"
    if r: "r \<in> set (db_tasks (saved u db))" for r
    using saved_rows [OF ok row same r]
  proof
    assume "r = task_to_record u"
    with saved_this [OF ok rep ext st dis] show ?thesis by blast
  next
    assume "r \<in> set (db_tasks db) \<and> tr_id r \<noteq> t_id u"
    moreover from this ok obtain v where "r = task_to_record v" "represents db v"
      by (auto simp: db_ok_def)
    ultimately show ?thesis
      using saved_other [OF ok rep ext st dis, of "t_id v"] by (auto simp: represents_def)
  qed
  moreover have "db_receipts (saved u db) = db_receipts db" by (simp add: saved_def)
  ultimately show ?thesis using ok tids by (simp add: db_ok_def saved_keys)
qed

lemma represents_tables:
  "db_attempts db = db_attempts db' \<Longrightarrow> db_events db = db_events db' \<Longrightarrow> represents db t = represents db' t"
  by (simp add: represents_def attempts_of_def events_of_def)

lemma receipt_ok:
  assumes "db_ok db" "trimmed ct" "trimmed cid" "tid \<in> tr_id ` set (db_tasks db)" "pg_supplied db"
  shows "db_ok (add_receipt tid ct cid db)"
proof -
  have "represents (add_receipt tid ct cid db) t = represents db t" for t
    by (rule represents_tables) (simp_all add: add_receipt_def)
  then show ?thesis
    using assms by (auto simp: add_receipt_def db_ok_def receipt_table_ok_def list_all_iff list_ex_iff
        receipt_row_ok_def trimmed_btrim pg_supplied_def)
qed

lemma add_receipt_frame [simp]:
  "db_tasks (add_receipt tid ct cid db) = db_tasks db"
  "db_attempts (add_receipt tid ct cid db) = db_attempts db"
  "db_events (add_receipt tid ct cid db) = db_events db"
  "pg_handled (add_receipt tid ct cid db) = insert (tid, ct, cid) (pg_handled db)"
  by (force simp: add_receipt_def pg_handled_def list_ex_iff)+

lemma pg_view_tables:
  assumes "db_tasks db = db_tasks db'" "db_attempts db = db_attempts db'" "db_events db = db_events db'"
  shows "pg_view db = pg_view db'"
proof -
  have "from_task_record db = from_task_record db'"
    using assms by (simp add: fun_eq_iff from_task_record_def attempts_of_def events_of_def)
  then have "load_first db = load_first db'" by (intro ext) (simp add: load_first_def split: list.split)
  with assms show ?thesis by (simp add: fun_eq_iff pg_view_def pg_load_def)
qed

lemma saved_view:
  assumes ok: "db_ok db" and rep: "represents db t" and row: "task_to_record t \<in> set (db_tasks db)"
    and ext: "extends_task t u" and st: "storable u" and dis: "distinct (map e_id (t_events u))"
    and new: "new_ids t u \<inter> pg_used db = {}"
  shows "pg_view (saved u db) = (pg_view db)(t_id u \<mapsto> u)"
proof
  fix tid
  have same: "same_task t u" "t_id u = t_id t" using ext by (simp_all add: extends_task_def same_task_def)
  have ok': "db_ok (saved u db)" by (rule saved_ok [OF assms])
  show "pg_view (saved u db) tid = ((pg_view db)(t_id u \<mapsto> u)) tid"
  proof (cases "tid = t_id u")
    case True
    have "task_to_record u \<in> set (db_tasks (saved u db))"
      using row update_task_record_same [OF same(1)] same(2) by (force simp: saved_def)
    with True saved_this [OF ok rep ext st dis] pg_view_iff [OF ok', of "t_id u" u] show ?thesis by simp
  next
    case False
    have "task_to_record v \<in> set (db_tasks (saved u db)) \<longleftrightarrow> task_to_record v \<in> set (db_tasks db)"
      if "t_id v = tid" for v
      using that False map_if_other [of tr_id "\<lambda>r. update_task_record r u" "task_to_record v" "t_id u"]
      by (simp add: saved_def)
    moreover have "represents (saved u db) v = represents db v" if "t_id v = tid" for v
      using that False saved_other [OF ok rep ext st dis, of tid] by (simp add: represents_def)
    ultimately show ?thesis
      using False pg_view_cong [OF ok' ok, of tid] by auto
  qed
qed

lemma union_absorb:
  "A0 \<subseteq> A \<Longrightarrow> E0 \<subseteq> E \<Longrightarrow> (A \<union> D) \<union> (E \<union> F) = (A \<union> E) \<union> ((A0 \<union> D) \<union> (E0 \<union> F))"
  by blast

lemma saved_used:
  assumes "db_ok db" "represents db t" "extends_task t u" "storable u" "distinct (map e_id (t_events u))"
  shows "pg_used (saved u db) = pg_used db \<union> task_ids u"
proof -
  have id: "t_id u = t_id t" and ev: "attempts_evolve (t_attempts t) (t_attempts u)"
    using assms(3) by (simp_all add: extends_task_def same_task_def)
  obtain es where es: "t_events u = t_events t @ es" using assms(3) by (auto simp: extends_task_def)
  have wf: "wf_task u" using assms(4) by (simp add: storable_def)
  let ?k = "length (t_attempts t)"
  have a: "a_id ` set (t_attempts u) = a_id ` set (t_attempts t) \<union> a_id ` set (drop ?k (t_attempts u))"
  proof -
    have "set (map a_id (t_attempts t)) = set (map a_id (take ?k (t_attempts u)))"
      using evolve_ids [OF ev] by simp
    moreover have "set (t_attempts u) = set (take ?k (t_attempts u)) \<union> set (drop ?k (t_attempts u))"
      by (metis append_take_drop_id set_append)
    ultimately show ?thesis by (simp add: image_Un)
  qed
  have e: "e_id ` set (t_events u) = e_id ` set (t_events t) \<union> e_id ` set es"
    by (simp add: es image_Un)
  have rows: "ar_id ` set (db_attempts (saved u db))
      = ar_id ` set (db_attempts db) \<union> a_id ` set (drop ?k (t_attempts u))"
    "er_id ` set (db_events (saved u db)) = er_id ` set (db_events db) \<union> e_id ` set es"
    by (simp_all add: saved_attempts [OF assms(1,2) id ev wf]
        saved_events [OF assms(1,2) id es assms(5)] image_Un image_image)
  have "a_id ` set (t_attempts t) \<subseteq> ar_id ` set (db_attempts db)"
    "e_id ` set (t_events t) \<subseteq> er_id ` set (db_events db)"
    using stored_ids [OF assms(1,2)] by auto
  then show ?thesis unfolding pg_used_def task_ids_def a e rows by (rule union_absorb)
qed

lemma pg_save_stored:
  assumes ok: "db_ok db" and v: "pg_view db (t_id u) = Some t" and ext: "extends_task t u"
    and st: "storable u" and dis: "distinct (map e_id (t_events u))"
    and new: "new_ids t u \<inter> pg_used db = {}"
    and sup: "rc \<noteq> None \<Longrightarrow> pg_supplied db"
    and rc: "\<And>r. rc = Some r \<Longrightarrow> cr_task_id r = t_id u \<and> trimmed (cr_command_type r) \<and> trimmed (cr_command_id r)"
  shows "\<exists>db'. pg_save None u rc db = Inr db' \<and> db_ok db' \<and> pg_view db' = (pg_view db)(t_id u \<mapsto> u)
    \<and> pg_handled db' = pg_handled db \<union> (case rc of None \<Rightarrow> {} | Some r \<Rightarrow>
        {(cr_task_id r, cr_command_type r, cr_command_id r)})
    \<and> pg_used db' = pg_used db \<union> task_ids u"
proof -
  have rep: "represents db t" and row: "task_to_record t \<in> set (db_tasks db)"
    using v by (simp_all add: pg_view_iff [OF ok])
  have id: "t_id u = t_id t" using ext by (simp add: extends_task_def same_task_def)
  have ok1: "db_ok (saved u db)" by (rule saved_ok [OF ok rep row ext st dis new])
  have mem: "t_id u \<in> tr_id ` set (db_tasks (saved u db))"
    using row id saved_keys(1) [of u db] by (metis image_eqI list.set_map record_keys(1))
  define db' where "db' = (case rc of None \<Rightarrow> saved u db
     | Some c \<Rightarrow> add_receipt (cr_task_id c) (cr_command_type c) (cr_command_id c) (saved u db))"
  have sup1: "pg_supplied (saved u db)" if "rc \<noteq> None"
    using sup [OF that] by (simp add: pg_supplied_def saved_def)
  have ok': "db_ok db'"
    using ok1 mem sup1 rc by (auto simp: db'_def receipt_ok split: option.split)
  have same: "db_tasks db' = db_tasks (saved u db)" "db_attempts db' = db_attempts (saved u db)"
    "db_events db' = db_events (saved u db)"
    by (simp_all add: db'_def split: option.split)
  have "pg_save None u rc db = commit db'"
    using row id unfolding pg_save_def db'_def saved_def Let_def
    by (auto simp: list_ex_iff)
  then have "pg_save None u rc db = Inr db'" using commit_ok [OF ok'] by simp
  moreover have "pg_view db' = (pg_view db)(t_id u \<mapsto> u)"
    using pg_view_tables [OF same] saved_view [OF ok rep row ext st dis new] by simp
  moreover have "pg_used db' = pg_used db \<union> task_ids u"
    using saved_used [OF ok rep ext st dis] same by (simp add: pg_used_def)
  moreover have "pg_handled db' = pg_handled db \<union> (case rc of None \<Rightarrow> {} | Some r \<Rightarrow>
        {(cr_task_id r, cr_command_type r, cr_command_id r)})"
  proof -
    have "pg_handled (saved u db) = pg_handled db" by (simp add: pg_handled_def saved_def)
    then show ?thesis by (auto simp: db'_def split: option.split)
  qed
  ultimately show ?thesis using ok' by blast
qed

section \<open>Submitting a task\<close>

lemma find_submission_stored:
  assumes ok: "db_ok db" and v: "pg_view db i = Some u" and k: "submission_key u = submission_key t"
  shows "find_submission (t_owner_subject t) (t_task_type t) (t_idempotency_key t) db = Inr (Some u)"
proof -
  have rep: "represents db u" and row: "task_to_record u \<in> set (db_tasks db)"
    using v by (simp_all add: pg_view_iff [OF ok])
  let ?key = "\<lambda>r. (tr_owner_subject r, tr_task_type r, tr_idempotency_key r)"
  have "filter (\<lambda>r. ?key r = ?key (task_to_record u)) (db_tasks db) = [task_to_record u]"
    using ok row by (intro unique_row) (simp_all add: db_ok_def)
  then have "filter (\<lambda>r. tr_owner_subject r = t_owner_subject t \<and> tr_task_type r = t_task_type t
      \<and> tr_idempotency_key r = t_idempotency_key t) (db_tasks db) = [task_to_record u]"
    using k by (simp add: submission_key_def task_to_record_def)
  with rep show ?thesis by (simp add: find_submission_def load_first_def from_record_represents)
qed

lemma pg_submit_existing:
  assumes ok: "db_ok db" and ev: "t_events t \<noteq> []" and v: "pg_view db i = Some u"
    and k: "submission_key u = submission_key t"
  shows "pg_create_or_get_submission None t db = Inr (db, u)"
proof -
  have row: "task_to_record u \<in> set (db_tasks db)" using v by (simp add: pg_view_iff [OF ok])
  let ?key = "\<lambda>r. (tr_owner_subject r, tr_task_type r, tr_idempotency_key r)"
  have "?key (task_to_record t) = ?key (task_to_record u)"
    using k by (simp add: submission_key_def task_to_record_def)
  then have "\<not> distinct (map ?key (db_tasks db @ [task_to_record t]))"
    using row by force
  then have "\<not> constraints_ok (db\<lparr>db_tasks := db_tasks db @ [task_to_record t]\<rparr>)"
    by (auto simp: constraints_ok_def task_table_ok_def Let_def)
  then have "insert_submission t db = Inl IntegrityError"
    by (simp add: insert_submission_def commit_def)
  with find_submission_stored [OF ok v k] show ?thesis
    by (simp add: pg_create_or_get_submission_def)
qed

definition submitted :: "task \<Rightarrow> task_event \<Rightarrow> task_db \<Rightarrow> task_db" where
  "submitted t ev db = db\<lparr>db_tasks := db_tasks db @ [task_to_record t],
     db_events := db_events db @ [event_to_record ev]\<rparr>"

lemma submitted_groups:
  assumes "t_events t = [ev]" "wf_task t"
  shows "attempts_of (submitted t ev db) = attempts_of db"
    "tid \<noteq> t_id t \<Longrightarrow> events_of (submitted t ev db) tid = events_of db tid"
    "events_of db (t_id t) = [] \<Longrightarrow> events_of (submitted t ev db) (t_id t) = [event_to_record ev]"
proof -
  have own: "e_task_id ev = t_id t" using assms by (simp add: wf_task_def wf_events_def)
  show "attempts_of (submitted t ev db) = attempts_of db"
    by (simp add: fun_eq_iff attempts_of_def submitted_def)
  show "tid \<noteq> t_id t \<Longrightarrow> events_of (submitted t ev db) tid = events_of db tid"
    by (simp add: events_of_def submitted_def own)
  assume "events_of db (t_id t) = []"
  then have "set (events_of db (t_id t)) = {}" by simp
  then have "filter (\<lambda>r. er_task_id r = t_id t) (db_events db) = []"
    by (simp add: set_rows filter_empty_conv)
  then show "events_of (submitted t ev db) (t_id t) = [event_to_record ev]"
    by (simp add: events_of_def submitted_def own)
qed

lemma submitted_ok:
  assumes ok: "db_ok db" and st: "storable t" and none: "pg_view db (t_id t) = None"
    and at: "t_attempts t = []" and ev: "t_events t = [ev]" and fr: "e_id ev \<notin> pg_used db"
    and key: "\<And>i u. pg_view db i = Some u \<Longrightarrow> submission_key u \<noteq> submission_key t"
  shows "db_ok (submitted t ev db) \<and> represents (submitted t ev db) t"
proof -
  have wf: "wf_task t" using st by (simp add: storable_def)
  have new: "t_id t \<notin> tr_id ` set (db_tasks db)" using none by (simp add: pg_view_None [OF ok])
  note groups = submitted_groups [OF ev wf]
  have rep: "represents (submitted t ev db) t"
    using st groups(1,3) no_rows [OF ok new] by (simp add: represents_def at ev)
  have old: "represents (submitted t ev db) u" if "represents db u" "task_to_record u \<in> set (db_tasks db)" for u
  proof -
    have "t_id u \<noteq> t_id t" using that(2) new by force
    with that(1) groups(1,2) show ?thesis by (simp add: represents_def)
  qed
  have row_key: "(tr_owner_subject r, tr_task_type r, tr_idempotency_key r)
      \<noteq> (t_owner_subject t, t_task_type t, t_idempotency_key t)" if "r \<in> set (db_tasks db)" for r
  proof -
    note m = that
    obtain u where "r = task_to_record u" "represents db u" using db_ok_row [OF ok m] .
    with m have "pg_view db (t_id u) = Some u" by (simp add: pg_view_iff [OF ok])
    from key [OF this] \<open>r = task_to_record u\<close> show ?thesis
      by (simp add: submission_key_def task_to_record_def)
  qed
  have tr: "(tr_owner_subject (task_to_record t), tr_task_type (task_to_record t),
      tr_idempotency_key (task_to_record t)) = (t_owner_subject t, t_task_type t, t_idempotency_key t)"
    by (simp add: task_to_record_def)
  have own: "e_task_id ev = t_id t" using ev wf by (simp add: wf_task_def wf_events_def)
  have "distinct (map tr_id (db_tasks (submitted t ev db)))"
    using ok new by (auto simp: db_ok_def submitted_def)
  moreover have "distinct (map (\<lambda>r. (tr_owner_subject r, tr_task_type r, tr_idempotency_key r))
      (db_tasks (submitted t ev db)))"
  proof -
    have "(t_owner_subject t, t_task_type t, t_idempotency_key t)
        \<notin> (\<lambda>r. (tr_owner_subject r, tr_task_type r, tr_idempotency_key r)) ` set (db_tasks db)"
      using row_key by (metis (no_types, lifting) imageE)
    with ok tr show ?thesis by (simp add: submitted_def db_ok_def)
  qed
  moreover have "\<forall>r \<in> set (db_tasks (submitted t ev db)). \<exists>u. r = task_to_record u \<and> represents (submitted t ev db) u"
  proof
    fix r assume "r \<in> set (db_tasks (submitted t ev db))"
    then consider "r \<in> set (db_tasks db)" | "r = task_to_record t" by (auto simp: submitted_def)
    then show "\<exists>u. r = task_to_record u \<and> represents (submitted t ev db) u"
    proof cases
      case 1
      with db_ok_row [OF ok 1] old show ?thesis by metis
    qed (use rep in blast)
  qed
  moreover have "distinct (map er_id (db_events (submitted t ev db)))"
    using ok fr by (auto simp: db_ok_def submitted_def pg_used_def)
  ultimately have "db_ok (submitted t ev db)"
    using ok own by (auto simp: db_ok_def submitted_def receipt_table_ok_def list_all_iff)
  with rep show ?thesis by blast
qed

lemma pg_submit_new:
  assumes ok: "db_ok db" and st: "storable t" and none: "pg_view db (t_id t) = None"
    and at: "t_attempts t = []" and ev: "t_events t = [ev]" and fr: "e_id ev \<notin> pg_used db"
    and key: "\<And>i u. pg_view db i = Some u \<Longrightarrow> submission_key u \<noteq> submission_key t"
  shows "\<exists>db'. pg_create_or_get_submission None t db = Inr (db', t) \<and> db_ok db'
    \<and> pg_view db' = (pg_view db)(t_id t \<mapsto> t) \<and> pg_handled db' = pg_handled db
    \<and> pg_used db' = pg_used db \<union> task_ids t"
proof -
  note sub = submitted_ok [OF assms]
  let ?db' = "submitted t ev db"
  have ok': "db_ok ?db'" and rep: "represents ?db' t" using sub by auto
  have wf: "wf_task t" using st by (simp add: storable_def)
  have new: "t_id t \<notin> tr_id ` set (db_tasks db)" using none by (simp add: pg_view_None [OF ok])
  have "constraints_ok (db\<lparr>db_tasks := db_tasks db @ [task_to_record t]\<rparr>)"
    using db_ok_constraints [OF ok'] db_ok_constraints [OF ok]
    by (auto simp: constraints_ok_def Let_def submitted_def event_table_ok_def attempt_table_ok_def
        list_all_iff)
  then have "insert_submission t db = commit ?db'"
    by (simp add: insert_submission_def commit_def ev submitted_def)
  then have "pg_create_or_get_submission None t db = Inr (?db', t)"
    using commit_ok [OF ok'] by (simp add: pg_create_or_get_submission_def)
  moreover have "pg_view ?db' = (pg_view db)(t_id t \<mapsto> t)"
  proof
    fix tid
    show "pg_view ?db' tid = ((pg_view db)(t_id t \<mapsto> t)) tid"
    proof (cases "tid = t_id t")
      case True
      moreover have "task_to_record t \<in> set (db_tasks ?db')" by (simp add: submitted_def)
      ultimately show ?thesis using rep pg_view_iff [OF ok', of "t_id t" t] by simp
    next
      case False
      have "task_to_record v \<in> set (db_tasks ?db') \<longleftrightarrow> task_to_record v \<in> set (db_tasks db)"
        "represents ?db' v = represents db v" if "t_id v = tid" for v
        using that False submitted_groups(1,2) [OF ev wf]
        by (auto simp: submitted_def represents_def dest: arg_cong [of _ _ tr_id])
      then have "pg_view ?db' tid = pg_view db tid" by (intro pg_view_cong [OF ok' ok]) auto
      with False show ?thesis by simp
    qed
  qed
  moreover have "pg_handled ?db' = pg_handled db" by (simp add: pg_handled_def submitted_def)
  moreover have "pg_used ?db' = pg_used db \<union> task_ids t"
    by (auto simp: pg_used_def submitted_def task_ids_def at ev)
  ultimately show ?thesis using ok' by blast
qed

section \<open>Scanning\<close>

lemma status_row:
  "tr_status (task_to_record t) = task_status_value (t_status t)"
  "tr_available_at (task_to_record t) = t_available_at t"
  "tr_owner_subject (task_to_record t) = t_owner_subject t"
  by (simp_all add: task_to_record_def)

lemma status_value_eq:
  "task_status_value s = ''queued'' \<longleftrightarrow> s = QUEUED"
  "task_status_value s = ''retry_wait'' \<longleftrightarrow> s = RETRY_WAIT"
  by (cases s; simp)+

lemma pg_next_queued:
  assumes ok: "db_ok db" and c: "pg_get_next_queued_for_update None locked now db = Inr (Some t)"
  shows "pg_view db (t_id t) = Some t \<and> t_status t = QUEUED \<and> t_available_at t \<le> now"
proof -
  let ?rs = "sort_key (\<lambda>r. (tr_available_at r, tr_created_at r, tr_id r))
    (filter (\<lambda>r. tr_status r = ''queued'' \<and> tr_available_at r \<le> now \<and> \<not> locked (tr_id r)) (db_tasks db))"
  have "set ?rs \<subseteq> set (db_tasks db)" by auto
  from load_first_stored [OF ok this] c have rep: "represents db t" and hd: "task_to_record t = hd ?rs" "?rs \<noteq> []"
    by (auto simp: pg_get_next_queued_for_update_def)
  have "task_to_record t \<in> set ?rs" unfolding hd(1) using hd(2) by (rule hd_in_set)
  then have "task_to_record t \<in> set (db_tasks db)" "tr_status (task_to_record t) = ''queued''"
    "tr_available_at (task_to_record t) \<le> now"
    by (simp_all only: set_sort set_filter mem_Collect_eq)
  with rep show ?thesis by (simp add: pg_view_iff [OF ok] status_row status_value_eq)
qed

lemma pg_due_retries:
  assumes ok: "db_ok db" and n: "0 < n"
  shows "\<exists>cs. pg_get_due_retries_for_update None locked now n db = Inr cs \<and> int (length cs) \<le> n
    \<and> (\<forall>c \<in> set cs. \<exists>t. pg_view db (dc_task_id c) = Some t \<and> t_status t = RETRY_WAIT
         \<and> t_available_at t = dc_available_at c \<and> dc_available_at c \<le> now)
    \<and> distinct (map dc_task_id cs)"
proof -
  let ?P = "\<lambda>r. tr_status r = ''retry_wait'' \<and> tr_available_at r \<le> now \<and> \<not> locked (tr_id r)"
  let ?rs = "take (nat n) (sort_key (\<lambda>r. (tr_available_at r, tr_id r)) (filter ?P (db_tasks db)))"
  let ?c = "\<lambda>r. \<lparr>dc_task_id = tr_id r, dc_available_at = tr_available_at r\<rparr>"
  have r: "\<exists>t. pg_view db (tr_id r) = Some t \<and> t_status t = RETRY_WAIT
      \<and> t_available_at t = tr_available_at r \<and> tr_available_at r \<le> now" if "r \<in> set ?rs" for r
  proof -
    from that have m: "r \<in> set (db_tasks db)" "?P r" by (auto dest: in_set_takeD)
    obtain t where t: "r = task_to_record t" "represents db t" using db_ok_row [OF ok m(1)] .
    with m have "pg_view db (t_id t) = Some t" by (simp add: pg_view_iff [OF ok])
    with t m show ?thesis by (auto simp: status_row status_value_eq)
  qed
  have "distinct (map tr_id ?rs)"
    using ok by (intro distinct_scan) (simp add: db_ok_def distinct_map_filter)
  then have dis: "distinct (map dc_task_id (map ?c ?rs))" by (simp add: comp_def)
  have eq: "pg_get_due_retries_for_update None locked now n db = Inr (map ?c ?rs)"
    using n by (simp add: pg_get_due_retries_for_update_def)
  have len: "int (length (map ?c ?rs)) \<le> n" using n by simp
  have all: "\<forall>c \<in> set (map ?c ?rs). \<exists>t. pg_view db (dc_task_id c) = Some t \<and> t_status t = RETRY_WAIT
         \<and> t_available_at t = dc_available_at c \<and> dc_available_at c \<le> now"
  proof
    fix c assume "c \<in> set (map ?c ?rs)"
    then obtain x where "x \<in> set ?rs" "c = ?c x" by auto
    with r [OF this(1)] show "\<exists>t. pg_view db (dc_task_id c) = Some t \<and> t_status t = RETRY_WAIT
         \<and> t_available_at t = dc_available_at c \<and> dc_available_at c \<le> now" by simp
  qed
  show ?thesis by (rule exI [of _ "map ?c ?rs"]) (intro conjI eq len all dis)
qed

lemma active_status_rows:
  assumes "represents db t" "a \<in> set (t_attempts t)" "is_active a" "b \<in> set (t_attempts t)" "is_active b"
  shows "a = b"
  using assms active_unique [of t] by (auto simp: represents_def storable_def in_set_conv_nth)

lemma pg_expired:
  assumes ok: "db_ok db" and n: "0 < n"
  shows "\<exists>cs. pg_get_expired_attempts_for_update None locked now n db = Inr cs \<and> int (length cs) \<le> n
    \<and> (\<forall>c \<in> set cs. \<exists>t i. pg_view db (xc_task_id c) = Some t \<and> i < length (t_attempts t)
         \<and> a_id (t_attempts t ! i) = xc_attempt_id c \<and> is_active (t_attempts t ! i)
         \<and> a_lease_expires_at (t_attempts t ! i) = xc_lease_expires_at c \<and> xc_lease_expires_at c \<le> now)
    \<and> distinct (map xc_task_id cs)"
proof -
  let ?P = "\<lambda>(r, a). ar_task_id a = tr_id r \<and> tr_status r \<in> {''running'', ''cancel_requested''}
     \<and> ar_status a = ''active'' \<and> ar_lease_expires_at a \<le> now \<and> \<not> locked (tr_id r)"
  let ?all = "filter ?P (List.product (db_tasks db) (db_attempts db))"
  let ?k = "\<lambda>(r, a). (ar_lease_expires_at a, tr_id r)"
  let ?rs = "take (nat n) (sort_key ?k ?all)"
  let ?c = "\<lambda>(r, a). \<lparr>xc_task_id = tr_id r, xc_attempt_id = ar_id a,
      xc_lease_expires_at = ar_lease_expires_at a\<rparr>"
  have row: "\<exists>t x. r = task_to_record t \<and> represents db t \<and> pg_view db (tr_id r) = Some t
      \<and> x \<in> set (t_attempts t) \<and> a = attempt_to_record x \<and> is_active x"
    if "r \<in> set (db_tasks db)" "a \<in> set (db_attempts db)" "?P (r, a)" for r a
  proof -
    note m = that
    obtain t where t: "r = task_to_record t" "represents db t" using db_ok_row [OF ok m(1)] .
    with that(1) have v: "pg_view db (tr_id r) = Some t" by (simp add: pg_view_iff [OF ok])
    have "a \<in> set (attempts_of db (t_id t))" using that t(1) by (simp add: set_rows)
    then obtain x where "x \<in> set (t_attempts t)" "a = attempt_to_record x"
      using t(2) by (auto simp: represents_def)
    with t v that(3) show ?thesis by (auto simp: active_row)
  qed
  have "distinct (map (\<lambda>p. tr_id (fst p)) ?all)"
  proof (rule distinct_map [THEN iffD2], intro conjI)
    show "distinct ?all"
      using ok by (intro distinct_filter distinct_product) (simp_all add: db_ok_def distinct_map)
    show "inj_on (\<lambda>p. tr_id (fst p)) (set ?all)"
    proof (rule inj_onI)
      fix p q assume p: "p \<in> set ?all" and q: "q \<in> set ?all" and e: "tr_id (fst p) = tr_id (fst q)"
      obtain r a where pr: "p = (r, a)" by (cases p)
      obtain r' b where qr: "q = (r', b)" by (cases q)
      from p pr row [of r a] obtain t x where 1: "r = task_to_record t" "represents db t"
        "pg_view db (tr_id r) = Some t" "x \<in> set (t_attempts t)" "a = attempt_to_record x" "is_active x"
        by auto
      from q qr row [of r' b] obtain u y where 2: "r' = task_to_record u"
        "pg_view db (tr_id r') = Some u" "y \<in> set (t_attempts u)" "b = attempt_to_record y" "is_active y"
        by auto
      have "t = u" using 1(3) 2(2) e pr qr by simp
      with active_status_rows [OF 1(2,4,6)] 1 2 pr qr show "p = q" by simp
    qed
  qed
  then have "distinct (map (\<lambda>p. tr_id (fst p)) ?rs)" by (rule distinct_scan)
  moreover have "map xc_task_id (map ?c ?rs) = map (\<lambda>p. tr_id (fst p)) ?rs"
    by (simp add: split_beta)
  ultimately have dis: "distinct (map xc_task_id (map ?c ?rs))" by (simp only:)
  have all: "\<forall>c \<in> set (map ?c ?rs). \<exists>t i. pg_view db (xc_task_id c) = Some t \<and> i < length (t_attempts t)
         \<and> a_id (t_attempts t ! i) = xc_attempt_id c \<and> is_active (t_attempts t ! i)
         \<and> a_lease_expires_at (t_attempts t ! i) = xc_lease_expires_at c \<and> xc_lease_expires_at c \<le> now"
  proof
    fix c assume "c \<in> set (map ?c ?rs)"
    then obtain r a where ra: "(r, a) \<in> set ?rs" "c = ?c (r, a)" by auto
    from in_set_takeD [OF ra(1)] have m: "r \<in> set (db_tasks db)" "a \<in> set (db_attempts db)" "?P (r, a)"
      by auto
    from row [OF m] obtain t x where t: "pg_view db (tr_id r) = Some t" "x \<in> set (t_attempts t)"
      "a = attempt_to_record x" "is_active x" by blast
    then obtain i where "i < length (t_attempts t)" "t_attempts t ! i = x" by (auto simp: in_set_conv_nth)
    with t m ra(2) show "\<exists>t i. pg_view db (xc_task_id c) = Some t \<and> i < length (t_attempts t)
         \<and> a_id (t_attempts t ! i) = xc_attempt_id c \<and> is_active (t_attempts t ! i)
         \<and> a_lease_expires_at (t_attempts t ! i) = xc_lease_expires_at c \<and> xc_lease_expires_at c \<le> now"
      by (auto simp: attempt_to_record_def)
  qed
  have eq: "pg_get_expired_attempts_for_update None locked now n db = Inr (map ?c ?rs)"
    using n by (simp add: pg_get_expired_attempts_for_update_def)
  have len: "int (length (map ?c ?rs)) \<le> n" using n by simp
  show ?thesis by (rule exI [of _ "map ?c ?rs"]) (intro conjI eq len all dis)
qed

section \<open>The contract holds\<close>

lemma pg_owned:
  assumes ok: "db_ok db"
  shows "pg_get_owned None tid owner db = Inr (case pg_view db tid of
    Some t \<Rightarrow> if t_owner_subject t = owner then Some t else None | None \<Rightarrow> None)"
proof (cases "pg_view db tid")
  case None
  then have "filter (\<lambda>r. tr_id r = tid \<and> tr_owner_subject r = owner) (db_tasks db) = []"
    by (auto simp: pg_view_None [OF ok] filter_empty_conv)
  with None show ?thesis by (simp add: pg_get_owned_def load_first_def)
next
  case (Some t)
  then have t: "t_id t = tid" "represents db t" "task_to_record t \<in> set (db_tasks db)"
    by (simp_all add: pg_view_iff [OF ok])
  have "filter (\<lambda>r. tr_id r = tid) (db_tasks db) = [task_to_record t]"
    using unique_row [of tr_id "db_tasks db" "task_to_record t"] t ok by (simp add: db_ok_def)
  moreover have "filter (\<lambda>r. tr_id r = tid \<and> tr_owner_subject r = owner) (db_tasks db)
      = filter (\<lambda>r. tr_owner_subject r = owner) (filter (\<lambda>r. tr_id r = tid) (db_tasks db))"
    by (auto intro: filter_cong)
  ultimately show ?thesis
    using Some t(2) by (simp add: pg_get_owned_def load_first_def from_record_represents status_row)
qed

lemma represents_ids:
  assumes "db_ok db" "represents db t"
  shows "task_ids t \<subseteq> pg_used db"
  using stored_ids [OF assms] by (auto simp: task_ids_def pg_used_def)

interpretation pg: task_repository "postgres_port None locked" db_ok pg_view pg_handled pg_used pg_supplied
  for locked
proof (unfold_locales, goal_cases)
  case (1 s tid)
  then show ?case by (simp add: postgres_port_def pg_get_def pg_load_view)
next
  case (2 s tid)
  then show ?case by (simp add: postgres_port_def pg_get_for_update_def pg_load_view)
next
  case (3 s tid owner)
  then show ?case by (simp add: postgres_port_def pg_owned)
next
  case (4 s tid t)
  then show ?case by (simp add: pg_view_iff represents_ids) (simp add: represents_def)
next
  case (5 s i t j u)
  then have t: "task_to_record t \<in> set (db_tasks s)" "task_to_record u \<in> set (db_tasks s)"
    "t_id t = i" "t_id u = j" by (simp_all add: pg_view_iff)
  have "inj_on (\<lambda>r. (tr_owner_subject r, tr_task_type r, tr_idempotency_key r)) (set (db_tasks s))"
    using 5(1) by (simp add: db_ok_def distinct_map)
  from inj_onD [OF this _ t(1,2)] 5(4) have "task_to_record t = task_to_record u"
    by (simp add: submission_key_def task_to_record_def)
  with t show ?case by (metis record_keys(1))
next
  case (6 s now c)
  then show ?case using pg_next_queued by (auto simp: postgres_port_def)
next
  case (7 s n now)
  then show ?case using pg_expired by (simp add: postgres_port_def)
next
  case (8 s n now)
  then show ?case using pg_due_retries by (simp add: postgres_port_def)
next
  case (9 s tid ct cid)
  then show ?case
    by (force simp: postgres_port_def pg_has_processed_command_def pg_handled_def list_ex_iff)
next
  case (10 s u t rc)
  then show ?case using pg_save_stored [of s u t rc] by (simp add: postgres_port_def)
next
  case (11 s t ev)
  then show ?case using pg_submit_new [of s t ev] by (simp add: postgres_port_def)
next
  case (12 s t i u)
  then show ?case using pg_submit_existing by (simp add: postgres_port_def)
qed

end
