(* ===== verification/Task_Service_Theorems.thy ===== *)
theory Task_Service_Theorems
  imports Task_Postgres
begin

text \<open>
  The properties of the lifecycle service running on the PostgreSQL adapter: the databases that its
  commands can produce, the refinement of the service's specification, idempotent commands,
  submissions and claims, and the isolation of tasks.
\<close>

section \<open>Databases the service produces\<close>

definition fresh_ids :: "task_db \<Rightarrow> uuid \<Rightarrow> uuid \<Rightarrow> uuid \<Rightarrow> bool" where
  \<comment> \<open>the UUIDs drawn for a command and for its receipt are not in use\<close>
  "fresh_ids db tid aid eid \<longleftrightarrow>
     tid \<notin> tr_id ` set (db_tasks db) \<and> {aid, eid} \<inter> pg_used db = {} \<and> pg_supplied db"

inductive served :: "task_db \<Rightarrow> bool" where
  empty: "db_tasks db = [] \<Longrightarrow> db_attempts db = [] \<Longrightarrow> db_events db = [] \<Longrightarrow> db_receipts db = [] \<Longrightarrow>
    served db"
| command: "served db \<Longrightarrow> fresh_ids db tid aid eid \<Longrightarrow>
    svc_exec (postgres_port None locked) cmd now tid aid eid db = (db', r) \<Longrightarrow> served db'"

lemma served_sound: "served db \<Longrightarrow> pg.sound db"
proof (induction rule: served.induct)
  case (empty db)
  then have ok: "db_ok db" by (simp add: db_ok_def receipt_table_ok_def)
  moreover have "pg_view db tid = None" for tid using empty by (simp add: pg_view_None [OF ok])
  ultimately show ?case by (simp add: pg.sound_def)
next
  case (command db tid aid eid locked cmd now db' r)
  have "pg_view db tid = None"
    using command.IH command.hyps(2) by (simp add: pg.sound_def pg_view_None fresh_ids_def)
  with pg.exec_refines [OF command.IH, of aid eid tid cmd now locked] command.hyps(2,3)
  show ?case by (auto simp: fresh_ids_def pg.refines_def)
qed

lemma served_ok: "served db \<Longrightarrow> db_ok db"
  using served_sound by (simp add: pg.sound_def)

lemma served_reachable: "served db \<Longrightarrow> pg_view db tid = Some t \<Longrightarrow> task_reachable t"
  using served_sound by (auto simp: pg.sound_def)

lemma served_refines:
  assumes "served db" "fresh_ids db tid aid eid"
    "svc_exec (postgres_port None locked) cmd now tid aid eid db = (db', r)"
  shows "spec_exec cmd now tid aid eid (pg_view db, pg_handled db) ((pg_view db', pg_handled db'), r)"
proof -
  have "pg_view db tid = None"
    using served_ok [OF assms(1)] assms(2) by (simp add: pg_view_None fresh_ids_def)
  with pg.exec_refines [OF served_sound [OF assms(1)], of aid eid tid cmd now locked] assms(2,3)
  show ?thesis by (auto simp: fresh_ids_def pg.refines_def)
qed

definition sample_db0 :: task_db where
  "sample_db0 = \<lparr>db_tasks = [], db_attempts = [], db_events = [], db_receipts = [],
     db_uuid4 = (\<lambda>n. 1000 + of_nat n), db_drawn = 0, db_now = 0\<rparr>"

definition sample_submit :: submit_command where
  "sample_submit = \<lparr>sc_owner_subject = ''alice'', sc_task_type = ''demo'', sc_idempotency_key = ''k1'',
     sc_input_fingerprint = ''in1'', sc_max_attempts = 2, sc_display_metadata = None,
     sc_allow_manual_retry = True\<rparr>"

definition sample_db1 :: task_db where
  "sample_db1 = fst (svc_exec (postgres_port None (\<lambda>_. False)) (Svc_submit sample_submit) (Aware 0) 1 0 10
     sample_db0)"

definition sample_cancel :: svc_command where
  "sample_cancel = Svc_cancel \<lparr>cc_task_id = 1, cc_command_id = ''stop''\<rparr>"

definition sample_claim_command :: svc_command where
  "sample_claim_command = Svc_claim \<lparr>mc_task_id = 1, mc_worker_id = ''w1'', mc_claim_id = ''c1'',
     mc_lease_token = ''tok'', mc_lease_expires_at = Aware 100\<rparr>"

lemma sample_db1_served: "served sample_db1"
proof (rule served.command [of sample_db0 1 0 10 "\<lambda>_. False" "Svc_submit sample_submit" "Aware 0"])
  show "served sample_db0" by (rule served.empty) (simp_all add: sample_db0_def)
  show "fresh_ids sample_db0 1 0 10"
    by (simp add: fresh_ids_def sample_db0_def pg_used_def pg_supplied_def)
  show "svc_exec (postgres_port None (\<lambda>_. False)) (Svc_submit sample_submit) (Aware 0) 1 0 10 sample_db0
    = (sample_db1, snd (svc_exec (postgres_port None (\<lambda>_. False)) (Svc_submit sample_submit) (Aware 0)
        1 0 10 sample_db0))"
    by (simp add: sample_db1_def)
qed

lemma sample_db1_fresh: "fresh_ids sample_db1 2 7 11"
  by code_simp

lemma sample_db1_view: "pg_view sample_db1 1 = Some sample_new"
  by code_simp

section \<open>Properties\<close>

text \<open>
  C13: the record mapper is lossless. A reachable task written to its row, its attempt rows and its
  event rows, and read back with every constructor check, is the same task.
\<close>

theorem stored_task_roundtrip:
  assumes "task_reachable t"
  shows "task_from_records (task_to_record t) (map attempt_to_record (t_attempts t))
     (map event_to_record (t_events t)) = Inr t"
  by (rule task_roundtrip) (rule reachable_wf [OF assms])

theorem stored_task_roundtrip_witness:
  "task_from_records (task_to_record sample_done) (map attempt_to_record (t_attempts sample_done))
     (map event_to_record (t_events sample_done)) = Inr sample_done"
  by (rule stored_task_roundtrip [OF sample_done_reachable])

text \<open>
  C14: the service on PostgreSQL refines its specification. Every command, on a database the service
  produced and with UUIDs not in use, returns what the specification over the map of aggregates and the
  set of handled commands returns, and leaves the tables representing the specification's next state;
  no commit is refused by a constraint.
\<close>

theorem service_refines_specification:
  assumes "served db" "fresh_ids db tid aid eid"
  shows "case svc_exec (postgres_port None locked) cmd now tid aid eid db of (db', r) \<Rightarrow>
    spec_exec cmd now tid aid eid (pg_view db, pg_handled db) ((pg_view db', pg_handled db'), r)"
  using served_refines [OF assms] by (simp split: prod.split)

theorem service_refines_specification_witness:
  "case svc_exec (postgres_port None (\<lambda>_. False)) sample_claim_command (Aware 5) 2 7 11 sample_db1 of (db', r) \<Rightarrow>
    spec_exec sample_claim_command (Aware 5) 2 7 11 (pg_view sample_db1, pg_handled sample_db1)
      ((pg_view db', pg_handled db'), r)"
  by (rule service_refines_specification [OF sample_db1_served sample_db1_fresh])

text \<open>
  C15: the stored data is always consistent. Every database the service's commands produce satisfies
  every constraint of the schema, and every aggregate read from it is a reachable task, so all the
  properties of the task life cycle hold of stored tasks.
\<close>

theorem stored_tasks_are_reachable:
  assumes "served db"
  shows "constraints_ok db \<and> (\<forall>tid. \<exists>found. pg_get_for_update None tid db = Inr found
    \<and> (found = None \<or> task_reachable (the found) \<and> t_id (the found) = tid))"
proof (intro conjI allI)
  note ok = served_ok [OF assms]
  show "constraints_ok db" by (rule db_ok_constraints [OF ok])
  fix tid
  have "pg_get_for_update None tid db = Inr (pg_view db tid)"
    by (simp add: pg_get_for_update_def pg_load_view [OF ok])
  then show "\<exists>found. pg_get_for_update None tid db = Inr found
    \<and> (found = None \<or> task_reachable (the found) \<and> t_id (the found) = tid)"
    using served_reachable [OF assms, of tid] pg_view_iff [OF ok, of tid]
    by (cases "pg_view db tid") auto
qed

theorem stored_tasks_are_reachable_witness:
  "constraints_ok sample_db1 \<and> (\<forall>tid. \<exists>found. pg_get_for_update None tid sample_db1 = Inr found
    \<and> (found = None \<or> task_reachable (the found) \<and> t_id (the found) = tid))"
  by (rule stored_tasks_are_reachable [OF sample_db1_served])

fun once_key :: "svc_command \<Rightarrow> (uuid \<times> string \<times> string) option" where
  "once_key (Svc_cancel c) = Some (cc_task_id c, ''cancel'', py_strip (cc_command_id c))"
| "once_key (Svc_requeue c) = Some (qc_task_id c, ''requeue'', py_strip (qc_command_id c))"
| "once_key (Svc_retry c) = Some (yc_task_id c, ''manual-retry'', py_strip (yc_command_id c))"
| "once_key (Svc_recover c) = Some (rc_task_id c, ''recover'', py_strip (rc_command_id c))"
| "once_key _ = None"

lemma spec_once_handles:
  assumes "spec_once ct cid tid f (m, R) = ((m', R'), Inr x)"
  shows "(tid, ct, py_strip cid) \<in> R' \<and> require_text cid = Inr (py_strip cid)"
  using assms by (auto simp: spec_once_def errE_simps split: option.splits sum.splits if_splits)

lemma once_exec_handles:
  assumes "served db" "fresh_ids db tid aid eid" "once_key cmd = Some k"
    "svc_exec (postgres_port None locked) cmd now tid aid eid db = (db', Inr x)"
  shows "k \<in> pg_handled db' \<and> snd (snd k) \<noteq> []"
  using served_refines [OF assms(1,2,4)] assms(3)
  by (cases cmd) (auto dest!: sym [of _ "spec_once _ _ _ _ _"] spec_once_handles
      simp: errE_simps trimmed_nonempty)

lemma spec_exec_handled_mono:
  "spec_exec cmd now tid aid eid (m, R) ((m', R'), r) \<Longrightarrow> R \<subseteq> R'"
  by (cases cmd) (auto simp: spec_submit_def spec_claim_def spec_put_def spec_once_def
      split: option.splits sum.splits if_splits)

lemma once_replay:
  assumes ok: "pg.sound db" and t: "pg_view db tid = Some t" and c: "py_strip cid \<noteq> []"
    and h: "(tid, ct, py_strip cid) \<in> pg_handled db"
  shows "once_action (postgres_port None locked) ct cid tid f db = (db, Inr (Res_view (view_from_task t)))"
proof -
  have ok': "db_ok db" using ok by (simp add: pg.sound_def)
  have "t_id t = tid" using t by (simp add: pg_view_iff [OF ok'])
  then show ?thesis
    using t c h pg.has_processed [OF ok', of locked]
    by (simp add: once_action_def pg.svc_task_run [OF ok'] svc_already_processed_def
        svc_require_text_def bindA_def)
qed

inductive later :: "task_db \<Rightarrow> task_db \<Rightarrow> bool" where
  \<comment> \<open>any number of further commands\<close>
  same: "later db db"
| more: "later db d \<Longrightarrow> fresh_ids d tid aid eid \<Longrightarrow>
    svc_exec (postgres_port None locked) cmd now tid aid eid d = (d', r) \<Longrightarrow> later db d'"

lemma later_served: "later db d \<Longrightarrow> served db \<Longrightarrow> served d \<and> pg_handled db \<subseteq> pg_handled d"
proof (induction rule: later.induct)
  case (more db d tid aid eid locked cmd now d' r)
  then have s: "served d" and h: "pg_handled db \<subseteq> pg_handled d" by auto
  have "served d'" using served.command [OF s more.hyps(2,3)] .
  moreover have "pg_handled d \<subseteq> pg_handled d'"
    using spec_exec_handled_mono [OF served_refines [OF s more.hyps(2,3)]] .
  ultimately show ?case using h by blast
qed simp

text \<open>
  C16: a command id is executed at most once. After a cancellation, requeue, manual retry or recovery
  has returned a task view, the same command sent again at any time returns the task as it then is and
  writes nothing, whatever the task has gone through in between.
\<close>

theorem command_executed_at_most_once:
  assumes "served db" "fresh_ids db tid aid eid" "once_key cmd = Some (k, ct, cid)"
    "svc_exec (postgres_port None locked) cmd now tid aid eid db = (db1, Inr x)" "later db1 db2"
    "pg_view db2 k = Some t"
  shows "svc_exec (postgres_port None locked) cmd now2 tid2 aid2 eid2 db2
    = (db2, Inr (Res_view (view_from_task t)))"
proof -
  have s1: "served db1" using served.command [OF assms(1,2,4)] .
  have s2: "served db2" and h: "(k, ct, cid) \<in> pg_handled db2" "cid \<noteq> []"
    using later_served [OF assms(5) s1] once_exec_handles [OF assms(1-4)] by auto
  note replay = once_replay [OF served_sound [OF s2]]
  show ?thesis
    using assms(3,6) h by (cases cmd) (auto simp: exec_shapes simp del: svc_exec.simps intro!: replay)
qed

theorem command_executed_at_most_once_witness:
  "svc_exec (postgres_port None (\<lambda>_. False)) sample_cancel (Aware 900) 3 8 12
     (fst (svc_exec (postgres_port None (\<lambda>_. False)) sample_cancel (Aware 5) 2 7 11 sample_db1))
   = (fst (svc_exec (postgres_port None (\<lambda>_. False)) sample_cancel (Aware 5) 2 7 11 sample_db1),
      Inr (Res_view (view_from_task (the (pg_view
        (fst (svc_exec (postgres_port None (\<lambda>_. False)) sample_cancel (Aware 5) 2 7 11 sample_db1)) 1)))))"
proof -
  let ?p = "svc_exec (postgres_port None (\<lambda>_. False)) sample_cancel (Aware 5) 2 7 11 sample_db1"
  have "(case snd ?p of Inr (Res_view v) \<Rightarrow> v_status v = CANCELLED | _ \<Rightarrow> False)" by code_simp
  then obtain x where x: "?p = (fst ?p, Inr x)" by (cases ?p) (auto split: sum.splits)
  have "pg_view (fst ?p) 1 \<noteq> None" by code_simp
  then obtain t where "pg_view (fst ?p) 1 = Some t" by auto
  with command_executed_at_most_once [OF sample_db1_served sample_db1_fresh _ x later.same this]
  show ?thesis by (simp add: sample_cancel_def)
qed

section \<open>Tasks over time\<close>

fun svc_target :: "svc_command \<Rightarrow> uuid \<Rightarrow> uuid" where
  \<comment> \<open>the task a command is for; a submission is for the new id\<close>
  "svc_target (Svc_submit c) tid = tid"
| "svc_target (Svc_claim c) tid = mc_task_id c"
| "svc_target (Svc_renew c) tid = nc_task_id c"
| "svc_target (Svc_cancel c) tid = cc_task_id c"
| "svc_target (Svc_confirm c) tid = fc_task_id c"
| "svc_target (Svc_complete c) tid = oc_task_id c"
| "svc_target (Svc_fail c) tid = lc_task_id c"
| "svc_target (Svc_requeue c) tid = qc_task_id c"
| "svc_target (Svc_retry c) tid = yc_task_id c"
| "svc_target (Svc_recover c) tid = rc_task_id c"

lemma spec_exec_other:
  "spec_exec cmd now tid aid eid (m, R) ((m', R'), r) \<Longrightarrow> i \<noteq> svc_target cmd tid \<Longrightarrow> m' i = m i"
  by (cases cmd) (auto simp: spec_submit_def spec_claim_def spec_put_def spec_once_def
      split: option.splits sum.splits if_splits)

definition advances :: "datetime \<Rightarrow> uuid \<Rightarrow> uuid \<Rightarrow> task \<Rightarrow> task \<Rightarrow> bool" where
  "advances now aid eid t t' \<longleftrightarrow>
     t' = t \<or> (\<exists>opr. run_op opr now eid t = Inr t' \<and> op_ids opr eid \<subseteq> {aid, eid})"

lemma advancesI: "run_op opr now eid t = Inr t' \<Longrightarrow> op_ids opr eid \<subseteq> {aid, eid} \<Longrightarrow> advances now aid eid t t'"
  by (auto simp: advances_def)

lemma spec_put_advances:
  assumes "((m', R'), r) = spec_put k f (m, R)" "m i = Some t" "op_ids opr eid \<subseteq> {aid, eid}"
    "\<And>t t' x. f t = Inr (t', x) \<Longrightarrow> run_op opr now eid t = Inr t'"
  shows "\<exists>t'. m' i = Some t' \<and> advances now aid eid t t'"
  using assms by (auto simp: spec_put_def advances_def split: option.splits sum.splits if_splits)

lemma spec_once_advances:
  assumes "((m', R'), r) = spec_once ct cid k f (m, R)" "m i = Some t" "op_ids opr eid \<subseteq> {aid, eid}"
    "\<And>t. f t = run_op opr now eid t"
  shows "\<exists>t'. m' i = Some t' \<and> advances now aid eid t t'"
  using assms by (auto simp: spec_once_def advances_def split: option.splits sum.splits if_splits)

lemma spec_exec_advances:
  assumes "spec_exec cmd now tid aid eid (m, R) ((m', R'), r)" "m i = Some t" "m tid = None"
  shows "\<exists>t'. m' i = Some t' \<and> advances now aid eid t t'"
proof (cases cmd)
  case (Svc_submit c)
  with assms have "m' i = Some t"
    by (auto simp: spec_submit_def split: sum.splits if_splits)
  then show ?thesis by (simp add: advances_def)
next
  case (Svc_claim c)
  let ?f = "as_leased (claim (mc_worker_id c) (mc_claim_id c) (mc_lease_token c)
      (mc_lease_expires_at c) now aid eid)"
  have "m' = m \<or> ((m', R'), r) = spec_put (mc_task_id c) ?f (m, R)"
    using assms(1) Svc_claim by (auto simp: spec_claim_def spec_put_def split: option.splits sum.splits)
  then show ?thesis
    using spec_put_advances [of m' R' r "mc_task_id c" ?f m R i t "Op_claim (mc_worker_id c)
        (mc_claim_id c) (mc_lease_token c) (mc_lease_expires_at c) aid" eid aid now] assms(2)
    by (auto simp: advances_def op_ids_def as_leased_def errE_simps)
next
  case (Svc_renew c)
  show ?thesis
    by (rule spec_put_advances [OF assms(1) [unfolded Svc_renew spec_exec.simps] assms(2),
        of "Op_renew (nc_attempt_id c) (nc_lease_token c) (nc_renewal_sequence c) (nc_lease_expires_at c)"])
      (auto simp: op_ids_def as_leased_def errE_simps)
next
  case (Svc_cancel c)
  show ?thesis
    by (rule spec_once_advances [OF assms(1) [unfolded Svc_cancel spec_exec.simps] assms(2),
        of "Op_cancel (cc_command_id c)"]) (auto simp: op_ids_def)
next
  case (Svc_confirm c)
  show ?thesis
    by (rule spec_put_advances [OF assms(1) [unfolded Svc_confirm spec_exec.simps] assms(2),
        of "Op_confirm (fc_attempt_id c) (fc_lease_token c)"])
      (auto simp: op_ids_def as_view_def errE_simps)
next
  case (Svc_complete c)
  show ?thesis
    by (rule spec_put_advances [OF assms(1) [unfolded Svc_complete spec_exec.simps] assms(2),
        of "Op_complete (oc_attempt_id c) (oc_lease_token c) (oc_result_fingerprint c) (oc_result_summary c)"])
      (auto simp: op_ids_def as_view_def errE_simps)
next
  case (Svc_fail c)
  show ?thesis
    by (rule spec_put_advances [OF assms(1) [unfolded Svc_fail spec_exec.simps] assms(2),
        of "Op_fail (lc_attempt_id c) (lc_lease_token c) (lc_failure_category c) (lc_failure_code c)
          (lc_result_fingerprint c) (lc_retry_at c)"])
      (auto simp: op_ids_def as_view_def errE_simps)
next
  case (Svc_requeue c)
  show ?thesis
    by (rule spec_once_advances [OF assms(1) [unfolded Svc_requeue spec_exec.simps] assms(2),
        of "Op_requeue (qc_command_id c)"]) (auto simp: op_ids_def)
next
  case (Svc_retry c)
  show ?thesis
    by (rule spec_once_advances [OF assms(1) [unfolded Svc_retry spec_exec.simps] assms(2),
        of "Op_retry (yc_command_id c)"]) (auto simp: op_ids_def)
next
  case (Svc_recover c)
  show ?thesis
    by (rule spec_once_advances [OF assms(1) [unfolded Svc_recover spec_exec.simps] assms(2),
        of "Op_recover (rc_command_id c) (rc_retry_at c) (rc_attempt_id c)"]) (auto simp: op_ids_def)
qed

lemma exec_task_step:
  assumes "served db" "fresh_ids db tid aid eid"
    "svc_exec (postgres_port None locked) cmd now tid aid eid db = (db', r)" "pg_view db i = Some t"
  shows "\<exists>t'. pg_view db' i = Some t' \<and> task_step\<^sup>*\<^sup>* t t'"
proof -
  note ok = served_ok [OF assms(1)]
  have "pg_view db tid = None" using assms(2) ok by (simp add: pg_view_None fresh_ids_def)
  from spec_exec_advances [OF served_refines [OF assms(1-3)] assms(4) this]
  obtain t' where t': "pg_view db' i = Some t'" "advances now aid eid t t'" by blast
  have ids: "task_ids t \<subseteq> pg_used db" using assms(4) represents_ids [OF ok] by (simp add: pg_view_iff [OF ok])
  have "t' = t \<or> task_step t t'"
  proof (cases "t' = t")
    case False
    then obtain opr where o: "run_op opr now eid t = Inr t'" "op_ids opr eid \<subseteq> {aid, eid}"
      using t'(2) by (auto simp: advances_def)
    have "op_ids opr eid \<inter> pg_used db = {}" using o(2) assms(2) by (auto simp: fresh_ids_def)
    from op_fresh_used [OF this ids] o(1) show ?thesis by (blast intro: task_step.step)
  qed simp
  with t'(1) show ?thesis by auto
qed

lemma later_task:
  assumes "later db d" "served db" "pg_view db i = Some t"
  shows "\<exists>u. pg_view d i = Some u \<and> task_step\<^sup>*\<^sup>* t u"
  using assms
proof (induction rule: later.induct)
  case (more db d tid aid eid locked cmd now d' r)
  then obtain u where u: "pg_view d i = Some u" "task_step\<^sup>*\<^sup>* t u" by blast
  have "served d" using later_served [OF more.hyps(1) more.prems(1)] by simp
  from exec_task_step [OF this more.hyps(2,3) u(1)] u(2) show ?case by (metis rtranclp_trans)
qed auto

text \<open>
  C17: commands for different tasks do not interfere. A command changes at most the task it names (a
  submission only the new one), that task only by steps of its life cycle, and no stored task ever
  disappears, however many commands follow.
\<close>

theorem commands_are_isolated:
  assumes "served db" "fresh_ids db tid aid eid"
    "svc_exec (postgres_port None locked) cmd now tid aid eid db = (db', r)" "pg_view db i = Some t"
  shows "\<exists>t'. pg_view db' i = Some t' \<and> task_step\<^sup>*\<^sup>* t t' \<and> (i \<noteq> svc_target cmd tid \<longrightarrow> t' = t)"
  using exec_task_step [OF assms] spec_exec_other [OF served_refines [OF assms(1-3)], of i] assms(4)
  by auto

theorem commands_are_isolated_witness:
  "\<exists>t'. pg_view (fst (svc_exec (postgres_port None (\<lambda>_. False)) sample_cancel (Aware 5) 2 7 11 sample_db1)) 1
      = Some t' \<and> task_step\<^sup>*\<^sup>* sample_new t'"
  using commands_are_isolated [OF sample_db1_served sample_db1_fresh prod.collapse [symmetric] sample_db1_view]
  by blast

section \<open>Submissions and claims\<close>

lemma submit_create_key:
  assumes "create_task ty owner key input mx dm allow now tid eid = Inr t"
  shows "submission_key t = (py_strip owner, py_strip ty, py_strip key)
    \<and> t_input_fingerprint t = py_strip input \<and> t_events t \<noteq> []"
  using create_task_returns [OF assms] by cases (auto simp: submission_key_def)

lemma submit_spec_key:
  assumes "spec_submit c now tid eid (m, R) ((m', R'), Inr (Res_view v))" "\<And>i t. m i = Some t \<Longrightarrow> t_id t = i"
  shows "\<exists>t. m' (v_id v) = Some t \<and> submission_key t = (py_strip (sc_owner_subject c),
      py_strip (sc_task_type c), py_strip (sc_idempotency_key c))
    \<and> t_input_fingerprint t = py_strip (sc_input_fingerprint c)"
proof -
  from assms(1) obtain t where mk: "create_task (sc_task_type c) (sc_owner_subject c) (sc_idempotency_key c)
      (sc_input_fingerprint c) (sc_max_attempts c) (sc_display_metadata c)
      (sc_allow_manual_retry c) now tid eid = Inr t"
    by (auto simp: spec_submit_def split: sum.splits)
  note key = submit_create_key [OF mk]
  have id: "t_id t = tid" using create_task_returns [OF mk] by cases simp
  have "(\<exists>i u. m i = Some u \<and> submission_key u = submission_key t \<and> m' = m
       \<and> t_input_fingerprint u = t_input_fingerprint t \<and> v = view_from_task u)
     \<or> m' = m(tid \<mapsto> t) \<and> v = view_from_task t"
    using assms(1) mk by (auto simp: spec_submit_def split: if_splits)
  then show ?thesis
    using id key assms(2) by (fastforce simp: view_from_task_def)
qed

lemma step_keeps_key:
  assumes "task_step\<^sup>*\<^sup>* t u" "task_reachable t"
  shows "submission_key u = submission_key t \<and> t_input_fingerprint u = t_input_fingerprint t \<and> t_id u = t_id t"
  using steps_evolve [OF assms] by (simp add: same_task_def submission_key_def)

lemma submission_kept:
  assumes "served db" "fresh_ids db tid aid eid"
    "svc_exec (postgres_port None locked) (Svc_submit c) now tid aid eid db = (db1, Inr (Res_view v))" "later db1 db2"
  obtains t where "served db2" "pg_view db2 (v_id v) = Some t" "t_id t = v_id v"
    "submission_key t = (py_strip (sc_owner_subject c), py_strip (sc_task_type c), py_strip (sc_idempotency_key c))"
    "t_input_fingerprint t = py_strip (sc_input_fingerprint c)"
proof -
  have s1: "served db1" using served.command [OF assms(1-3)] .
  have ids: "\<And>i t. pg_view db i = Some t \<Longrightarrow> t_id t = i" by (simp add: pg_view_iff [OF served_ok [OF assms(1)]])
  from submit_spec_key [OF served_refines [OF assms(1-3), unfolded spec_exec.simps] ids]
  obtain u where u: "pg_view db1 (v_id v) = Some u" "submission_key u = (py_strip (sc_owner_subject c),
      py_strip (sc_task_type c), py_strip (sc_idempotency_key c))"
    "t_input_fingerprint u = py_strip (sc_input_fingerprint c)" by blast
  from later_task [OF assms(4) s1 u(1)] obtain t where t: "pg_view db2 (v_id v) = Some t" "task_step\<^sup>*\<^sup>* u t"
    by blast
  have s2: "served db2" using later_served [OF assms(4) s1] by simp
  moreover have "t_id t = v_id v" using t(1) by (simp add: pg_view_iff [OF served_ok [OF s2]])
  moreover note step_keeps_key [OF t(2) served_reachable [OF s1 u(1)]]
  ultimately show thesis using that [OF s2 t(1)] u(2,3) by simp
qed

lemma submission_again:
  assumes "served db" "pg_view db i = Some t" "create_task (sc_task_type c) (sc_owner_subject c) (sc_idempotency_key c)
       (sc_input_fingerprint c) (sc_max_attempts c) (sc_display_metadata c) (sc_allow_manual_retry c) now tid eid = Inr t2"
    "submission_key t = (py_strip (sc_owner_subject c), py_strip (sc_task_type c), py_strip (sc_idempotency_key c))"
  shows "svc_submit (postgres_port None locked) c now tid eid db =
     (db, if py_strip (sc_input_fingerprint c) = t_input_fingerprint t
          then Inr (view_from_task t) else Inl TaskIdempotencyConflictError)"
proof -
  note new = submit_create_key [OF assms(3)]
  have "rp_create_or_get_submission (postgres_port None locked) t2 db = Inr (db, t)"
    by (rule pg.submit_existing [OF served_ok [OF assms(1)] _ assms(2)]) (use new assms(4) in simp_all)
  then show ?thesis using new assms(3) by (simp add: svc_submit_def bindA_def writeA_def)
qed

text \<open>
  C18: a submission happens once. After a submission has returned a task, submitting the same owner,
  type and key again, at any time and with any other valid policy fields, writes nothing: with the same
  input fingerprint it returns that task as it then is, and with another one it is refused as a
  conflict.
\<close>

theorem submission_happens_once:
  assumes "served db" "fresh_ids db tid aid eid"
    "svc_exec (postgres_port None locked) (Svc_submit c) now tid aid eid db = (db1, Inr (Res_view v))"
    "later db1 db2"
    "sc_owner_subject c2 = sc_owner_subject c" "sc_task_type c2 = sc_task_type c"
    "sc_idempotency_key c2 = sc_idempotency_key c"
    "create_task (sc_task_type c2) (sc_owner_subject c2) (sc_idempotency_key c2)
       (sc_input_fingerprint c2) (sc_max_attempts c2) (sc_display_metadata c2)
       (sc_allow_manual_retry c2) now2 tid2 eid2 = Inr t2"
  shows "\<exists>t. pg_view db2 (v_id v) = Some t
    \<and> svc_exec (postgres_port None locked) (Svc_submit c2) now2 tid2 aid2 eid2 db2 =
        (db2, if py_strip (sc_input_fingerprint c2) = py_strip (sc_input_fingerprint c)
              then Inr (Res_view (view_from_task t)) else Inl TaskIdempotencyConflictError)"
proof -
  from submission_kept [OF assms(1-4)] obtain t where t: "served db2" "pg_view db2 (v_id v) = Some t"
    "submission_key t = (py_strip (sc_owner_subject c), py_strip (sc_task_type c), py_strip (sc_idempotency_key c))"
    "t_input_fingerprint t = py_strip (sc_input_fingerprint c)" by blast
  from submission_again [OF t(1,2) assms(8), of locked] show ?thesis
    using t(2-4) assms(5-7) by (simp add: resultA_def bindA_def)
qed

definition sample_submit2 :: submit_command where
  "sample_submit2 = sample_submit\<lparr>sc_max_attempts := 5, sc_owner_subject := ''alice''\<rparr>"

theorem submission_happens_once_witness:
  "\<exists>t. pg_view sample_db1 1 = Some t
    \<and> svc_exec (postgres_port None (\<lambda>_. False)) (Svc_submit sample_submit2) (Aware 900) 3 8 12 sample_db1 =
        (sample_db1, Inr (Res_view (view_from_task t)))"
proof -
  let ?p = "svc_exec (postgres_port None (\<lambda>_. False)) (Svc_submit sample_submit) (Aware 0) 1 0 10 sample_db0"
  have s0: "served sample_db0" by (rule served.empty) (simp_all add: sample_db0_def)
  have f0: "fresh_ids sample_db0 1 0 10"
    by (simp add: fresh_ids_def sample_db0_def pg_used_def pg_supplied_def)
  have "(case snd ?p of Inr (Res_view v) \<Rightarrow> v_id v = 1 | _ \<Rightarrow> False)" by code_simp
  then obtain v where v: "?p = (sample_db1, Inr (Res_view v))" "v_id v = 1"
    by (cases ?p) (auto simp: sample_db1_def split: sum.splits svc_result.splits)
  have "(case create_task (sc_task_type sample_submit2) (sc_owner_subject sample_submit2)
       (sc_idempotency_key sample_submit2) (sc_input_fingerprint sample_submit2)
       (sc_max_attempts sample_submit2) (sc_display_metadata sample_submit2)
       (sc_allow_manual_retry sample_submit2) (Aware 900) 3 12 of Inr t \<Rightarrow> True | Inl e \<Rightarrow> False)"
    by code_simp
  then obtain t2 where t2: "create_task (sc_task_type sample_submit2) (sc_owner_subject sample_submit2)
       (sc_idempotency_key sample_submit2) (sc_input_fingerprint sample_submit2)
       (sc_max_attempts sample_submit2) (sc_display_metadata sample_submit2)
       (sc_allow_manual_retry sample_submit2) (Aware 900) 3 12 = Inr t2"
    by (auto split: sum.splits)
  from submission_happens_once [OF s0 f0 v(1) later.same _ _ _ t2] v(2)
  show ?thesis by (simp add: sample_submit2_def sample_submit_def)
qed

end
