(* ===== verification/Task_Worker.thy ===== *)
theory Task_Worker
  imports Task_Service_Theorems
begin

text \<open>
  The worker (\<open>app/platform/task/application/worker.py\<close>, \<open>ports/worker.py\<close>): it leases the next queued
  task, hands it to the executor of its type, and reports what came back to the lifecycle service.

  The executor is outside the repository. One poll is therefore two halves, claiming and reporting, with
  the executor's answer in between, during which any other command may be served; the callbacks it is
  given are actions of their own. \<open>release_claim_slot\<close> ends a transaction that wrote nothing.
\<close>

section \<open>Leases\<close>

record lease_grant =
  lg_lease_token :: string
  lg_lease_expires_at :: int

record lease_issuer = li_ttl :: int

definition mk_issuer :: "int \<Rightarrow> task_error + lease_issuer" where
  "mk_issuer ttl = (if ttl \<le> 0 then Inl (ValueError Bad_worker_setup) else Inr \<lparr>li_ttl = ttl\<rparr>)"

definition issue_lease :: "lease_issuer \<Rightarrow> string \<Rightarrow> datetime \<Rightarrow> string \<Rightarrow> task_error + lease_grant" where
  \<comment> \<open>\<open>token\<close> is what the token factory returns\<close>
  "issue_lease issuer worker_id now token =
     (if py_strip worker_id = [] then Inl (ValueError Bad_worker_setup)
      else bindE (require_utc now) (\<lambda>n.
        if py_strip token = [] then Inl (ValueError Bad_worker_setup)
        else Inr \<lparr>lg_lease_token = token, lg_lease_expires_at = n + li_ttl issuer\<rparr>))"

definition renew_until :: "lease_issuer \<Rightarrow> string \<Rightarrow> int \<Rightarrow> int \<Rightarrow> task_error + int" where
  "renew_until issuer worker_id now current =
     (if py_strip worker_id = [] then Inl (ValueError Bad_worker_setup)
      else let renewed = max now current + li_ttl issuer
           in if renewed \<le> current then Inl (ValueError Bad_worker_setup) else Inr renewed)"

section \<open>What executors answer\<close>

datatype execution_outcome =
    Task_success (xo_fingerprint: string) (xo_summary: string)
  | Task_failure failure_category string string "datetime option"
  | Task_cancellation

datatype execution_answer =
    Answered execution_outcome
  | Lease_rejected \<comment> \<open>\<open>TaskLeaseRejectedError\<close>\<close>
  | Raised \<comment> \<open>any other exception\<close>
  | Unusable \<comment> \<open>a value of another type\<close>

fun checked_outcome :: "execution_answer \<Rightarrow> execution_outcome" where
  \<comment> \<open>not used for a rejected lease\<close>
  "checked_outcome Unusable =
     Task_failure PERMANENT ''INVALID_EXECUTOR_RESULT'' ''invalid-executor-result'' None"
| "checked_outcome (Answered (Task_failure category code fingerprint retry_at)) =
     (if category = TRANSIENT \<and> retry_at = None
      then Task_failure PERMANENT ''INVALID_RETRY_SCHEDULE'' ''invalid-retry-schedule'' None
      else Task_failure category code fingerprint retry_at)"
| "checked_outcome (Answered outcome) = outcome"
| "checked_outcome _ = Task_failure PERMANENT ''EXECUTOR_FAILED'' ''executor-failed'' None"

section \<open>The worker\<close>

datatype poll_status = POLL_IDLE | POLL_SUCCEEDED | POLL_FAILED | POLL_CANCELLED | POLL_REJECTED

record poll_result =
  kr_status :: poll_status
  kr_task :: "task_view option"
  kr_error_code :: "string option"

abbreviation idle_poll :: poll_result where
  "idle_poll \<equiv> \<lparr>kr_status = POLL_IDLE, kr_task = None, kr_error_code = None\<rparr>"

definition rejected_poll :: "string \<Rightarrow> poll_result" where
  "rejected_poll code = \<lparr>kr_status = POLL_REJECTED, kr_task = None, kr_error_code = Some code\<rparr>"

record task_worker =
  tw_worker_id :: string
  tw_issuer :: lease_issuer
  tw_types :: "string list" \<comment> \<open>the task types with an executor\<close>

definition mk_worker :: "string \<Rightarrow> lease_issuer \<Rightarrow> string list \<Rightarrow> task_error + task_worker" where
  "mk_worker worker_id issuer types =
     (if py_strip worker_id = [] then Inl (ValueError Bad_worker_setup)
      else Inr \<lparr>tw_worker_id = py_strip worker_id, tw_issuer = issuer, tw_types = types\<rparr>)"

text \<open>A claim draws the executor's lease token and claim id, and two UUIDs for the new rows.\<close>

record claim_draw =
  cd_token :: string
  cd_claim_id :: uuid
  cd_attempt :: uuid
  cd_event :: uuid

definition claim_command_of :: "task_worker \<Rightarrow> task \<Rightarrow> lease_grant \<Rightarrow> uuid \<Rightarrow> claim_command" where
  "claim_command_of w t grant claim_id =
     \<lparr>mc_task_id = t_id t, mc_worker_id = tw_worker_id w, mc_claim_id = uuid_str claim_id,
      mc_lease_token = lg_lease_token grant, mc_lease_expires_at = Aware (lg_lease_expires_at grant)\<rparr>"

definition poll_claim ::
  "'s task_repository_port \<Rightarrow> task_worker \<Rightarrow> int \<Rightarrow> datetime \<Rightarrow> claim_draw \<Rightarrow>
   ('s, (task \<times> leased_result) option) task_action" where
  \<comment> \<open>\<open>poll_once\<close> up to the call of the executor; \<open>called\<close> is the service's clock\<close>
  "poll_claim port w now called draw =
     bindA (readA (rp_get_next_queued_for_update port now)) (\<lambda>candidate. case candidate of
       None \<Rightarrow> returnA None
     | Some t \<Rightarrow>
         bindA (liftA (issue_lease (tw_issuer w) (tw_worker_id w) (Aware now) (cd_token draw))) (\<lambda>grant.
         bindA (svc_claim port (claim_command_of w t grant (cd_claim_id draw)) called (cd_attempt draw) (cd_event draw))
           (\<lambda>claimed. returnA (Some (t, claimed)))))"

definition reported ::
  "poll_status \<Rightarrow> string \<Rightarrow> ('s, task_view) task_action \<Rightarrow> ('s, poll_result) task_action" where
  \<comment> \<open>the \<open>try\<close> around reporting to the service\<close>
  "reported status code call =
     tryA call (\<lambda>_. returnA (rejected_poll code))
       (\<lambda>v. returnA \<lparr>kr_status = status, kr_task = Some v, kr_error_code = None\<rparr>)"

definition report_outcome ::
  "'s task_repository_port \<Rightarrow> uuid \<Rightarrow> attempt_lease \<Rightarrow> execution_outcome \<Rightarrow> datetime \<Rightarrow> uuid \<Rightarrow> ('s, poll_result) task_action" where
  "report_outcome port tid lease outcome now eid = (case outcome of
     Task_cancellation \<Rightarrow> reported POLL_CANCELLED ''CANCELLATION_COMMIT_REJECTED''
       (svc_confirm_cancellation port \<lparr>fc_task_id = tid, fc_attempt_id = al_attempt_id lease,
          fc_lease_token = al_lease_token lease\<rparr> now eid)
   | Task_success fingerprint res \<Rightarrow> reported POLL_SUCCEEDED ''RESULT_COMMIT_REJECTED''
       (svc_complete port \<lparr>oc_task_id = tid, oc_attempt_id = al_attempt_id lease,
          oc_lease_token = al_lease_token lease, oc_result_fingerprint = fingerprint,
          oc_result_summary = res\<rparr> now eid)
   | Task_failure category code fingerprint retry_at \<Rightarrow> reported POLL_FAILED ''FAILURE_COMMIT_REJECTED''
       (svc_fail port \<lparr>lc_task_id = tid, lc_attempt_id = al_attempt_id lease,
          lc_lease_token = al_lease_token lease, lc_failure_category = category, lc_failure_code = code,
          lc_result_fingerprint = fingerprint, lc_retry_at = retry_at\<rparr> now eid))"

definition poll_report ::
  "'s task_repository_port \<Rightarrow> task_worker \<Rightarrow> task \<Rightarrow> leased_result \<Rightarrow> execution_answer \<Rightarrow> datetime \<Rightarrow> uuid \<Rightarrow>
   ('s, poll_result) task_action" where
  \<comment> \<open>\<open>poll_once\<close> after the claim, given the executor's answer; without an executor the answer is not read\<close>
  "poll_report port w candidate claimed answer now eid =
     (let report = report_outcome port (v_id (lr_task claimed)) (lr_lease claimed)
      in if t_task_type candidate \<notin> set (tw_types w)
         then report (Task_failure PERMANENT ''EXECUTOR_UNAVAILABLE'' ''executor-unavailable'' None) now eid
         else if answer = Lease_rejected then returnA (rejected_poll ''LEASE_REJECTED'')
         else report (checked_outcome answer) now eid)"

record execution_context =
  \<comment> \<open>what an executor may see of a task; its two callbacks are actions below\<close>
  xt_task_id :: uuid
  xt_task_type :: string
  xt_owner_subject :: string
  xt_display_metadata :: "(string \<times> string) list"
  xt_lease :: attempt_lease

definition context_of :: "task \<Rightarrow> leased_result \<Rightarrow> execution_context" where
  "context_of t claimed =
     \<lparr>xt_task_id = t_id t, xt_task_type = t_task_type t, xt_owner_subject = t_owner_subject t,
      xt_display_metadata = t_display_metadata t, xt_lease = lr_lease claimed\<rparr>"

definition poll_once ::
  "'s task_repository_port \<Rightarrow> task_worker \<Rightarrow> int \<Rightarrow> datetime \<Rightarrow> claim_draw \<Rightarrow>
   (execution_context \<Rightarrow> 's \<Rightarrow> 's \<times> execution_answer) \<Rightarrow> datetime \<Rightarrow> uuid \<Rightarrow> ('s, poll_result) task_action" where
  \<comment> \<open>\<open>work\<close> is what happens to the store while the executor runs, and its answer\<close>
  "poll_once port w now called draw work reported_at eid =
     bindA (poll_claim port w now called draw) (\<lambda>found. case found of
       None \<Rightarrow> returnA idle_poll
     | Some (t, claimed) \<Rightarrow>
         bindA (\<lambda>s. if t_task_type t \<notin> set (tw_types w) then (s, Inr Raised)
             else case work (context_of t claimed) s of (s', answer) \<Rightarrow> (s', Inr answer)) (\<lambda>answer.
           poll_report port w t claimed answer reported_at eid))"

section \<open>The callbacks of an execution\<close>

record renewal_state =
  rn_sequence :: int
  rn_expires_at :: int

definition first_renewal :: "leased_result \<Rightarrow> renewal_state" where
  "first_renewal claimed = \<lparr>rn_sequence = 0, rn_expires_at = al_lease_expires_at (lr_lease claimed)\<rparr>"

definition renew_callback ::
  "'s task_repository_port \<Rightarrow> task_worker \<Rightarrow> leased_result \<Rightarrow> int \<Rightarrow> datetime \<Rightarrow> ('s \<times> renewal_state, attempt_lease) task_action" where
  \<comment> \<open>a renewal that the service refuses has used up its number\<close>
  "renew_callback port w claimed now called = (\<lambda>(s, st).
     case renew_until (tw_issuer w) (al_worker_id (lr_lease claimed)) now (rn_expires_at st) of
       Inl e \<Rightarrow> ((s, st), Inl e)
     | Inr next_at \<Rightarrow>
         let st' = st\<lparr>rn_sequence := rn_sequence st + 1\<rparr> in
         (case svc_renew_lease port \<lparr>nc_task_id = v_id (lr_task claimed),
              nc_attempt_id = al_attempt_id (lr_lease claimed), nc_lease_token = al_lease_token (lr_lease claimed),
              nc_renewal_sequence = rn_sequence st', nc_lease_expires_at = Aware next_at\<rparr> called s of
            (s', Inl e) \<Rightarrow> ((s', st'), Inl e)
          | (s', Inr r) \<Rightarrow> ((s', st'\<lparr>rn_expires_at := al_lease_expires_at (lr_lease r)\<rparr>), Inr (lr_lease r))))"

definition cancel_callback ::
  "'s task_repository_port \<Rightarrow> leased_result \<Rightarrow> datetime \<Rightarrow> ('s, bool) task_action" where
  "cancel_callback port claimed now =
     svc_is_cancel_requested port \<lparr>kc_task_id = v_id (lr_task claimed),
       kc_attempt_id = al_attempt_id (lr_lease claimed), kc_lease_token = al_lease_token (lr_lease claimed)\<rparr> now"

end
