(* ===== verification/Json.thy ===== *)
theory Json
  imports Prelude "HOL-Library.Multiset" "HOL-Library.List_Lexorder" "HOL-Library.Char_ord"
begin

text \<open>
  JSON values as the code passes them around, and \<open>json.dumps\<close> in the canonical form the code hashes
  (\<open>ensure_ascii=False, sort_keys=True, separators=(",", ":")\<close>).

  A float is its \<open>repr\<close> text, which is what \<open>json.dumps\<close> writes; \<open>JOther\<close> stands for every object
  \<open>json.dumps\<close> refuses. An object is its list of items; the code never relies on their order, so the
  canonical text sorts them.
\<close>

datatype json =
    JNull
  | JBool bool
  | JInt int
  | JFloat string
  | JStr string
  | JList "json list"
  | JObj "(string \<times> json) list"
  | JOther

type_synonym json_dict = "(string \<times> json) list"

definition finite_float :: "string \<Rightarrow> bool" where
  "finite_float s \<longleftrightarrow> s \<notin> {''nan'', ''inf'', ''-inf''}"

fun json_ok :: "json \<Rightarrow> bool" where
  \<comment> \<open>\<open>json.dumps(value, allow_nan=False)\<close> does not raise\<close>
  "json_ok (JFloat s) = finite_float s"
| "json_ok (JList xs) = list_all json_ok xs"
| "json_ok (JObj kvs) = list_all (\<lambda>(k, v). json_ok v) kvs"
| "json_ok JOther = False"
| "json_ok _ = True"

section \<open>Decimal text\<close>

definition digit_char :: "nat \<Rightarrow> char" where
  "digit_char n = ''0123456789'' ! n"

fun nat_str :: "nat \<Rightarrow> string" where
  "nat_str n = (if n < 10 then [digit_char n] else nat_str (n div 10) @ [digit_char (n mod 10)])"

declare nat_str.simps [simp del]

definition int_str :: "int \<Rightarrow> string" where
  \<comment> \<open>\<open>str(n)\<close>\<close>
  "int_str n = (if n < 0 then CHR ''-'' # nat_str (nat (- n)) else nat_str (nat n))"

lemma digit_char_inj: "m < 10 \<Longrightarrow> n < 10 \<Longrightarrow> digit_char m = digit_char n \<Longrightarrow> m = n"
proof -
  assume "m < 10" "n < 10" "digit_char m = digit_char n"
  moreover have "distinct ''0123456789''" by simp
  moreover have "length ''0123456789'' = 10" by simp
  ultimately show "m = n" unfolding digit_char_def by (metis nth_eq_iff_index_eq)
qed

lemma digit_char_digit: "n < 10 \<Longrightarrow> is_digit (digit_char n)"
proof -
  assume "n < 10"
  moreover have "list_all is_digit ''0123456789''" by (simp add: is_digit_def)
  ultimately show ?thesis by (simp add: digit_char_def list_all_length)
qed

lemma nat_str_digits: "list_all is_digit (nat_str n)"
proof (induction n rule: nat_str.induct)
  case (1 n)
  then show ?case by (subst nat_str.simps) (simp add: digit_char_digit)
qed

lemma nat_str_nonempty [simp]: "nat_str n \<noteq> []"
  by (subst nat_str.simps) simp

lemma nat_str_inj: "nat_str m = nat_str n \<Longrightarrow> m = n"
proof (induction m arbitrary: n rule: nat_str.induct)
  case (1 m)
  show ?case
  proof (cases "m < 10 \<or> n < 10")
    case True
    with 1(2) show ?thesis
      by (subst (asm) nat_str.simps, subst (asm) (2) nat_str.simps)
        (auto split: if_splits dest: digit_char_inj sym [of "[]"])
  next
    case False
    then have "nat_str (m div 10) = nat_str (n div 10) \<and> digit_char (m mod 10) = digit_char (n mod 10)"
      using 1(2) by (subst (asm) nat_str.simps, subst (asm) (2) nat_str.simps) simp
    with 1(1) False have "m div 10 = n div 10" "m mod 10 = n mod 10"
      by (auto intro: digit_char_inj)
    then show ?thesis by (metis div_mult_mod_eq)
  qed
qed

lemma int_str_inj: "int_str m = int_str n \<Longrightarrow> m = n"
proof -
  have minus: "CHR ''-'' # s \<noteq> nat_str k" for s k
    using nat_str_digits [of k] by (cases "nat_str k") (auto simp: is_digit_def)
  assume "int_str m = int_str n"
  then show "m = n"
    using minus minus [symmetric] by (auto simp: int_str_def split: if_splits dest: nat_str_inj)
qed

section \<open>Canonical text\<close>

definition escape_char :: "char \<Rightarrow> string" where
  \<comment> \<open>\<open>json.encoder.ESCAPE_DCT\<close>: quote, backslash and the control characters\<close>
  "escape_char c =
     (if c = CHR 0x22 then [CHR 0x5C, CHR 0x22]
      else if c = CHR 0x5C then [CHR 0x5C, CHR 0x5C]
      else if c = CHR 0x0A then [CHR 0x5C, CHR ''n'']
      else if c = CHR 0x0D then [CHR 0x5C, CHR ''r'']
      else if c = CHR 0x09 then [CHR 0x5C, CHR ''t'']
      else if c = CHR 0x0C then [CHR 0x5C, CHR ''f'']
      else if c = CHR 0x08 then [CHR 0x5C, CHR ''b'']
      else if (of_char c :: nat) < 32 then
        [CHR 0x5C, CHR ''u'', CHR ''0'', CHR ''0'', hex_digit (of_char c div 16), hex_digit (of_char c mod 16)]
      else [c])"

definition json_string :: "string \<Rightarrow> string" where
  "json_string s = CHR 0x22 # concat (map escape_char s) @ [CHR 0x22]"

fun joined :: "string \<Rightarrow> string list \<Rightarrow> string" where
  \<comment> \<open>\<open>sep.join(parts)\<close>\<close>
  "joined sep [] = []"
| "joined sep [s] = s"
| "joined sep (s # t # ts) = s @ sep @ joined sep (t # ts)"

fun json_dumps :: "json \<Rightarrow> string" where
  "json_dumps JNull = ''null''"
| "json_dumps (JBool b) = (if b then ''true'' else ''false'')"
| "json_dumps (JInt n) = int_str n"
| "json_dumps (JFloat s) = s"
| "json_dumps (JStr s) = json_string s"
| "json_dumps (JList xs) = ''['' @ joined '','' (map json_dumps xs) @ '']''"
| "json_dumps (JObj kvs) =
     ''{'' @ joined '','' (map (\<lambda>(k, t). json_string k @ '':'' @ t)
               (sort_key fst (map (\<lambda>(k, v). (k, json_dumps v)) kvs))) @ ''}''"
| "json_dumps JOther = []"

lemma sort_key_unique:
  assumes "mset xs = mset ys" "distinct (map f xs)"
  shows "sort_key f xs = sort_key f ys"
proof (rule map_sorted_distinct_set_unique)
  have d: "distinct (map f ys)" using assms by (metis mset_eq_imp_distinct_iff mset_map)
  have set_eq: "set xs = set ys" using assms(1) by (metis set_mset_mset)
  show "inj_on f (set (sort_key f xs) \<union> set (sort_key f ys))"
    using assms(2) set_eq by (simp add: distinct_map)
  show "distinct (map f (sort_key f xs))" "distinct (map f (sort_key f ys))"
    using assms(2) d by (metis distinct_sort mset_eq_imp_distinct_iff mset_map mset_sort)+
  show "set (sort_key f xs) = set (sort_key f ys)" using set_eq by simp
qed simp_all

lemma json_dumps_order:
  \<comment> \<open>the order of the items does not matter\<close>
  assumes "mset kvs = mset kvs'" "distinct (map fst kvs)"
  shows "json_dumps (JObj kvs) = json_dumps (JObj kvs')"
proof -
  let ?f = "\<lambda>(k, v). (k, json_dumps v)"
  have "sort_key fst (map ?f kvs) = sort_key fst (map ?f kvs')"
    using assms by (intro sort_key_unique) (simp_all add: case_prod_unfold comp_def)
  then show ?thesis by simp
qed

end
