(* ===== verification/Task_Scheduling.thy ===== *)
theory Task_Scheduling
  imports Task_Service_Theorems Json
begin

text \<open>
  The coordinators that drive the lifecycle service (\<open>app/platform/task/application/recovery.py\<close>): the
  recovery of expired leases, the requeueing of due retries, cancellation and manual retry. No error of
  the service crosses them: it becomes one of two fixed codes.

  A batch makes one service call per candidate. The clock's value and the fresh UUID of the \<open>i\<close>-th call
  are \<open>draws i\<close>; the time the candidates were looked up is an argument of its own.
\<close>

section \<open>Texts of times\<close>

definition padded :: "nat \<Rightarrow> int \<Rightarrow> string" where
  "padded w n = (let s = int_str n in replicate (w - length s) CHR ''0'' @ s)"

definition civil_date :: "int \<Rightarrow> int \<times> int \<times> int" where
  \<comment> \<open>year, month and day of the proleptic Gregorian calendar, from days since 1970-01-01\<close>
  "civil_date days =
     (let z = days + 719468; era = z div 146097; doe = z mod 146097;
          yoe = (doe - doe div 1460 + doe div 36524 - doe div 146096) div 365;
          doy = doe - (365 * yoe + yoe div 4 - yoe div 100);
          mp = (5 * doy + 2) div 153;
          d = doy - (153 * mp + 2) div 5 + 1;
          m = (if mp < 10 then mp + 3 else mp - 9)
      in (yoe + era * 400 + (if m \<le> 2 then 1 else 0), m, d))"

definition isoformat :: "int \<Rightarrow> string" where
  \<comment> \<open>\<open>datetime.isoformat\<close> of a time in UTC, given in microseconds since 1970\<close>
  "isoformat t =
     (let micro = t mod 1000000; secs = t div 1000000; (y, m, d) = civil_date (secs div 86400);
          sod = secs mod 86400
      in padded 4 y @ ''-'' @ padded 2 m @ ''-'' @ padded 2 d @ ''T'' @ padded 2 (sod div 3600) @ '':''
         @ padded 2 (sod div 60 mod 60) @ '':'' @ padded 2 (sod mod 60)
         @ (if micro = 0 then [] else ''.'' @ padded 6 micro) @ ''+00:00'')"

section \<open>Results\<close>

record scheduling_result =
  sr_task_id :: uuid
  sr_status :: "string option"
  sr_error_code :: "string option"

definition safe_error :: "task_error \<Rightarrow> string" where
  "safe_error e = (if e = TaskStateTransitionError then ''CANDIDATE_NOT_APPLICABLE'' else ''TASK_SCHEDULING_FAILED'')"

definition scheduled :: "uuid \<Rightarrow> ('s, task_view) task_action \<Rightarrow> ('s, scheduling_result) task_action" where
  \<comment> \<open>the \<open>try\<close> around a service call\<close>
  "scheduled tid call =
     tryA call (\<lambda>e. returnA \<lparr>sr_task_id = tid, sr_status = None, sr_error_code = Some (safe_error e)\<rparr>)
       (\<lambda>v. returnA \<lparr>sr_task_id = tid, sr_status = Some (task_status_value (v_status v)), sr_error_code = None\<rparr>)"

fun each_candidate :: "(nat \<Rightarrow> 'c \<Rightarrow> ('s, 'r) task_action) \<Rightarrow> nat \<Rightarrow> 'c list \<Rightarrow> ('s, 'r list) task_action" where
  "each_candidate call i [] = returnA []"
| "each_candidate call i (c # cs) =
     bindA (call i c) (\<lambda>r. bindA (each_candidate call (Suc i) cs) (\<lambda>rs. returnA (r # rs)))"

section \<open>Recovery of expired leases\<close>

record recovery_coordinator =
  rv_retry_delay :: int
  rv_batch_size :: int

definition mk_recovery :: "int \<Rightarrow> int \<Rightarrow> task_error + recovery_coordinator" where
  "mk_recovery retry_delay batch_size =
     (if retry_delay < 0 then Inl (ValueError Bad_worker_setup)
      else if batch_size \<le> 0 then Inl (ValueError Bad_worker_setup)
      else Inr \<lparr>rv_retry_delay = retry_delay, rv_batch_size = batch_size\<rparr>)"

definition recover_id :: "expired_candidate \<Rightarrow> string" where
  "recover_id c = ''recover:'' @ uuid_str (xc_task_id c) @ '':'' @ uuid_str (xc_attempt_id c) @ '':''
     @ isoformat (xc_lease_expires_at c)"

definition recover_call :: "recovery_coordinator \<Rightarrow> int \<Rightarrow> expired_candidate \<Rightarrow> recover_command" where
  "recover_call rv now c =
     \<lparr>rc_task_id = xc_task_id c, rc_command_id = recover_id c,
      rc_retry_at = (if rv_retry_delay rv > 0 then Some (Aware (now + rv_retry_delay rv)) else None),
      rc_attempt_id = Some (xc_attempt_id c)\<rparr>"

definition recover_candidate ::
  "'s task_repository_port \<Rightarrow> recovery_coordinator \<Rightarrow> int \<Rightarrow> (nat \<Rightarrow> datetime \<times> uuid) \<Rightarrow> nat \<Rightarrow> expired_candidate \<Rightarrow>
   ('s, scheduling_result) task_action" where
  "recover_candidate port rv now draws i c =
     scheduled (xc_task_id c) (svc_recover port (recover_call rv now c) (fst (draws i)) (snd (draws i)))"

definition recovery_run_once ::
  "'s task_repository_port \<Rightarrow> recovery_coordinator \<Rightarrow> int \<Rightarrow> (nat \<Rightarrow> datetime \<times> uuid) \<Rightarrow> ('s, scheduling_result list) task_action" where
  "recovery_run_once port rv now draws =
     bindA (readA (rp_get_expired_attempts_for_update port now (rv_batch_size rv)))
       (each_candidate (recover_candidate port rv now draws) 0)"

section \<open>Requeueing of due retries\<close>

record retry_scheduler = rs_batch_size :: int

definition mk_retry_scheduler :: "int \<Rightarrow> task_error + retry_scheduler" where
  "mk_retry_scheduler batch_size =
     (if batch_size \<le> 0 then Inl (ValueError Bad_worker_setup) else Inr \<lparr>rs_batch_size = batch_size\<rparr>)"

definition requeue_call :: "due_retry_candidate \<Rightarrow> requeue_command" where
  "requeue_call c =
     \<lparr>qc_task_id = dc_task_id c,
      qc_command_id = ''requeue:'' @ uuid_str (dc_task_id c) @ '':'' @ isoformat (dc_available_at c)\<rparr>"

definition requeue_candidate ::
  "'s task_repository_port \<Rightarrow> (nat \<Rightarrow> datetime \<times> uuid) \<Rightarrow> nat \<Rightarrow> due_retry_candidate \<Rightarrow> ('s, scheduling_result) task_action" where
  "requeue_candidate port draws i c =
     scheduled (dc_task_id c) (svc_requeue_due port (requeue_call c) (fst (draws i)) (snd (draws i)))"

definition retry_run_once ::
  "'s task_repository_port \<Rightarrow> retry_scheduler \<Rightarrow> int \<Rightarrow> (nat \<Rightarrow> datetime \<times> uuid) \<Rightarrow> ('s, scheduling_result list) task_action" where
  "retry_run_once port rs now draws =
     bindA (readA (rp_get_due_retries_for_update port now (rs_batch_size rs)))
       (each_candidate (requeue_candidate port draws) 0)"

section \<open>Cancellation and manual retry\<close>

definition coordinate_cancel ::
  "'s task_repository_port \<Rightarrow> uuid \<Rightarrow> string \<Rightarrow> datetime \<Rightarrow> uuid \<Rightarrow> ('s, scheduling_result) task_action" where
  "coordinate_cancel port tid cid now eid =
     scheduled tid (svc_cancel port \<lparr>cc_task_id = tid, cc_command_id = cid\<rparr> now eid)"

definition coordinate_confirm ::
  "'s task_repository_port \<Rightarrow> confirm_command \<Rightarrow> datetime \<Rightarrow> uuid \<Rightarrow> ('s, scheduling_result) task_action" where
  "coordinate_confirm port c now eid = scheduled (fc_task_id c) (svc_confirm_cancellation port c now eid)"

definition coordinate_retry ::
  "'s task_repository_port \<Rightarrow> retry_command \<Rightarrow> datetime \<Rightarrow> uuid \<Rightarrow> ('s, scheduling_result) task_action" where
  "coordinate_retry port c now eid = scheduled (yc_task_id c) (svc_retry port c now eid)"

end
