(* ===== verification/Task_Recovery.thy ===== *)
theory Task_Recovery
  imports Task_Scheduling Task_Progress
begin

text \<open>
  What a round of the recovery coordinator does to the stored tasks. The lemmas about one call and about a
  batch are inside the contract of the repository port; the property is about the PostgreSQL adapter.
\<close>

section \<open>Command ids\<close>

lemma isoformat_end: "\<exists>p. isoformat t = p @ ''+00:00''"
  unfolding isoformat_def Let_def case_prod_unfold by (metis append.assoc)

lemma trimmed_recover_id: "trimmed (recover_id c)"
proof -
  obtain p where "isoformat (xc_lease_expires_at c) = p @ ''+00:00''" using isoformat_end by blast
  then show ?thesis by (simp add: recover_id_def trimmed_def py_space_def)
qed

lemma trimmed_requeue_id: "trimmed (qc_command_id (requeue_call c))"
proof -
  obtain p where "isoformat (dc_available_at c) = p @ ''+00:00''" using isoformat_end by blast
  then show ?thesis by (simp add: requeue_call_def trimmed_def py_space_def)
qed

section \<open>One call\<close>

lemma resultA_run:
  "resultA h m s = (s', r) \<Longrightarrow> \<exists>q. m s = (s', q) \<and> r = (case q of Inl e \<Rightarrow> Inl e | Inr x \<Rightarrow> Inr (h x))"
  by (auto simp: resultA_def bindA_def split: prod.splits sum.splits)

lemma scheduled_view:
  "resultA Res_view m s = (s', Inr (Res_view v)) \<Longrightarrow> scheduled tid m s =
     (s', Inr \<lparr>sr_task_id = tid, sr_status = Some (task_status_value (v_status v)), sr_error_code = None\<rparr>)"
  by (auto simp: scheduled_def tryA_def dest!: resultA_run split: sum.splits)

lemma scheduled_error:
  "resultA Res_view m s = (s', Inl e) \<Longrightarrow> scheduled tid m s =
     (s', Inr \<lparr>sr_task_id = tid, sr_status = None, sr_error_code = Some (safe_error e)\<rparr>)"
  by (auto simp: scheduled_def tryA_def dest!: resultA_run split: sum.splits)

fun fresh_batch ::
  "('s \<Rightarrow> uuid set) \<Rightarrow> ('s \<Rightarrow> bool) \<Rightarrow> (nat \<Rightarrow> 'c \<Rightarrow> ('s, 'r) task_action) \<Rightarrow> (nat \<Rightarrow> uuid) \<Rightarrow> nat \<Rightarrow> 'c list \<Rightarrow> 's \<Rightarrow> bool" where
  \<comment> \<open>every call of the batch draws a UUID that is not in use when it is made\<close>
  "fresh_batch used supplied call ids i [] s \<longleftrightarrow> True"
| "fresh_batch used supplied call ids i (c # cs) s \<longleftrightarrow>
     ids i \<notin> used s \<and> supplied s \<and> fresh_batch used supplied call ids (Suc i) cs (fst (call i c s))"

context task_repository
begin

definition local_state :: "'s \<Rightarrow> uuid \<Rightarrow> task option \<times> (string \<times> string) set" where
  \<comment> \<open>what is stored of one task\<close>
  "local_state s tid = (view s tid, {x. (tid, x) \<in> handled s})"

lemma scheduled_once:
  assumes s: "sound s" "eid \<notin> used s" "supplied s" and f: "\<And>t. f t = run_op opr now eid t"
    and opr: "op_ids opr eid = {eid}" and tr: "trimmed ct" "trimmed cid" and t: "view s tid = Some t"
    and m: "resultA Res_view m = once_action port ct cid tid f"
  obtains (known) s' where "(tid, ct, cid) \<in> handled s" "sound s'" "view s' = view s" "handled s' = handled s"
      "scheduled tid m s = (s', Inr \<lparr>sr_task_id = tid, sr_status = Some (task_status_value (t_status t)), sr_error_code = None\<rparr>)"
  | (refused) s' e where "f t = Inl e" "sound s'" "view s' = view s" "handled s' = handled s"
      "scheduled tid m s = (s', Inr \<lparr>sr_task_id = tid, sr_status = None, sr_error_code = Some (safe_error e)\<rparr>)"
  | (advanced) s' t' where "f t = Inr t'" "sound s'" "view s' = (view s)(tid \<mapsto> t')" "handled s' = insert (tid, ct, cid) (handled s)"
      "scheduled tid m s = (s', Inr \<lparr>sr_task_id = tid, sr_status = Some (task_status_value (t_status t')), sr_error_code = None\<rparr>)"
proof -
  obtain s' r where run: "once_action port ct cid tid f s = (s', r)" by fastforce
  have "refines s (spec_once ct cid tid f (view s, handled s)) (once_action port ct cid tid f s)"
    by (rule once_refines [OF s(1) _ s(3) f tr(1)]) (use opr s(2) in simp)
  with run have s': "sound s'" and out: "spec_once ct cid tid f (view s, handled s) = ((view s', handled s'), r)"
    by (simp_all add: refines_def)
  have "require_text cid = Inr cid"
    using tr(2) by (simp add: require_text_def py_strip_trimmed trimmed_nonempty)
  note out = out [unfolded spec_once_def prod.case t option.case this sum.case]
  show thesis
  proof (cases "(tid, ct, cid) \<in> handled s")
    case True
    with out have eq: "view s' = view s" "handled s' = handled s" "r = Inr (Res_view (view_from_task t))" by simp_all
    from known [OF True s' eq(1,2)] scheduled_view [where m = m and tid = tid, unfolded m, OF run [unfolded eq(3)]]
    show thesis by (simp add: view_from_task_def)
  next
    case new: False
    show thesis
    proof (cases "f t")
      case (Inl e)
      with new out have eq: "view s' = view s" "handled s' = handled s" "r = Inl e" by simp_all
      from refused [OF Inl s' eq(1,2)] scheduled_error [where m = m and tid = tid, unfolded m, OF run [unfolded eq(3)]]
      show thesis by simp
    next
      case (Inr t')
      with new out have eq: "view s' = (view s)(tid \<mapsto> t')" "handled s' = insert (tid, ct, cid) (handled s)"
        "r = Inr (Res_view (view_from_task t'))" by simp_all
      from advanced [OF Inr s' eq(1,2)] scheduled_view [where m = m and tid = tid, unfolded m, OF run [unfolded eq(3)]]
      show thesis by (simp add: view_from_task_def)
    qed
  qed
qed

lemma scheduled_local:
  assumes "sound s" "eid \<notin> used s" "supplied s" "\<And>t. f t = run_op opr now eid t"
    "op_ids opr eid = {eid}" "trimmed ct" "trimmed cid" "view s tid = Some t"
    "resultA Res_view m = once_action port ct cid tid f"
  obtains s' r where "scheduled tid m s = (s', Inr r)" "sound s'" "sr_task_id r = tid"
    "\<And>j. j \<noteq> tid \<Longrightarrow> local_state s' j = local_state s j"
    "(ct, cid) \<in> snd (local_state s tid) \<or> (\<exists>e. f t = Inl e) \<or> (\<exists>t'. f t = Inr t' \<and> view s' tid = Some t'
      \<and> r = \<lparr>sr_task_id = tid, sr_status = Some (task_status_value (t_status t')), sr_error_code = None\<rparr>)"
  using assms by (cases rule: scheduled_once) (force simp: local_state_def)+

lemma batch_local:
  assumes step: "\<And>i c s. sound s \<Longrightarrow> valid (local_state s (tid c)) c \<Longrightarrow> ids i \<notin> used s \<Longrightarrow> supplied s \<Longrightarrow>
      \<exists>s' r. call i c s = (s', Inr r) \<and> sound s' \<and> (\<forall>j. j \<noteq> tid c \<longrightarrow> local_state s' j = local_state s j)
        \<and> good (local_state s (tid c)) (local_state s' (tid c)) c r"
  shows "sound s \<Longrightarrow> distinct (map tid cs) \<Longrightarrow> (\<And>c. c \<in> set cs \<Longrightarrow> valid (local_state s (tid c)) c) \<Longrightarrow>
    fresh_batch used supplied call ids i cs s \<Longrightarrow>
    \<exists>s' rs. each_candidate call i cs s = (s', Inr rs) \<and> sound s'
      \<and> (\<forall>j. j \<notin> tid ` set cs \<longrightarrow> local_state s' j = local_state s j)
      \<and> list_all2 (\<lambda>c r. good (local_state s (tid c)) (local_state s' (tid c)) c r) cs rs"
proof (induction cs arbitrary: i s)
  case (Cons c cs)
  from step [OF Cons.prems(1), of c i] Cons.prems(3,4) obtain s1 r where
    1: "call i c s = (s1, Inr r)" "sound s1" "\<And>j. j \<noteq> tid c \<Longrightarrow> local_state s1 j = local_state s j"
    "good (local_state s (tid c)) (local_state s1 (tid c)) c r" by auto
  have new: "tid c \<notin> tid ` set cs" using Cons.prems(2) by simp
  then have other: "tid d \<noteq> tid c" if "d \<in> set cs" for d using that by (metis imageI)
  have same: "local_state s1 (tid d) = local_state s (tid d)" if "d \<in> set cs" for d
    by (rule 1(3) [OF other [OF that]])
  have "valid (local_state s1 (tid d)) d" if "d \<in> set cs" for d
    using Cons.prems(3) [of d] that by (simp add: same)
  from Cons.IH [OF 1(2) _ this, of "Suc i"] Cons.prems(2,4) 1(1) obtain s2 rs where
    2: "each_candidate call (Suc i) cs s1 = (s2, Inr rs)" "sound s2"
    "\<And>j. j \<notin> tid ` set cs \<Longrightarrow> local_state s2 j = local_state s1 j"
    "list_all2 (\<lambda>c r. good (local_state s1 (tid c)) (local_state s2 (tid c)) c r) cs rs" by auto
  have run: "each_candidate call i (c # cs) s = (s2, Inr (r # rs))" by (simp add: bindA_def 1(1) 2(1))
  have "local_state s2 (tid c) = local_state s1 (tid c)" by (rule 2(3) [OF new])
  then have now: "good (local_state s (tid c)) (local_state s2 (tid c)) c r" using 1(4) by simp
  have rest: "list_all2 (\<lambda>c r. good (local_state s (tid c)) (local_state s2 (tid c)) c r) cs rs"
    by (rule list.rel_mono_strong [OF 2(4)]) (simp only: same)
  have "local_state s2 j = local_state s j" if "j \<notin> tid ` set (c # cs)" for j
    using 2(3) [of j] 1(3) [of j] that by simp
  then show ?case using run 2(2) list_all2_Cons [THEN iffD2, OF conjI, OF now rest] by blast
qed simp

lemma recover_candidate_local:
  assumes s: "sound s" "eid \<notin> used s" "supplied s" and draws: "draws i = (Aware n, eid)" "now \<le> n"
    and c: "view s (xc_task_id c) = Some t" "k < length (t_attempts t)" "a_id (t_attempts t ! k) = xc_attempt_id c"
      "is_active (t_attempts t ! k)" "a_lease_expires_at (t_attempts t ! k) \<le> now"
  shows "\<exists>s' r. recover_candidate port rv now draws i c s = (s', Inr r) \<and> sound s'
    \<and> (\<forall>j. j \<noteq> xc_task_id c \<longrightarrow> local_state s' j = local_state s j) \<and> sr_task_id r = xc_task_id c
    \<and> ((''recover'', recover_id c) \<in> snd (local_state s (xc_task_id c))
       \<or> ''recovered:'' @ recover_id c \<in> set (transition_ids t)
       \<or> (\<exists>t'. view s' (xc_task_id c) = Some t' \<and> active_count t' = 0 \<and> a_status (t_attempts t' ! k) = ATT_EXPIRED
           \<and> r = \<lparr>sr_task_id = xc_task_id c, sr_status = Some (task_status_value (t_status t')), sr_error_code = None\<rparr>))"
proof -
  let ?rc = "recover_call rv now c"
  let ?f = "recover_expired_attempt (rc_command_id ?rc) (rc_retry_at ?rc) (Aware n) (rc_attempt_id ?rc) eid"
  have strip: "py_strip (recover_id c) = recover_id c" using trimmed_recover_id by (rule py_strip_trimmed)
  have call: "scheduled (xc_task_id c) (svc_recover port ?rc (Aware n) eid) s = recover_candidate port rv now draws i c s"
    by (simp add: recover_candidate_def draws)
  have once: "resultA Res_view (svc_recover port ?rc (Aware n) eid) = once_action port ''recover'' (recover_id c) (xc_task_id c) ?f"
    using exec_shapes(8) [where m = ?rc and port = port] by (simp add: recover_call_def)
  have refl: "?f t = run_op (Op_recover (rc_command_id ?rc) (rc_retry_at ?rc) (rc_attempt_id ?rc)) (Aware n) eid t" for t
    by simp
  have ids: "op_ids (Op_recover (rc_command_id ?rc) (rc_retry_at ?rc) (rc_attempt_id ?rc)) eid = {eid}" by (simp add: op_ids_def)
  have type: "trimmed ''recover''" by (simp add: trimmed_def py_space_def)
  obtain s' r where
    r: "recover_candidate port rv now draws i c s = (s', Inr r)" "sound s'" "sr_task_id r = xc_task_id c"
    "\<And>j. j \<noteq> xc_task_id c \<Longrightarrow> local_state s' j = local_state s j"
    "(''recover'', recover_id c) \<in> snd (local_state s (xc_task_id c)) \<or> (\<exists>e. ?f t = Inl e)
      \<or> (\<exists>t'. ?f t = Inr t' \<and> view s' (xc_task_id c) = Some t'
        \<and> r = \<lparr>sr_task_id = xc_task_id c, sr_status = Some (task_status_value (t_status t')), sr_error_code = None\<rparr>)"
    by (rule scheduled_local [OF s refl ids type trimmed_recover_id c(1) once, unfolded call]) (rule that)
  have "task_reachable t" using s(1) c(1) by (simp add: sound_def)
  have retry: "rc_retry_at ?rc \<in> insert None (range (\<lambda>r. Some (Aware r)))" by (simp add: recover_call_def)
  have args: "rc_command_id ?rc = recover_id c" "rc_attempt_id ?rc = Some (xc_attempt_id c)"
    by (simp_all add: recover_call_def)
  have lease: "a_lease_expires_at (t_attempts t ! k) \<le> n" using c(5) draws(2) by simp
  have nonempty: "py_strip (recover_id c) \<noteq> []" unfolding strip by (rule trimmed_nonempty [OF trimmed_recover_id])
  have attempt: "Some (xc_attempt_id c) \<in> {None, Some (a_id (t_attempts t ! k))}" using c(3) by simp
  have "\<exists>t'. ?f t = Inr t' \<and> a_status (t_attempts t' ! k) = ATT_EXPIRED \<and> active_count t' = 0"
    if "''recovered:'' @ recover_id c \<notin> set (transition_ids t)"
  proof -
    from expired_lease_is_recoverable [OF \<open>task_reachable t\<close> c(2,4) lease nonempty, unfolded strip, OF that attempt retry,
        of eid] show ?thesis unfolding args by blast
  qed
  with r show ?thesis by auto
qed

lemma recovery_round:
  assumes "sound s" "0 < rv_batch_size rv" "\<And>i. now \<le> clock i"
    "rp_get_expired_attempts_for_update port now (rv_batch_size rv) s = Inr cs"
    "fresh_batch used supplied (recover_candidate port rv now (\<lambda>i. (Aware (clock i), ids i))) ids 0 cs s"
  obtains s' rs where "recovery_run_once port rv now (\<lambda>i. (Aware (clock i), ids i)) s = (s', Inr rs)" "sound s'"
    "\<And>j. j \<notin> xc_task_id ` set cs \<Longrightarrow> view s' j = view s j"
    "list_all2 (\<lambda>c r. sr_task_id r = xc_task_id c
       \<and> ((xc_task_id c, ''recover'', recover_id c) \<in> handled s
          \<or> (\<exists>t. view s (xc_task_id c) = Some t \<and> ''recovered:'' @ recover_id c \<in> set (transition_ids t))
          \<or> (\<exists>t. view s' (xc_task_id c) = Some t \<and> active_count t = 0 \<and> r = \<lparr>sr_task_id = xc_task_id c,
               sr_status = Some (task_status_value (t_status t)), sr_error_code = None\<rparr>))) cs rs"
proof -
  let ?call = "recover_candidate port rv now (\<lambda>i. (Aware (clock i), ids i))"
  let ?valid = "\<lambda>l c. \<exists>t k. fst l = Some t \<and> k < length (t_attempts t) \<and> a_id (t_attempts t ! k) = xc_attempt_id c
    \<and> is_active (t_attempts t ! k) \<and> a_lease_expires_at (t_attempts t ! k) \<le> now"
  let ?good = "\<lambda>l l' c r. sr_task_id r = xc_task_id c
    \<and> ((''recover'', recover_id c) \<in> snd l
       \<or> (\<exists>t. fst l = Some t \<and> ''recovered:'' @ recover_id c \<in> set (transition_ids t))
       \<or> (\<exists>t. fst l' = Some t \<and> active_count t = 0 \<and> r = \<lparr>sr_task_id = xc_task_id c,
            sr_status = Some (task_status_value (t_status t)), sr_error_code = None\<rparr>))"
  have ok: "ok s" using assms(1) by (simp add: sound_def)
  from expired [OF ok assms(2), of now] assms(4) have found: "distinct (map xc_task_id cs)"
    "\<forall>c \<in> set cs. \<exists>t i. view s (xc_task_id c) = Some t \<and> i < length (t_attempts t)
       \<and> a_id (t_attempts t ! i) = xc_attempt_id c \<and> is_active (t_attempts t ! i)
       \<and> a_lease_expires_at (t_attempts t ! i) = xc_lease_expires_at c \<and> xc_lease_expires_at c \<le> now" by auto
  have valid: "?valid (local_state s (xc_task_id c)) c" if "c \<in> set cs" for c
    using bspec [OF found(2) that] unfolding local_state_def fst_conv by metis
  have step: "\<exists>s' r. ?call i c s = (s', Inr r) \<and> sound s'
      \<and> (\<forall>j. j \<noteq> xc_task_id c \<longrightarrow> local_state s' j = local_state s j)
      \<and> ?good (local_state s (xc_task_id c)) (local_state s' (xc_task_id c)) c r"
    if s: "sound s" "?valid (local_state s (xc_task_id c)) c" "ids i \<notin> used s" "supplied s" for i c s
  proof -
    from s(2) obtain t k where t: "view s (xc_task_id c) = Some t" "k < length (t_attempts t)"
      "a_id (t_attempts t ! k) = xc_attempt_id c" "is_active (t_attempts t ! k)"
      "a_lease_expires_at (t_attempts t ! k) \<le> now" by (auto simp: local_state_def)
    have "(Aware (clock i), ids i) = (Aware (clock i), ids i)" by simp
    from recover_candidate_local [where draws = "\<lambda>i. (Aware (clock i), ids i)" and i = i and rv = rv, OF s(1,3,4) this assms(3) t] show ?thesis
      by (elim exE conjE, intro exI conjI) (assumption | (simp add: local_state_def t(1), blast))+
  qed
  from batch_local [where valid = ?valid and good = ?good and tid = xc_task_id, OF step assms(1) found(1) valid assms(5)]
  obtain s' rs where "each_candidate ?call 0 cs s = (s', Inr rs)" "sound s'"
    "\<forall>j. j \<notin> xc_task_id ` set cs \<longrightarrow> local_state s' j = local_state s j"
    "list_all2 (\<lambda>c r. ?good (local_state s (xc_task_id c)) (local_state s' (xc_task_id c)) c r) cs rs" by blast
  then show thesis
    by (intro that [of s' rs]) (simp_all add: recovery_run_once_def bindA_readA assms(4) local_state_def)
qed

end

section \<open>A round on PostgreSQL\<close>

definition known_recovery :: "task_db \<Rightarrow> expired_candidate \<Rightarrow> bool" where
  \<comment> \<open>the coordinator's command id for this lease has been used before\<close>
  "known_recovery db c \<longleftrightarrow> (xc_task_id c, ''recover'', recover_id c) \<in> pg_handled db
     \<or> (\<exists>t. pg_view db (xc_task_id c) = Some t \<and> ''recovered:'' @ recover_id c \<in> set (transition_ids t))"

definition recovered_as :: "task_db \<Rightarrow> uuid \<Rightarrow> scheduling_result \<Rightarrow> bool" where
  \<comment> \<open>the stored task has no active attempt any more, and its status is the one reported\<close>
  "recovered_as db tid r \<longleftrightarrow> (\<exists>t. pg_view db tid = Some t \<and> task_reachable t \<and> active_count t = 0
     \<and> r = \<lparr>sr_task_id = tid, sr_status = Some (task_status_value (t_status t)), sr_error_code = None\<rparr>)"

text \<open>
  C37: a round of recovery clears the expired leases it finds. It never raises; it reports on the
  candidates in their order; each of them ends without an active attempt and with the reported status,
  unless the command id of this very lease was used before; and no other task is changed, whatever
  happened to the candidates before it.
\<close>

theorem recovery_clears_expired_leases:
  assumes "served db" "mk_recovery delay batch = Inr rv" "\<And>i. now \<le> clock i"
    "pg_get_expired_attempts_for_update None locked now batch db = Inr cs"
    "fresh_batch pg_used pg_supplied (recover_candidate (postgres_port None locked) rv now
       (\<lambda>i. (Aware (clock i), ids i))) ids 0 cs db"
  shows "\<exists>db' rs. recovery_run_once (postgres_port None locked) rv now (\<lambda>i. (Aware (clock i), ids i)) db = (db', Inr rs)
     \<and> list_all2 (\<lambda>c r. sr_task_id r = xc_task_id c \<and> (known_recovery db c \<or> recovered_as db' (xc_task_id c) r)) cs rs
     \<and> (\<forall>j. j \<in> xc_task_id ` set cs \<or> pg_view db' j = pg_view db j)"
proof -
  have rv: "0 < rv_batch_size rv" "rv_batch_size rv = batch" using assms(2) by (auto simp: mk_recovery_def split: if_splits)
  have cs: "rp_get_expired_attempts_for_update (postgres_port None locked) now (rv_batch_size rv) db = Inr cs"
    using assms(4) by (simp add: postgres_port_def rv(2))
  note sound = served_sound [OF assms(1)]
  from pg.recovery_round [OF sound rv(1) assms(3) cs assms(5)] obtain db' rs where
    run: "recovery_run_once (postgres_port None locked) rv now (\<lambda>i. (Aware (clock i), ids i)) db = (db', Inr rs)"
    and ok: "pg.sound db'" and others: "\<And>j. j \<notin> xc_task_id ` set cs \<Longrightarrow> pg_view db' j = pg_view db j"
    and res: "list_all2 (\<lambda>c r. sr_task_id r = xc_task_id c
       \<and> ((xc_task_id c, ''recover'', recover_id c) \<in> pg_handled db
          \<or> (\<exists>t. pg_view db (xc_task_id c) = Some t \<and> ''recovered:'' @ recover_id c \<in> set (transition_ids t))
          \<or> (\<exists>t. pg_view db' (xc_task_id c) = Some t \<and> active_count t = 0 \<and> r = \<lparr>sr_task_id = xc_task_id c,
               sr_status = Some (task_status_value (t_status t)), sr_error_code = None\<rparr>))) cs rs" by blast
  have reach: "pg_view db' i = Some t \<Longrightarrow> task_reachable t" for i t using ok by (auto simp: pg.sound_def)
  have "list_all2 (\<lambda>c r. sr_task_id r = xc_task_id c \<and> (known_recovery db c \<or> recovered_as db' (xc_task_id c) r)) cs rs"
    by (rule list_all2_mono [OF res]) (use reach in \<open>auto simp: known_recovery_def recovered_as_def\<close>)
  with run others show ?thesis by blast
qed

definition sample_db2 :: task_db where
  \<comment> \<open>the sample task, claimed at time 5 with a lease until 100\<close>
  "sample_db2 = fst (svc_exec (postgres_port None (\<lambda>_. False)) sample_claim_command (Aware 5) 2 7 11 sample_db1)"

lemma sample_db2_served: "served sample_db2"
  unfolding sample_db2_def by (rule served.command [OF sample_db1_served sample_db1_fresh prod.collapse [symmetric]])

definition sample_expired :: "expired_candidate list" where
  "sample_expired = [\<lparr>xc_task_id = 1, xc_attempt_id = 7, xc_lease_expires_at = 100\<rparr>]"

definition sample_coordinator :: recovery_coordinator where
  "sample_coordinator = \<lparr>rv_retry_delay = 30, rv_batch_size = 50\<rparr>"

theorem recovery_clears_expired_leases_witness:
  "\<exists>db' rs. recovery_run_once (postgres_port None (\<lambda>_. False)) sample_coordinator 200
      (\<lambda>i. (Aware (200 + int i), of_nat i + 60)) sample_db2 = (db', Inr rs)
     \<and> list_all2 (\<lambda>c r. sr_task_id r = xc_task_id c \<and> (known_recovery sample_db2 c \<or> recovered_as db' (xc_task_id c) r))
         sample_expired rs
     \<and> (\<forall>j. j \<in> xc_task_id ` set sample_expired \<or> pg_view db' j = pg_view sample_db2 j)"
proof (rule recovery_clears_expired_leases [OF sample_db2_served, of 30 50])
  show "mk_recovery 30 50 = Inr sample_coordinator" by code_simp
  show "pg_get_expired_attempts_for_update None (\<lambda>_. False) 200 50 sample_db2 = Inr sample_expired" by code_simp
  have "60 \<notin> pg_used sample_db2 \<and> pg_supplied sample_db2" by code_simp
  then show "fresh_batch pg_used pg_supplied (recover_candidate (postgres_port None (\<lambda>_. False)) sample_coordinator 200
      (\<lambda>i. (Aware (200 + int i), of_nat i + 60))) (\<lambda>i. of_nat i + 60) 0 sample_expired sample_db2"
    by (simp add: sample_expired_def)
qed simp

end
