(* ===== verification/Task_Worker_Theorems.thy ===== *)
theory Task_Worker_Theorems
  imports Task_Worker Task_Recovery
begin

text \<open>
  The worker tells the truth: what a poll reports is what is stored.
\<close>

section \<open>One report\<close>

fun ended_by :: "poll_status \<Rightarrow> attempt_status \<Rightarrow> task_status \<Rightarrow> bool" where
  "ended_by POLL_SUCCEEDED ast st \<longleftrightarrow> ast = ATT_SUCCEEDED \<and> st = SUCCEEDED"
| "ended_by POLL_FAILED ast st \<longleftrightarrow> ast = ATT_FAILED \<and> st \<in> {RETRY_WAIT, FAILED}"
| "ended_by POLL_CANCELLED ast st \<longleftrightarrow> ast = ATT_CANCELLED \<and> st = CANCELLED"
| "ended_by _ ast st \<longleftrightarrow> False"

lemma put_action_error:
  "put_action port tid f s = (s', Inl e) \<Longrightarrow> s' = s"
  by (auto simp: put_action_def svc_task_def svc_save_def bindA_def writeA_def split: prod.splits sum.splits option.splits)

lemma reported_view:
  "resultA Res_view m s = (s', Inr (Res_view v)) \<Longrightarrow>
     reported st code m s = (s', Inr \<lparr>kr_status = st, kr_task = Some v, kr_error_code = None\<rparr>)"
  by (auto simp: reported_def tryA_def dest!: resultA_run split: sum.splits)

lemma reported_error: "resultA Res_view m s = (s', Inl e) \<Longrightarrow> reported st code m s = (s', Inr (rejected_poll code))"
  by (auto simp: reported_def tryA_def dest!: resultA_run split: sum.splits)

definition outcome_records :: "execution_outcome \<Rightarrow> poll_status \<times> string option" where
  \<comment> \<open>the status an accepted outcome is reported with, and the fingerprint its attempt records\<close>
  "outcome_records outcome = (case outcome of
     Task_success fp _ \<Rightarrow> (POLL_SUCCEEDED, Some (py_strip fp))
   | Task_failure _ _ fp _ \<Rightarrow> (POLL_FAILED, Some (py_strip fp))
   | Task_cancellation \<Rightarrow> (POLL_CANCELLED, None))"

context task_repository
begin

lemma put_stored:
  assumes s: "sound s" "eid \<notin> used s" and f: "\<And>t. f t = run_op opr now eid t" and opr: "op_ids opr eid = {eid}"
    and m: "resultA Res_view m = put_action port tid (as_view f)"
  obtains (refused) "reported st code m s = (s, Inr (rejected_poll code))"
  | (stored) s' t t' where "view s tid = Some t" "f t = Inr t'" "task_reachable t" "view s' tid = Some t'"
      "reported st code m s = (s', Inr \<lparr>kr_status = st, kr_task = Some (view_from_task t'), kr_error_code = None\<rparr>)"
proof -
  obtain s' r where run: "put_action port tid (as_view f) s = (s', r)" by fastforce
  have "as_view f t = Inr (t', x) \<Longrightarrow> run_op opr now eid t = Inr t'" for t t' x
    by (auto simp: as_view_def errE_simps f)
  from put_refines [where tid = tid, OF s(1) _ this] opr s(2) run
  have out: "spec_put tid (as_view f) (view s, handled s) = ((view s', handled s'), r)" by (auto simp: refines_def)
  show thesis
  proof (cases r)
    case (Inl e)
    with run reported_error [where m = m, unfolded m] put_action_error refused show thesis by metis
  next
    case (Inr x)
    with out obtain t t' where t: "view s tid = Some t" "f t = Inr t'" "view s' = (view s)(tid \<mapsto> t')" "x = Res_view (view_from_task t')"
      by (auto simp: spec_put_def as_view_def errE_simps split: option.splits sum.splits)
    have "task_reachable t" using s(1) t(1) by (simp add: sound_def)
    moreover have "view s' tid = Some t'" by (simp add: t(3))
    ultimately show thesis using run Inr by (intro stored [OF t(1,2) _ _ reported_view]) (simp_all add: m t(4))
  qed
qed

lemma report_outcome_truthful:
  assumes s: "sound s" "eid \<notin> used s"
  shows "(\<exists>code. report_outcome port tid lease outcome now eid s = (s, Inr (rejected_poll code)))
    \<or> (\<exists>s' t' ast. view s' tid = Some t' \<and> ended_by (fst (outcome_records outcome)) ast (t_status t')
        \<and> recorded t' (al_attempt_id lease) (al_lease_token lease) ast (snd (outcome_records outcome))
        \<and> report_outcome port tid lease outcome now eid s = (s', Inr \<lparr>kr_status = fst (outcome_records outcome),
            kr_task = Some (view_from_task t'), kr_error_code = None\<rparr>))"
proof (cases outcome)
  case (Task_success fp sm)
  let ?c = "\<lparr>oc_task_id = tid, oc_attempt_id = al_attempt_id lease, oc_lease_token = al_lease_token lease,
    oc_result_fingerprint = fp, oc_result_summary = sm\<rparr>"
  let ?o = "Op_complete (al_attempt_id lease) (al_lease_token lease) fp sm"
  have "complete (al_attempt_id lease) (al_lease_token lease) fp sm now eid t = run_op ?o now eid t" for t by simp
  moreover have "op_ids ?o eid = {eid}" by (simp add: op_ids_def)
  moreover have "resultA Res_view (svc_complete port ?c now eid) = put_action port tid
      (as_view (complete (al_attempt_id lease) (al_lease_token lease) fp sm now eid))"
    using exec_shapes(3) [where e = ?c and port = port] by simp
  ultimately show ?thesis unfolding Task_success report_outcome_def outcome_records_def execution_outcome.case fst_conv snd_conv
    by (rule put_stored [OF s, where st = POLL_SUCCEEDED and code = "''RESULT_COMMIT_REJECTED''"]) (auto dest: complete_records)
next
  case (Task_failure cat code fp retry)
  let ?c = "\<lparr>lc_task_id = tid, lc_attempt_id = al_attempt_id lease, lc_lease_token = al_lease_token lease,
    lc_failure_category = cat, lc_failure_code = code, lc_result_fingerprint = fp, lc_retry_at = retry\<rparr>"
  let ?o = "Op_fail (al_attempt_id lease) (al_lease_token lease) cat code fp retry"
  have "fail (al_attempt_id lease) (al_lease_token lease) cat code fp retry now eid t = run_op ?o now eid t" for t by simp
  moreover have "op_ids ?o eid = {eid}" by (simp add: op_ids_def)
  moreover have "resultA Res_view (svc_fail port ?c now eid) = put_action port tid
      (as_view (fail (al_attempt_id lease) (al_lease_token lease) cat code fp retry now eid))"
    using exec_shapes(4) [where g = ?c and port = port] by simp
  ultimately show ?thesis unfolding Task_failure report_outcome_def outcome_records_def execution_outcome.case fst_conv snd_conv
    by (rule put_stored [OF s, where st = POLL_FAILED and code = "''FAILURE_COMMIT_REJECTED''"]) (auto dest: fail_records)
next
  case Task_cancellation
  let ?c = "\<lparr>fc_task_id = tid, fc_attempt_id = al_attempt_id lease, fc_lease_token = al_lease_token lease\<rparr>"
  let ?o = "Op_confirm (al_attempt_id lease) (al_lease_token lease)"
  have "confirm_cancel (al_attempt_id lease) (al_lease_token lease) now eid t = run_op ?o now eid t" for t by simp
  moreover have "op_ids ?o eid = {eid}" by (simp add: op_ids_def)
  moreover have "resultA Res_view (svc_confirm_cancellation port ?c now eid) = put_action port tid
      (as_view (confirm_cancel (al_attempt_id lease) (al_lease_token lease) now eid))"
    using exec_shapes(2) [where d = ?c and port = port] by simp
  ultimately show ?thesis unfolding Task_cancellation report_outcome_def outcome_records_def execution_outcome.case fst_conv snd_conv
    by (rule put_stored [OF s, where st = POLL_CANCELLED and code = "''CANCELLATION_COMMIT_REJECTED''"]) (auto dest: confirm_records)
qed

end

section \<open>The worker on PostgreSQL\<close>

definition worker_outcome :: "task_worker \<Rightarrow> task \<Rightarrow> execution_answer \<Rightarrow> execution_outcome" where
  \<comment> \<open>what the worker reports for an answer\<close>
  "worker_outcome w candidate answer =
     (if t_task_type candidate \<notin> set (tw_types w)
      then Task_failure PERMANENT ''EXECUTOR_UNAVAILABLE'' ''executor-unavailable'' None
      else checked_outcome answer)"

text \<open>
  C38: the worker reports the truth. Whatever happened to the task while its executor ran, and whatever
  the executor answered, reporting never raises: either the report is rejected and nothing is written, or
  it names the stored task, which the attempt of this very lease has ended as reported, with the
  fingerprint of the outcome.
\<close>

theorem worker_reports_truthfully:
  assumes "served db" "eid \<notin> pg_used db"
  shows "\<exists>db' r. poll_report (postgres_port None locked) w candidate claimed answer now eid db = (db', Inr r)
    \<and> (db' = db \<and> kr_status r = POLL_REJECTED \<and> kr_task r = None
       \<or> (\<exists>t ast. pg_view db' (v_id (lr_task claimed)) = Some t \<and> kr_task r = Some (view_from_task t)
            \<and> ended_by (kr_status r) ast (t_status t)
            \<and> recorded t (al_attempt_id (lr_lease claimed)) (al_lease_token (lr_lease claimed)) ast
                (snd (outcome_records (worker_outcome w candidate answer)))))"
proof -
  let ?out = "worker_outcome w candidate answer"
  let ?report = "report_outcome (postgres_port None locked) (v_id (lr_task claimed)) (lr_lease claimed) ?out now eid db"
  have "poll_report (postgres_port None locked) w candidate claimed answer now eid db \<in> {(db, Inr (rejected_poll ''LEASE_REJECTED'')), ?report}"
    by (simp add: poll_report_def worker_outcome_def Let_def)
  with pg.report_outcome_truthful [OF served_sound [OF assms(1)] assms(2),
      of locked "v_id (lr_task claimed)" "lr_lease claimed" ?out now]
  show ?thesis by (auto simp: rejected_poll_def)
qed

definition sample_worker :: task_worker where
  "sample_worker = \<lparr>tw_worker_id = ''w1'', tw_issuer = \<lparr>li_ttl = 95\<rparr>, tw_types = [''demo'']\<rparr>"

definition sample_claimed :: leased_result where
  "sample_claimed = \<lparr>lr_task = view_from_task sample_running, lr_lease = svc_lease (t_attempts sample_running ! 0)\<rparr>"

theorem worker_reports_truthfully_witness:
  "\<exists>db' r. poll_report (postgres_port None (\<lambda>_. False)) sample_worker sample_new sample_claimed
      (Answered (Task_success ''out1'' ''ok'')) (Aware 50) 60 sample_db2 = (db', Inr r)
    \<and> (db' = sample_db2 \<and> kr_status r = POLL_REJECTED \<and> kr_task r = None
       \<or> (\<exists>t ast. pg_view db' (v_id (lr_task sample_claimed)) = Some t \<and> kr_task r = Some (view_from_task t)
            \<and> ended_by (kr_status r) ast (t_status t)
            \<and> recorded t (al_attempt_id (lr_lease sample_claimed)) (al_lease_token (lr_lease sample_claimed)) ast
                (snd (outcome_records (worker_outcome sample_worker sample_new (Answered (Task_success ''out1'' ''ok'')))))))"
proof (rule worker_reports_truthfully [OF sample_db2_served])
  show "60 \<notin> pg_used sample_db2" by code_simp
qed

end
