(* ===== verification/Principal.thy ===== *)
theory Principal
  imports Prelude "HOL-Library.List_Lexorder" "HOL-Library.Char_ord"
begin

text \<open>
  The principal of a request (\<open>app/platform/security/domain/principal.py\<close>), shared by the task and the
  workflow use cases. Who authenticates it is outside the repository.
\<close>

record principal =
  pr_subject :: "string option"
  pr_permissions :: "string list" \<comment> \<open>a set; the order is never read\<close>
  pr_authenticated :: bool

definition anonymous :: principal where
  "anonymous = \<lparr>pr_subject = None, pr_permissions = [], pr_authenticated = False\<rparr>"

definition permission_tuple :: "principal \<Rightarrow> string list" where
  "permission_tuple p = sorted_list_of_set (set (pr_permissions p))"

definition has_permission :: "principal \<Rightarrow> string \<Rightarrow> bool" where
  "has_permission p permission \<longleftrightarrow> permission \<in> set (pr_permissions p)"

end
