(* ===== verification/Task_Owned.thy ===== *)
theory Task_Owned
  imports Task_Scheduling Principal
begin

text \<open>
  The use cases of a user's own tasks (\<open>app/platform/task/application/owned.py\<close>) and the submission of
  tasks under a profile fixed by the server (\<open>trusted_submission.py\<close>).
\<close>

section \<open>Whose tasks\<close>

definition owner_subject :: "principal \<Rightarrow> task_error + string" where
  "owner_subject p = (case pr_subject p of
     Some subject \<Rightarrow>
       if \<not> pr_authenticated p \<or> py_strip subject = [] then Inl TaskAccessDeniedError
       else Inr (py_strip subject)
   | None \<Rightarrow> Inl TaskAccessDeniedError)"

record owned_command =
  ow_principal :: principal
  ow_task_id :: uuid
  ow_command_id :: string

record owned_command_result =
  or_task :: "task_view option"
  or_error_code :: "string option"

record task_event_view =
  ev_id :: uuid
  ev_sequence :: int
  ev_transition_id :: string
  ev_event_type :: string
  ev_metadata :: py_dict
  ev_created_at :: int

record task_list_view =
  lv_tasks :: "task_view list"
  lv_has_more :: bool
  lv_next_cursor :: "task_list_cursor option"

record task_event_list_view =
  el_events :: "task_event_view list"
  el_has_more :: bool
  el_next_after_sequence :: "int option"

definition event_view :: "task_event \<Rightarrow> task_event_view" where
  "event_view e =
     \<lparr>ev_id = e_id e, ev_sequence = e_sequence e, ev_transition_id = e_transition_id e,
      ev_event_type = task_event_type_value (e_event_type e), ev_metadata = e_metadata e,
      ev_created_at = e_created_at e\<rparr>"

section \<open>Reading\<close>

definition owned_task :: "'s task_repository_port \<Rightarrow> principal \<Rightarrow> uuid \<Rightarrow> ('s, task) task_action" where
  \<comment> \<open>the task, or the one error for a missing and for a foreign one\<close>
  "owned_task port p tid =
     bindA (liftA (owner_subject p)) (\<lambda>owner.
     bindA (readA (rp_get_owned port tid owner)) (\<lambda>found.
       case found of None \<Rightarrow> liftA (Inl TaskUnavailableError) | Some t \<Rightarrow> returnA t))"

definition owned_list ::
  "'s task_repository_port \<Rightarrow> principal \<Rightarrow> int \<Rightarrow> task_list_cursor option \<Rightarrow> ('s, task_list_view) task_action" where
  "owned_list port p limit cursor =
     bindA (liftA (owner_subject p)) (\<lambda>owner.
     bindA (readA (rp_list_owned port owner limit cursor)) (\<lambda>page.
       returnA \<lparr>lv_tasks = map view_from_task (lp_tasks page), lv_has_more = lp_has_more page,
                lv_next_cursor = lp_next_cursor page\<rparr>))"

definition owned_get :: "'s task_repository_port \<Rightarrow> principal \<Rightarrow> uuid \<Rightarrow> ('s, task_view) task_action" where
  "owned_get port p tid = bindA (owned_task port p tid) (\<lambda>t. returnA (view_from_task t))"

definition owned_read_events ::
  "'s task_repository_port \<Rightarrow> principal \<Rightarrow> uuid \<Rightarrow> int \<Rightarrow> int option \<Rightarrow> ('s, task_event_list_view) task_action" where
  "owned_read_events port p tid limit after =
     bindA (liftA (owner_subject p)) (\<lambda>owner.
     bindA (readA (rp_read_owned_events port tid owner limit after)) (\<lambda>found. case found of
       None \<Rightarrow> liftA (Inl TaskUnavailableError)
     | Some page \<Rightarrow> returnA
         \<lparr>el_events = map event_view (ep_events page), el_has_more = ep_has_more page,
          el_next_after_sequence = ep_next_after_sequence page\<rparr>))"

section \<open>Commands\<close>

definition command_result ::
  "'s task_repository_port \<Rightarrow> owned_command \<Rightarrow> scheduling_result \<Rightarrow> ('s, owned_command_result) task_action" where
  "command_result port c r = (case sr_error_code r of
     Some code \<Rightarrow> returnA \<lparr>or_task = None, or_error_code = Some code\<rparr>
   | None \<Rightarrow> bindA (owned_task port (ow_principal c) (ow_task_id c)) (\<lambda>t.
       returnA \<lparr>or_task = Some (view_from_task t), or_error_code = None\<rparr>))"

definition owned_cancel ::
  "'s task_repository_port \<Rightarrow> owned_command \<Rightarrow> datetime \<Rightarrow> uuid \<Rightarrow> ('s, owned_command_result) task_action" where
  "owned_cancel port c now eid =
     bindA (owned_task port (ow_principal c) (ow_task_id c)) (\<lambda>_.
     bindA (coordinate_cancel port (ow_task_id c) (ow_command_id c) now eid) (command_result port c))"

definition owned_retry ::
  "'s task_repository_port \<Rightarrow> owned_command \<Rightarrow> datetime \<Rightarrow> uuid \<Rightarrow> ('s, owned_command_result) task_action" where
  "owned_retry port c now eid =
     bindA (owned_task port (ow_principal c) (ow_task_id c)) (\<lambda>_.
     bindA (coordinate_retry port \<lparr>yc_task_id = ow_task_id c, yc_command_id = ow_command_id c\<rparr> now eid)
       (command_result port c))"

section \<open>Trusted submission\<close>

record submission_profile =
  sp_task_type :: string
  sp_max_attempts :: int
  sp_allow_manual_retry :: bool
  sp_display_metadata_fields :: "string set"

definition policy_text :: "string \<Rightarrow> task_error + string" where
  "policy_text value = (if py_strip value = [] then Inl TaskSubmissionPolicyError else Inr (py_strip value))"

definition mk_profile :: "string \<Rightarrow> int \<Rightarrow> bool \<Rightarrow> string list \<Rightarrow> task_error + submission_profile" where
  "mk_profile task_type max_attempts allow_manual_retry metadata_fields =
     bindE (policy_text task_type) (\<lambda>ty.
       if max_attempts \<le> 0 then Inl TaskSubmissionPolicyError
       else bindE (mapE policy_text metadata_fields) (\<lambda>names. Inr
         \<lparr>sp_task_type = ty, sp_max_attempts = max_attempts, sp_allow_manual_retry = allow_manual_retry,
          sp_display_metadata_fields = set names\<rparr>))"

record trusted_command =
  ts_idempotency_key :: string
  ts_input_fingerprint :: string
  ts_display_metadata :: "(string \<times> string) list"

definition mk_trusted_command :: "string \<Rightarrow> string \<Rightarrow> (string \<times> string) list \<Rightarrow> task_error + trusted_command" where
  "mk_trusted_command key fingerprint md =
     bindE (policy_text key) (\<lambda>k. bindE (policy_text fingerprint) (\<lambda>fp.
       Inr \<lparr>ts_idempotency_key = k, ts_input_fingerprint = fp, ts_display_metadata = md\<rparr>))"

definition trusted_owner :: "principal \<Rightarrow> task_error + string" where
  "trusted_owner p =
     (if \<not> pr_authenticated p then Inl TaskSubmissionPrincipalError
      else let subject = (case pr_subject p of None \<Rightarrow> [] | Some s \<Rightarrow> py_strip s)
           in if subject = [] then Inl TaskSubmissionPrincipalError else Inr subject)"

fun profile_metadata ::
  "string set \<Rightarrow> (string \<times> string) list \<Rightarrow> (string \<times> string) list \<Rightarrow> task_error + (string \<times> string) list" where
  \<comment> \<open>\<open>normalized\<close> is the dictionary built so far\<close>
  "profile_metadata declared normalized [] = Inr normalized"
| "profile_metadata declared normalized ((key, value) # md) =
     bindE (policy_text key) (\<lambda>name.
       if name \<notin> declared then Inl TaskSubmissionPolicyError
       else bindE (policy_text value) (\<lambda>v. profile_metadata declared (AList.update name v normalized) md))"

definition trusted_submit ::
  "'s task_repository_port \<Rightarrow> submission_profile \<Rightarrow> principal \<Rightarrow> trusted_command \<Rightarrow> datetime \<Rightarrow> uuid \<Rightarrow> uuid \<Rightarrow>
   ('s, task_view) task_action" where
  "trusted_submit port profile p c now tid eid =
     bindA (liftA (trusted_owner p)) (\<lambda>owner.
     bindA (liftA (profile_metadata (sp_display_metadata_fields profile) [] (ts_display_metadata c))) (\<lambda>md.
       svc_submit port
         \<lparr>sc_owner_subject = owner, sc_task_type = sp_task_type profile,
          sc_idempotency_key = ts_idempotency_key c, sc_input_fingerprint = ts_input_fingerprint c,
          sc_max_attempts = sp_max_attempts profile, sc_display_metadata = Some md,
          sc_allow_manual_retry = sp_allow_manual_retry profile\<rparr> now tid eid))"

section \<open>What owners see\<close>

context task_repository
begin

lemma owned_task_run:
  "ok s \<Longrightarrow> owned_task port p tid s = (s, bindE (owner_subject p) (\<lambda>owner. case view s tid of
     Some t \<Rightarrow> if t_owner_subject t = owner then Inr t else Inl TaskUnavailableError | None \<Rightarrow> Inl TaskUnavailableError))"
  by (cases "owner_subject p") (simp_all add: owned_task_def bindA_def get_owned split: option.split)

lemma foreign_refused:
  assumes "ok s" "\<And>t. view s (ow_task_id c) = Some t \<Longrightarrow> owner_subject (ow_principal c) \<noteq> Inr (t_owner_subject t)"
  obtains e where "owned_cancel port c now eid s = (s, Inl e)" "owned_retry port c now eid s = (s, Inl e)"
    "owned_get port (ow_principal c) (ow_task_id c) s = (s, Inl e)" "e \<in> {TaskAccessDeniedError, TaskUnavailableError}"
proof -
  have "owner_subject (ow_principal c) = Inl e \<Longrightarrow> e = TaskAccessDeniedError" for e
    by (auto simp: owner_subject_def split: option.splits if_splits)
  with owned_task_run [OF assms(1)] assms(2) obtain e where
    "owned_task port (ow_principal c) (ow_task_id c) s = (s, Inl e)" "e \<in> {TaskAccessDeniedError, TaskUnavailableError}"
    by (cases "owner_subject (ow_principal c)"; cases "view s (ow_task_id c)") auto
  then show thesis
    by (intro that [of e]) (simp_all add: owned_cancel_def owned_retry_def owned_get_def bindA_def)
qed

end

lemma trusted_submit_owner:
  assumes "trusted_submit port profile p c now tid eid s = (s', Inr v)"
  obtains owner md where "trusted_owner p = Inr owner" "py_strip owner = owner" "owner \<noteq> []" "pr_authenticated p"
    "profile_metadata (sp_display_metadata_fields profile) [] (ts_display_metadata c) = Inr md"
proof -
  from assms obtain owner md where o: "trusted_owner p = Inr owner"
    "profile_metadata (sp_display_metadata_fields profile) [] (ts_display_metadata c) = Inr md"
    by (auto simp: trusted_submit_def errE_simps)
  then have "owner \<noteq> []" "pr_authenticated p" "\<exists>x. owner = py_strip x"
    by (auto simp: trusted_owner_def Let_def split: if_splits option.splits)
  with o show thesis by (intro that [OF o(1) _ _ _ o(2)]) auto
qed

lemma profile_metadata_declared:
  "profile_metadata declared md0 md = Inr md' \<Longrightarrow> dict_keys md0 \<subseteq> declared \<Longrightarrow> dict_keys md' \<subseteq> declared"
proof (induction md arbitrary: md0)
  case (Cons x md)
  obtain key v where x: "x = (key, v)" by fastforce
  from Cons.prems(1) obtain name w where 1: "name \<in> declared"
    "profile_metadata declared (AList.update name w md0) md = Inr md'"
    by (auto simp: x errE_simps split: if_splits)
  have "dict_keys (AList.update name w md0) \<subseteq> declared"
    using Cons.prems(2) 1(1) by (auto simp: dict_keys_def update_conv' simp flip: dom_map_of_conv_image_fst split: if_splits)
  with Cons.IH [OF 1(2)] show ?case by blast
qed simp

end
