(* ===== verification/Task_Paging.thy ===== *)
theory Task_Paging
  imports Task_Service_Theorems
begin

text \<open>
  Listing a user's tasks page by page (\<open>list_owned\<close>): a client that follows the cursors sees each of its
  tasks once, newest first. Cursors are ordered by time and id, as the query compares them.
\<close>

section \<open>The order of cursors\<close>

instantiation task_list_cursor_ext :: (linorder) linorder
begin

definition less_eq_task_list_cursor_ext :: "'a task_list_cursor_ext \<Rightarrow> 'a task_list_cursor_ext \<Rightarrow> bool" where
  "c \<le> d \<longleftrightarrow> (lc_updated_at c, lc_id c, task_list_cursor.more c) \<le> (lc_updated_at d, lc_id d, task_list_cursor.more d)"

definition less_task_list_cursor_ext :: "'a task_list_cursor_ext \<Rightarrow> 'a task_list_cursor_ext \<Rightarrow> bool" where
  "c < d \<longleftrightarrow> (lc_updated_at c, lc_id c, task_list_cursor.more c) < (lc_updated_at d, lc_id d, task_list_cursor.more d)"

instance
proof
  fix c d e :: "'a task_list_cursor_ext"
  show "c < d \<longleftrightarrow> c \<le> d \<and> \<not> d \<le> c"
    unfolding less_eq_task_list_cursor_ext_def less_task_list_cursor_ext_def by (rule less_le_not_le)
  show "c \<le> c" unfolding less_eq_task_list_cursor_ext_def by (rule order.refl)
  show "c \<le> d \<Longrightarrow> d \<le> e \<Longrightarrow> c \<le> e" unfolding less_eq_task_list_cursor_ext_def by (rule order.trans)
  show "c \<le> d \<or> d \<le> c" unfolding less_eq_task_list_cursor_ext_def by (rule linear)
  assume "c \<le> d" "d \<le> c"
  then have "(lc_updated_at c, lc_id c, task_list_cursor.more c) = (lc_updated_at d, lc_id d, task_list_cursor.more d)"
    unfolding less_eq_task_list_cursor_ext_def by (rule antisym)
  then show "c = d" by (simp add: task_list_cursor.equality)
qed

end

definition cursor_of :: "task \<Rightarrow> task_list_cursor" where
  "cursor_of t = \<lparr>lc_updated_at = t_updated_at t, lc_id = t_id t\<rparr>"

definition row_cursor :: "task_record \<Rightarrow> task_list_cursor" where
  "row_cursor r = \<lparr>lc_updated_at = tr_updated_at r, lc_id = tr_id r\<rparr>"

lemma before_cursor_less: "before_cursor (Some c) r \<longleftrightarrow> row_cursor r < c"
  by (cases c) (auto simp: before_cursor_def row_cursor_def less_task_list_cursor_ext_def)

lemma row_cursor_task [simp]: "row_cursor (task_to_record t) = cursor_of t"
  by (simp add: row_cursor_def cursor_of_def task_to_record_def)

lemma sort_desc_cursor: "sort_desc (\<lambda>r. (tr_updated_at r, tr_id r)) rs = sort_desc row_cursor rs"
proof -
  have le: "row_cursor a \<le> row_cursor b \<longleftrightarrow> (tr_updated_at a, tr_id a) \<le> (tr_updated_at b, tr_id b)" for a b
    by (auto simp: row_cursor_def less_eq_task_list_cursor_ext_def dest: less_imp_le)
  have "insort_key (\<lambda>r. (tr_updated_at r, tr_id r)) r qs = insort_key row_cursor r qs" for r qs
    by (induction qs) (simp_all add: le)
  then have "sort_key (\<lambda>r. (tr_updated_at r, tr_id r)) rs = sort_key row_cursor rs"
    by (induction rs) simp_all
  then show ?thesis by (simp add: sort_desc_def)
qed

section \<open>One page\<close>

lemma strictly_descending:
  assumes "distinct (map k xs)"
  shows "sorted_wrt (\<lambda>x y. k y < k x) (sort_desc k xs)"
proof -
  have "sorted (map k (sort_key k xs)) \<and> distinct (map k (sort_key k xs))"
    using assms distinct_map_mset [of "sort_key k xs" xs k] by simp
  then have "sorted_wrt (<) (map k (sort_key k xs))" by (simp add: strict_sorted_iff)
  then show ?thesis by (simp add: sort_desc_def sorted_wrt_rev sorted_wrt_map)
qed

lemma filter_sort_desc: "filter P (sort_desc k xs) = sort_desc k (filter P xs)"
  by (simp add: sort_desc_def rev_filter [symmetric] filter_sort)

lemma after_cursor:
  assumes "sorted_wrt (\<lambda>x y. k y < (k x :: 'k :: linorder)) (xs @ a # ys)"
  shows "filter (\<lambda>x. k x < k a) (xs @ a # ys) = ys"
proof -
  have "filter (\<lambda>x. k x < k a) xs = []" using assms by (fastforce simp: filter_empty_conv sorted_wrt_append)
  moreover have "filter (\<lambda>x. k x < k a) ys = ys" using assms by (simp add: filter_id_conv sorted_wrt_append)
  ultimately show ?thesis by simp
qed

lemma mapE_represented:
  "(\<And>t. t \<in> set ts \<Longrightarrow> represents db t) \<Longrightarrow> mapE (from_task_record db) (map task_to_record ts) = Inr ts"
  by (induction ts) (simp_all add: from_record_represents)

definition page_of :: "int \<Rightarrow> task list \<Rightarrow> task_list_page" where
  \<comment> \<open>the first \<open>limit\<close> of the tasks that are left\<close>
  "page_of limit ts = \<lparr>lp_tasks = take (nat limit) ts, lp_has_more = (limit < int (length ts)),
     lp_next_cursor = (if limit < int (length ts) then Some (cursor_of (last (take (nat limit) ts))) else None)\<rparr>"

definition owned_tasks :: "task_db \<Rightarrow> string \<Rightarrow> task list" where
  \<comment> \<open>the tasks of the owner, newest first\<close>
  "owned_tasks db owner = map (\<lambda>r. the (pg_view db (tr_id r)))
     (sort_desc row_cursor (filter (\<lambda>r. tr_owner_subject r = owner) (db_tasks db)))"

lemma owned_rows:
  assumes "db_ok db"
  shows "sort_desc row_cursor (filter (\<lambda>r. tr_owner_subject r = owner) (db_tasks db)) = map task_to_record (owned_tasks db owner)"
    "t \<in> set (owned_tasks db owner) \<Longrightarrow> represents db t"
    "set (owned_tasks db owner) = {t. pg_view db (t_id t) = Some t \<and> t_owner_subject t = owner}"
    "sorted_wrt (\<lambda>t u. cursor_of u < cursor_of t) (owned_tasks db owner)"
proof -
  let ?R = "filter (\<lambda>r. tr_owner_subject r = owner) (db_tasks db)"
  have view: "\<exists>t. pg_view db (tr_id r) = Some t \<and> task_to_record t = r \<and> represents db t" if "r \<in> set (db_tasks db)" for r
  proof -
    from assms that obtain t where t: "r = task_to_record t" "represents db t" by (fastforce simp: db_ok_def)
    then have "pg_view db (t_id t) = Some t" using that pg_view_iff [OF assms] by simp
    with t show ?thesis by (intro exI [of _ t]) (simp add: task_to_record_def)
  qed
  have sel: "tr_owner_subject (task_to_record t) = t_owner_subject t" for t by (simp add: task_to_record_def)
  have set: "set (sort_desc row_cursor ?R) = set ?R" by (simp add: sort_desc_def)
  show rows: "sort_desc row_cursor ?R = map task_to_record (owned_tasks db owner)"
    unfolding owned_tasks_def map_map by (rule map_idI [symmetric]) (use view set in fastforce)
  show "t \<in> set (owned_tasks db owner) \<Longrightarrow> represents db t"
    unfolding owned_tasks_def using view set by fastforce
  show "set (owned_tasks db owner) = {t. pg_view db (t_id t) = Some t \<and> t_owner_subject t = owner}" (is "_ = ?T")
  proof
    show "set (owned_tasks db owner) \<subseteq> ?T"
    proof
      fix t assume "t \<in> set (owned_tasks db owner)"
      then obtain r where r: "r \<in> set ?R" "t = the (pg_view db (tr_id r))" unfolding owned_tasks_def by (auto simp: set)
      with view obtain u where u: "pg_view db (tr_id r) = Some u" "task_to_record u = r" by auto
      have "tr_id r = t_id u" "tr_owner_subject r = t_owner_subject u" unfolding u(2) [symmetric] by (simp_all add: task_to_record_def)
      with r u show "t \<in> ?T" by simp
    qed
  next
    show "?T \<subseteq> set (owned_tasks db owner)"
    proof
      fix t assume t: "t \<in> ?T"
      then have "task_to_record t \<in> set ?R" using pg_view_iff [OF assms] by (simp add: sel)
      then have "the (pg_view db (tr_id (task_to_record t))) \<in> set (owned_tasks db owner)" unfolding owned_tasks_def set_map set by (rule imageI)
      with t show "t \<in> set (owned_tasks db owner)" by simp
    qed
  qed
  have "distinct (map tr_id ?R)" using assms by (simp add: db_ok_def distinct_map_filter)
  then have "distinct (map row_cursor ?R)" by (auto simp: distinct_map inj_on_def row_cursor_def)
  from strictly_descending [OF this] show "sorted_wrt (\<lambda>t u. cursor_of u < cursor_of t) (owned_tasks db owner)"
    by (simp add: rows sorted_wrt_map)
qed

lemma list_owned_page:
  assumes ok: "db_ok db" and limit: "0 < limit"
    and split: "owned_tasks db owner = seen @ rest" and cursor: "cursor = (if seen = [] then None else Some (cursor_of (last seen)))"
  shows "pg_list_owned None owner limit cursor db = Inr (page_of limit rest)"
proof -
  note owned = owned_rows [where owner = owner, OF ok]
  let ?R = "filter (\<lambda>r. tr_owner_subject r = owner) (db_tasks db)"
  have left: "filter (before_cursor cursor) (map task_to_record (owned_tasks db owner)) = map task_to_record rest"
  proof (cases "seen = []")
    case True
    then show ?thesis by (simp add: cursor split before_cursor_def)
  next
    case False
    then have at: "owned_tasks db owner = butlast seen @ last seen # rest" using split by simp
    from after_cursor [OF owned(4) [unfolded at]]
    have "filter (\<lambda>t. cursor_of t < cursor_of (last seen)) (owned_tasks db owner) = rest" unfolding at .
    with False show ?thesis by (simp add: cursor before_cursor_less filter_map o_def)
  qed
  have "filter (\<lambda>r. tr_owner_subject r = owner \<and> before_cursor cursor r) (db_tasks db) = filter (before_cursor cursor) ?R"
    by (simp add: conj_commute)
  moreover have "sort_desc row_cursor (filter (before_cursor cursor) ?R) = filter (before_cursor cursor) (sort_desc row_cursor ?R)"
    by (rule filter_sort_desc [symmetric])
  ultimately have rows: "sort_desc (\<lambda>r. (tr_updated_at r, tr_id r))
      (filter (\<lambda>r. tr_owner_subject r = owner \<and> before_cursor cursor r) (db_tasks db)) = map task_to_record rest"
    by (simp only: sort_desc_cursor owned(1) left)
  have "mapE (from_task_record db) (map task_to_record (take (nat limit) rest)) = Inr (take (nat limit) rest)"
    by (rule mapE_represented) (use owned(2) split in \<open>auto dest: in_set_takeD\<close>)
  then show ?thesis
    using limit by (auto simp: pg_list_owned_def rows page_of_def take_map Let_def cursor_of_def min_def
        simp del: map_map)
qed

section \<open>All pages\<close>

fun all_pages ::
  "(task_list_cursor option \<Rightarrow> task_error + task_list_page) \<Rightarrow> nat \<Rightarrow> task_list_cursor option \<Rightarrow> (task_error + task list) option" where
  \<comment> \<open>a client that follows the cursors, for at most that many pages\<close>
  "all_pages list 0 cursor = None"
| "all_pages list (Suc n) cursor = (case list cursor of
     Inl e \<Rightarrow> Some (Inl e)
   | Inr page \<Rightarrow>
       if lp_has_more page then map_option (\<lambda>r. bindE r (\<lambda>ts. Inr (lp_tasks page @ ts))) (all_pages list n (lp_next_cursor page))
       else Some (Inr (lp_tasks page)))"

lemma all_pages_rest:
  assumes "db_ok db" "0 < limit"
  shows "owned_tasks db owner = seen @ rest \<Longrightarrow> cursor = (if seen = [] then None else Some (cursor_of (last seen))) \<Longrightarrow>
    length rest < n \<Longrightarrow> all_pages (\<lambda>c. pg_list_owned None owner limit c db) n cursor = Some (Inr rest)"
proof (induction n arbitrary: seen rest cursor)
  case (Suc n)
  let ?page = "take (nat limit) rest"
  note page = list_owned_page [OF assms Suc.prems(1,2)]
  show ?case
  proof (cases "limit < int (length rest)")
    case True
    have "owned_tasks db owner = (seen @ ?page) @ drop (nat limit) rest" using Suc.prems(1) by simp
    moreover have "?page \<noteq> []" using assms(2) True by auto
    then have "seen @ ?page \<noteq> []" "last (seen @ ?page) = last ?page" by (simp_all only: last_appendR append_is_Nil_conv simp_thms)
    ultimately have "all_pages (\<lambda>c. pg_list_owned None owner limit c db) n (Some (cursor_of (last ?page))) = Some (Inr (drop (nat limit) rest))"
      using Suc.prems(3) assms(2) True by (intro Suc.IH [of "seen @ ?page"]) auto
    with True show ?thesis by (simp add: page page_of_def)
  qed (simp add: page page_of_def)
qed simp

text \<open>
  C27: pages list everything once. On every database the service produced, a client that starts without a
  cursor and follows the cursors it is given, with any page size, is done after at most one page more
  than there are tasks; it has seen exactly its own stored tasks, each once, in strictly descending
  order of update time and id.
\<close>

theorem pages_list_owned_tasks:
  assumes "served db" "0 < limit" "length (db_tasks db) < n"
  shows "\<exists>ts. all_pages (\<lambda>c. pg_list_owned None owner limit c db) n None = Some (Inr ts)
    \<and> sorted_wrt (\<lambda>t u. cursor_of u < cursor_of t) ts \<and> distinct ts
    \<and> set ts = {t. pg_view db (t_id t) = Some t \<and> t_owner_subject t = owner}"
proof -
  note ok = served_ok [OF assms(1)]
  note owned = owned_rows [where owner = owner, OF ok]
  have "length (owned_tasks db owner) \<le> length (db_tasks db)"
    by (simp add: owned_tasks_def sort_desc_def)
  then have "all_pages (\<lambda>c. pg_list_owned None owner limit c db) n None = Some (Inr (owned_tasks db owner))"
    using assms(3) by (intro all_pages_rest [OF ok assms(2), of owner "[]"]) auto
  moreover have "distinct ts" if "sorted_wrt (\<lambda>t u. cursor_of u < cursor_of t) ts" for ts
    using that by (induction ts) auto
  ultimately show ?thesis using owned(3,4) by blast
qed

theorem pages_list_owned_tasks_witness:
  "\<exists>ts. all_pages (\<lambda>c. pg_list_owned None ''alice'' 1 c sample_db1) 2 None = Some (Inr ts)
    \<and> sorted_wrt (\<lambda>t u. cursor_of u < cursor_of t) ts \<and> distinct ts
    \<and> set ts = {t. pg_view sample_db1 (t_id t) = Some t \<and> t_owner_subject t = ''alice''}"
proof (rule pages_list_owned_tasks [OF sample_db1_served])
  show "length (db_tasks sample_db1) < 2" by code_simp
qed simp

end
