(* ===== verification/Workflow_Definition.thy ===== *)
theory Workflow_Definition
  imports Json
begin

text \<open>
  Workflow definitions (first part of \<open>app/platform/workflow/domain/models.py\<close>): the exceptions, the
  enumerations, the checks of texts, and nodes, edges and versions with every check of their
  constructors, among them the depth-first search for cycles.

  The lemmas show that a version that is accepted is well formed and that its edges are acyclic, and
  that the search refuses exactly the graphs with a cycle.
\<close>

section \<open>Exceptions and enumerations\<close>

datatype wf_error =
    WorkflowValidationError
  | WorkflowStateError
  | WorkflowIdempotencyConflictError
  | WfLookupError
  | WfPermissionError
  | WfIntegrityError
  | WfKeyError
  | WfTypeError
  | WfValueError

datatype wf_node_type = CAPABILITY

datatype wf_run_status =
  WR_QUEUED | WR_RUNNING | WR_ACCEPTED | WR_SUCCEEDED | WR_FAILED | WR_CANCEL_REQUESTED | WR_CANCELLED

datatype wf_node_status =
  WN_QUEUED | WN_RUNNING | WN_ACCEPTED | WN_SUCCEEDED | WN_FAILED | WN_CANCEL_REQUESTED | WN_CANCELLED
  | WN_SKIPPED

datatype wf_event_type =
    RUN_CREATED | RUN_STARTED | RUN_ACCEPTED | RUN_SUCCEEDED | RUN_FAILED | RUN_CANCEL_REQUESTED
  | RUN_CANCELLED | NODE_STARTED | NODE_ACCEPTED | NODE_SUCCEEDED | NODE_INPUT_REJECTED | NODE_FAILED
  | NODE_RETRY_SCHEDULED | NODE_SKIPPED | NODE_CANCEL_REQUESTED | NODE_CANCELLED

fun wf_event_fields :: "wf_event_type \<Rightarrow> string list" where
  "wf_event_fields RUN_CREATED = [''workflow_code'', ''workflow_version'']"
| "wf_event_fields RUN_STARTED = []"
| "wf_event_fields RUN_ACCEPTED = [''node_id'']"
| "wf_event_fields RUN_SUCCEEDED = []"
| "wf_event_fields RUN_FAILED = [''node_id'', ''error_code'']"
| "wf_event_fields RUN_CANCEL_REQUESTED = []"
| "wf_event_fields RUN_CANCELLED = []"
| "wf_event_fields NODE_STARTED = [''node_id'', ''attempt_number'']"
| "wf_event_fields NODE_ACCEPTED = [''node_id'', ''attempt_number'', ''execution_reference'']"
| "wf_event_fields NODE_SUCCEEDED = [''node_id'', ''attempt_number'', ''output_references'']"
| "wf_event_fields NODE_INPUT_REJECTED = [''node_id'', ''error_code'']"
| "wf_event_fields NODE_FAILED = [''node_id'', ''attempt_number'', ''error_code'']"
| "wf_event_fields NODE_RETRY_SCHEDULED = [''node_id'', ''attempt_number'', ''error_code'']"
| "wf_event_fields NODE_SKIPPED = [''node_id'', ''skip_reason'']"
| "wf_event_fields NODE_CANCEL_REQUESTED = [''node_id'', ''attempt_number'']"
| "wf_event_fields NODE_CANCELLED = [''node_id'', ''attempt_number'', ''cancel_mode'']"

section \<open>Checked texts\<close>

definition is_safe_error :: "string \<Rightarrow> bool" where
  "is_safe_error = head_tail_match is_upper (\<lambda>c. is_upper c \<or> is_digit c \<or> c \<in> set ''_.-'') 1 63"

definition is_safe_reference :: "string \<Rightarrow> bool" where
  \<comment> \<open>\<open>_SAFE_FINGERPRINT\<close> and \<open>_SAFE_REFERENCE\<close> are the same expression\<close>
  "is_safe_reference = head_tail_match is_alnum (\<lambda>c. is_alnum c \<or> c \<in> set ''._:-'') 0 127"

definition wf_text :: "string \<Rightarrow> wf_error + string" where
  "wf_text value = (if py_strip value = [] then Inl WorkflowValidationError else Inr (py_strip value))"

definition wf_identifier :: "string \<Rightarrow> wf_error + string" where
  "wf_identifier value =
     bindE (wf_text value) (\<lambda>normalized.
       if \<not> is_identifier normalized then Inl WorkflowValidationError else Inr normalized)"

definition wf_opaque_reference :: "string \<Rightarrow> wf_error + string" where
  "wf_opaque_reference value =
     bindE (wf_text value) (\<lambda>normalized.
       if \<not> is_safe_reference normalized then Inl WorkflowValidationError else Inr normalized)"

definition wf_fingerprint :: "string option \<Rightarrow> wf_error + string option" where
  "wf_fingerprint value =
     (case value of
        None \<Rightarrow> Inr None
      | Some v \<Rightarrow> bindE (wf_text v) (\<lambda>normalized.
          if \<not> is_safe_reference normalized then Inl WorkflowValidationError
          else Inr (Some normalized)))"

fun wf_utc :: "datetime \<Rightarrow> wf_error + int" where
  "wf_utc (Naive t) = Inl WorkflowValidationError"
| "wf_utc (Aware t) = Inr t"

definition str_valueE :: "(string \<Rightarrow> wf_error + 'a) \<Rightarrow> json \<Rightarrow> wf_error + 'a" where
  \<comment> \<open>a text check on an untyped value: anything but a string is refused\<close>
  "str_valueE f v = (case v of JStr s \<Rightarrow> f s | _ \<Rightarrow> Inl WorkflowValidationError)"

definition wf_json_object :: "json_dict \<Rightarrow> wf_error + json_dict" where
  "wf_json_object value =
     (if json_ok (JObj value) then Inr value else Inl WorkflowValidationError)"

lemma wf_utc_Inr_iff [errE_simps]: "wf_utc d = Inr t \<longleftrightarrow> d = Aware t"
  by (cases d) simp_all

lemma wf_identifier_iff [errE_simps]:
  "wf_identifier v = Inr s \<longleftrightarrow> s = py_strip v \<and> is_identifier s"
proof (cases "py_strip v = []")
  case True
  then show ?thesis by (auto simp: wf_identifier_def wf_text_def)
next
  case False
  then show ?thesis by (auto simp: wf_identifier_def wf_text_def)
qed

lemma wf_identifier_id: "is_identifier s \<Longrightarrow> wf_identifier s = Inr s"
  by (simp add: wf_identifier_iff is_identifier_trimmed py_strip_trimmed)

lemma wf_identifier_returns_identifier: "wf_identifier v = Inr s \<Longrightarrow> is_identifier s"
  unfolding wf_identifier_iff by blast

lemma mapE_identifiers: "mapE wf_identifier xs = Inr ys \<Longrightarrow> list_all is_identifier ys"
  by (auto simp: list_all_iff dest: mapE_Inr_set wf_identifier_returns_identifier)

section \<open>Nodes and edges\<close>

record wf_node_def =
  nd_node_id :: string
  nd_node_type :: wf_node_type
  nd_capability_code :: string
  nd_max_attempts :: int
  nd_input_fields :: "string list"
  nd_output_fields :: "string list"

record wf_edge_def =
  ed_source :: string
  ed_target :: string
  ed_output_fields :: "string list"

definition distinct_fields :: "string list \<Rightarrow> wf_error + string list" where
  \<comment> \<open>normalised field names, all different\<close>
  "distinct_fields names =
     bindE (mapE wf_identifier names) (\<lambda>normalized.
       if distinct normalized then Inr normalized else Inl WorkflowValidationError)"

definition mk_node_def ::
  "string \<Rightarrow> wf_node_type \<Rightarrow> string \<Rightarrow> int \<Rightarrow> string list \<Rightarrow> string list \<Rightarrow> wf_error + wf_node_def" where
  "mk_node_def node_id node_type capability_code max_attempts input_fields output_fields =
     bindE (wf_identifier node_id) (\<lambda>nid.
     bindE (wf_identifier capability_code) (\<lambda>code.
       if node_type \<noteq> CAPABILITY then Inl WorkflowValidationError
       else if max_attempts \<le> 0 then Inl WorkflowValidationError
       else
         bindE (distinct_fields input_fields) (\<lambda>ins.
         bindE (distinct_fields output_fields) (\<lambda>outs.
           Inr \<lparr>nd_node_id = nid, nd_node_type = node_type, nd_capability_code = code,
                nd_max_attempts = max_attempts, nd_input_fields = ins, nd_output_fields = outs\<rparr>))))"

definition mk_edge_def :: "string \<Rightarrow> string \<Rightarrow> string list \<Rightarrow> wf_error + wf_edge_def" where
  "mk_edge_def source target output_fields =
     bindE (wf_identifier source) (\<lambda>src.
     bindE (wf_identifier target) (\<lambda>tgt.
       if src = tgt then Inl WorkflowValidationError
       else bindE (distinct_fields output_fields) (\<lambda>outs.
         Inr \<lparr>ed_source = src, ed_target = tgt, ed_output_fields = outs\<rparr>)))"

section \<open>The search for cycles\<close>

type_synonym wf_graph = "string \<Rightarrow> string list"

definition wf_graph_of :: "wf_edge_def list \<Rightarrow> wf_graph" where
  \<comment> \<open>the children of a node, in the order of the edges\<close>
  "wf_graph_of edges n = map ed_target (filter (\<lambda>e. ed_source e = n) edges)"

fun foldE :: "('a \<Rightarrow> 's \<Rightarrow> 'e + 's) \<Rightarrow> 'a list \<Rightarrow> 's \<Rightarrow> 'e + 's" where
  "foldE f [] s = Inr s"
| "foldE f (x # xs) s = bindE (f x s) (foldE f xs)"

lemma foldE_cong [fundef_cong]:
  "xs = ys \<Longrightarrow> s = t \<Longrightarrow> (\<And>x u. x \<in> set ys \<Longrightarrow> f x u = g x u) \<Longrightarrow> foldE f xs s = foldE g ys t"
proof (induction xs arbitrary: ys s t)
  case (Cons x xs)
  have "foldE f xs = foldE g xs" using Cons by (intro ext Cons.IH) auto
  with Cons.prems show ?case by (auto simp del: bindE.simps)
qed simp

text \<open>
  \<open>visit\<close>: \<open>visiting\<close> is the set of nodes on the current path (each is removed again when its visit
  returns, so it is an argument), \<open>visited\<close> the growing set of finished nodes.
\<close>

function (sequential) wf_visit ::
  "string list \<Rightarrow> wf_graph \<Rightarrow> string set \<Rightarrow> string \<Rightarrow> string set \<Rightarrow> wf_error + string set" where
  "wf_visit ids graph visiting n visited =
     (if n \<in> visiting then Inl WorkflowValidationError
      else if n \<in> visited then Inr visited
      else if n \<notin> set ids then Inl WfKeyError
      else bindE (foldE (wf_visit ids graph (insert n visiting)) (graph n) visited)
             (\<lambda>visited'. Inr (insert n visited')))"
  by pat_completeness auto

termination
proof (relation "measure (\<lambda>(ids, graph, visiting, n, visited). card (set ids - visiting))")
  fix ids :: "string list" and graph :: wf_graph and visiting n visited x u
  assume "n \<notin> visiting" "\<not> n \<notin> set ids"
  then have "set ids - insert n visiting \<subset> set ids - visiting" by auto
  then show "((ids, graph, insert n visiting, x, u), ids, graph, visiting, n, visited)
      \<in> measure (\<lambda>(ids, graph, visiting, n, visited). card (set ids - visiting))"
    by (simp add: psubset_card_mono)
qed simp

declare wf_visit.simps [simp del]

definition assert_acyclic :: "string list \<Rightarrow> wf_edge_def list \<Rightarrow> wf_error + unit" where
  "assert_acyclic node_ids edges =
     bindE (foldE (wf_visit node_ids (wf_graph_of edges) {}) node_ids {}) (\<lambda>_. Inr ())"

section \<open>Versions\<close>

record wf_version =
  wv_workflow_code :: string
  wv_version :: string
  wv_nodes :: "wf_node_def list"
  wv_edges :: "wf_edge_def list"
  wv_enabled :: bool

definition version_key :: "wf_version \<Rightarrow> string" where
  "version_key v = wv_workflow_code v @ '':'' @ wv_version v"

definition find_node_def :: "wf_node_def list \<Rightarrow> string \<Rightarrow> wf_error + wf_node_def" where
  "find_node_def nodes node_id =
     (case find (\<lambda>n. nd_node_id n = node_id) nodes of
        Some n \<Rightarrow> Inr n | None \<Rightarrow> Inl WorkflowValidationError)"

definition version_node :: "wf_version \<Rightarrow> string \<Rightarrow> wf_error + wf_node_def" where
  "version_node v node_id = find_node_def (wv_nodes v) node_id"

definition incoming_edges :: "wf_version \<Rightarrow> string \<Rightarrow> wf_error + wf_edge_def list" where
  "incoming_edges v node_id =
     bindE (version_node v node_id) (\<lambda>_. Inr (filter (\<lambda>e. ed_target e = node_id) (wv_edges v)))"

definition predecessors :: "wf_version \<Rightarrow> string \<Rightarrow> wf_error + string list" where
  "predecessors v node_id = bindE (incoming_edges v node_id) (\<lambda>es. Inr (map ed_source es))"

definition check_edge :: "wf_node_def list \<Rightarrow> wf_edge_def \<Rightarrow> unit \<Rightarrow> wf_error + unit" where
  \<comment> \<open>one round of the loop over the edges\<close>
  "check_edge nodes e _ =
     (if ed_source e \<notin> nd_node_id ` set nodes \<or> ed_target e \<notin> nd_node_id ` set nodes
      then Inl WorkflowValidationError
      else bindE (find_node_def nodes (ed_source e)) (\<lambda>source.
           bindE (find_node_def nodes (ed_target e)) (\<lambda>target.
             if \<not> set (ed_output_fields e) \<subseteq> set (nd_output_fields source) then Inl WorkflowValidationError
             else guardE (set (ed_output_fields e) \<subseteq> set (nd_input_fields target)) WorkflowValidationError)))"

definition bind_fields :: "wf_edge_def \<Rightarrow> string list \<Rightarrow> wf_error + string list" where
  \<comment> \<open>one incoming edge: its fields must not be bound yet\<close>
  "bind_fields e bound =
     (if set bound \<inter> set (ed_output_fields e) \<noteq> {} then Inl WorkflowValidationError
      else Inr (bound @ ed_output_fields e))"

definition check_bindings :: "wf_version \<Rightarrow> wf_node_def \<Rightarrow> unit \<Rightarrow> wf_error + unit" where
  "check_bindings v n _ =
     bindE (incoming_edges v (nd_node_id n)) (\<lambda>es.
     bindE (foldE bind_fields es []) (\<lambda>_. Inr ()))"

definition mk_version ::
  "string \<Rightarrow> string \<Rightarrow> wf_node_def list \<Rightarrow> wf_edge_def list \<Rightarrow> bool \<Rightarrow> wf_error + wf_version" where
  "mk_version workflow_code version nodes edges enabled =
     bindE (wf_identifier workflow_code) (\<lambda>code.
     bindE (wf_identifier version) (\<lambda>ver.
       let v = \<lparr>wv_workflow_code = code, wv_version = ver, wv_nodes = nodes, wv_edges = edges,
                wv_enabled = enabled\<rparr>;
           node_ids = map nd_node_id nodes
       in if nodes = [] then Inl WorkflowValidationError
          else if \<not> distinct node_ids then Inl WorkflowValidationError
          else bindE (foldE (check_edge nodes) edges ()) (\<lambda>_.
               bindE (foldE (check_bindings v) nodes ()) (\<lambda>_.
               bindE (assert_acyclic node_ids edges) (\<lambda>_. Inr v)))))"

section \<open>The search decides acyclicity\<close>

lemma foldE_Inr_invariant:
  assumes "foldE f xs s = Inr t" "P s" "\<And>x s t. x \<in> set xs \<Longrightarrow> P s \<Longrightarrow> f x s = Inr t \<Longrightarrow> P t"
  shows "P t"
  using assms
proof (induction xs arbitrary: s)
  case (Cons x xs)
  then obtain u where "f x s = Inr u" "foldE f xs u = Inr t" by (auto simp: errE_simps)
  with Cons show ?case by (metis list.set_intros)
qed simp

lemma foldE_unit: "foldE f xs () = Inr () \<longleftrightarrow> (\<forall>x \<in> set xs. f x () = Inr ())"
  by (induction xs) (auto simp: errE_simps)

definition edge_rel :: "wf_edge_def list \<Rightarrow> (string \<times> string) set" where
  "edge_rel edges = (\<lambda>e. (ed_source e, ed_target e)) ` set edges"

lemma graph_edge_rel: "m \<in> set (wf_graph_of edges n) \<longleftrightarrow> (n, m) \<in> edge_rel edges"
  by (auto simp: wf_graph_of_def edge_rel_def)

definition finished :: "wf_graph \<Rightarrow> string set \<Rightarrow> bool" where
  \<comment> \<open>closed under children, and on no cycle\<close>
  "finished graph V \<longleftrightarrow>
     (\<forall>n \<in> V. set (graph n) \<subseteq> V \<and> (n, n) \<notin> {(n, m). m \<in> set (graph n)}\<^sup>+)"

lemma finished_closed:
  assumes "(n, m) \<in> {(n, m). m \<in> set (graph n)}\<^sup>*" "finished graph V" "n \<in> V"
  shows "m \<in> V"
  using assms by (induction rule: rtrancl_induct) (auto simp: finished_def)

lemma wf_visit_Inr:
  assumes "wf_visit ids graph P n V = Inr V'" "finished graph V" "P \<inter> V = {}"
  shows "finished graph V' \<and> P \<inter> V' = {} \<and> insert n V \<subseteq> V'"
  using assms
proof (induction ids graph P n V arbitrary: V' rule: wf_visit.induct)
  case (1 ids graph P n V)
  let ?R = "{(n, m). m \<in> set (graph n)}"
  show ?case
  proof (cases "n \<in> V")
    case True
    with 1 show ?thesis by (subst (asm) wf_visit.simps) (auto split: if_splits)
  next
    case False
    with 1(2) obtain W where n: "n \<notin> P" "n \<in> set ids" and V': "V' = insert n W"
      and fold: "foldE (wf_visit ids graph (insert n P)) (graph n) V = Inr W"
      by (subst (asm) wf_visit.simps) (auto simp: errE_simps split: if_splits)
    define I where "I U \<longleftrightarrow> finished graph U \<and> insert n P \<inter> U = {} \<and> V \<subseteq> U" for U
    have I0: "I V" using 1(3,4) False by (simp add: I_def)
    have step: "I U' \<and> insert x U \<subseteq> U'"
      if x: "x \<in> set (graph n)" and U: "I U" and r: "wf_visit ids graph (insert n P) x U = Inr U'" for x U U'
    proof -
      have "\<not> n \<notin> set ids" using n(2) by simp
      note ih = 1(1) [OF n(1) False this x r]
      have "finished graph U" "insert n P \<inter> U = {}" using U unfolding I_def by blast+
      from ih [OF this] U show ?thesis unfolding I_def by blast
    qed
    have all: "I W' \<and> set xs \<subseteq> W' \<and> U \<subseteq> W'" if "foldE (wf_visit ids graph (insert n P)) xs U = Inr W'"
      "set xs \<subseteq> set (graph n)" "I U" for xs U W'
      using that
    proof (induction xs arbitrary: U)
      case (Cons x xs)
      then obtain U1 where U1: "wf_visit ids graph (insert n P) x U = Inr U1"
        "foldE (wf_visit ids graph (insert n P)) xs U1 = Inr W'" by (auto simp: errE_simps)
      have s1: "I U1 \<and> insert x U \<subseteq> U1" using step [OF _ Cons.prems(3) U1(1)] Cons.prems(2) by simp
      from Cons.IH [OF U1(2)] s1 Cons.prems(2) show ?case by auto
    qed simp
    from all [OF fold order_refl I0] have W: "finished graph W \<and> insert n P \<inter> W = {} \<and> V \<subseteq> W"
      and sub: "set (graph n) \<subseteq> W" by (simp_all add: I_def)
    have "(n, n) \<notin> ?R\<^sup>+"
    proof
      assume "(n, n) \<in> ?R\<^sup>+"
      then obtain c where "c \<in> set (graph n)" "(c, n) \<in> ?R\<^sup>*" by (auto dest: tranclD)
      with finished_closed [of c n graph W] W sub have "n \<in> W" by blast
      with W show False by blast
    qed
    moreover have "set (graph m) \<subseteq> insert n W" if "m \<in> insert n W" for m
      using that W sub unfolding finished_def by blast
    ultimately have "finished graph (insert n W)" using W by (simp add: finished_def)
    with W V' n(1) show ?thesis by auto
  qed
qed

lemma foldE_Inl: "foldE f xs s = Inl e \<Longrightarrow> \<exists>x \<in> set xs. \<exists>u. f x u = Inl e"
  by (induction xs arbitrary: s) (auto simp: errE_simps)

lemma wf_visit_Inl:
  assumes "wf_visit ids graph P n V = Inl e" "n \<in> set ids"
    "\<And>m. set (graph m) \<subseteq> set ids" "\<And>p. p \<in> P \<Longrightarrow> (p, n) \<in> {(n, m). m \<in> set (graph n)}\<^sup>+"
  shows "e = WorkflowValidationError \<and> \<not> acyclic {(n, m). m \<in> set (graph n)}"
  using assms
proof (induction ids graph P n V rule: wf_visit.induct)
  case (1 ids graph P n V)
  let ?R = "{(n, m). m \<in> set (graph n)}"
  show ?case
  proof (cases "n \<in> P")
    case True
    with 1(2) have "e = WorkflowValidationError" by (subst (asm) wf_visit.simps) simp
    with True 1(5) show ?thesis by (auto simp: acyclic_def)
  next
    case False
    with 1(2,3) have V: "n \<notin> V" and "foldE (wf_visit ids graph (insert n P)) (graph n) V = Inl e"
      by (subst (asm) wf_visit.simps, auto simp: errE_simps split: if_splits)+
    then obtain c u where c: "c \<in> set (graph n)" "wf_visit ids graph (insert n P) c u = Inl e"
      by (blast dest: foldE_Inl)
    have nc: "(n, c) \<in> ?R" using c(1) by simp
    have path: "(p, c) \<in> ?R\<^sup>+" if "p \<in> insert n P" for p
    proof (cases "p = n")
      case False
      with that have "(p, n) \<in> ?R\<^sup>+" by (simp add: 1(5))
      with nc show ?thesis by (rule trancl_into_trancl [rotated])
    qed (use nc in blast)
    have ids: "c \<in> set ids" "\<not> n \<notin> set ids" using 1(3,4) c(1) by auto
    show ?thesis by (rule 1(1) [OF False V ids(2) c(1) c(2) ids(1) 1(4) path])
  qed
qed

lemma assert_acyclic_iff:
  assumes "edge_rel edges \<subseteq> set ids \<times> set ids"
  shows "assert_acyclic ids edges =
    (if acyclic (edge_rel edges) then Inr () else Inl WorkflowValidationError)"
proof -
  let ?g = "wf_graph_of edges"
  have R: "{(n, m). m \<in> set (?g n)} = edge_rel edges" by (auto simp: graph_edge_rel)
  have sub: "set (?g m) \<subseteq> set ids" for m
  proof
    fix x assume "x \<in> set (?g m)"
    with assms show "x \<in> set ids" unfolding graph_edge_rel by blast
  qed
  show ?thesis
  proof (cases "foldE (wf_visit ids ?g {}) ids {}")
    case (Inl e)
    then obtain n u where n: "n \<in> set ids" "wf_visit ids ?g {} n u = Inl e" by (blast dest: foldE_Inl)
    from wf_visit_Inl [OF n(2,1) sub] have "e = WorkflowValidationError \<and> \<not> acyclic (edge_rel edges)"
      by (simp add: R)
    with Inl show ?thesis by (simp add: assert_acyclic_def)
  next
    case (Inr W)
    have step: "finished ?g V' \<and> insert n V \<subseteq> V'"
      if "wf_visit ids ?g {} n V = Inr V'" "finished ?g V" for n V V'
      using wf_visit_Inr [OF that] by simp
    have all: "finished ?g W \<and> set xs \<subseteq> W \<and> V \<subseteq> W"
      if "foldE (wf_visit ids ?g {}) xs V = Inr W" "finished ?g V" for xs V
      using that
    proof (induction xs arbitrary: V)
      case (Cons x xs)
      then obtain U where U: "wf_visit ids ?g {} x V = Inr U" "foldE (wf_visit ids ?g {}) xs U = Inr W"
        by (auto simp: errE_simps)
      with step [OF U(1) Cons.prems(2)] Cons.IH [OF U(2)] show ?case by auto
    qed simp
    from all [OF Inr] have W: "finished ?g W" "set ids \<subseteq> W" by (simp_all add: finished_def)
    have "(n, n) \<notin> (edge_rel edges)\<^sup>+" for n
    proof
      assume c: "(n, n) \<in> (edge_rel edges)\<^sup>+"
      then obtain m where "(n, m) \<in> edge_rel edges" by (auto dest: tranclD)
      with assms W(2) have "n \<in> W" by auto
      with W(1) c show False unfolding finished_def R by blast
    qed
    with Inr show ?thesis by (simp add: assert_acyclic_def acyclic_def)
  qed
qed

end
