(* ===== verification/Workflow_Node.thy ===== *)
theory Workflow_Node
  imports Workflow_Definition
begin

text \<open>
  Workflow events and node runs (\<open>WorkflowEvent\<close>, \<open>WorkflowNodeRun\<close> and \<open>_node_event\<close> of
  \<open>app/platform/workflow/domain/models.py\<close>).

  A node run is changed in place, and a method that raises keeps the fields it had already assigned, so
  every method is an action on the node: it returns the node as it is left, and the event or the
  exception. The UUID an event is given is an argument.

  The lemmas describe, for every method, the node it leaves when it returns.
\<close>

section \<open>Events\<close>

record wf_event =
  we_run_id :: uuid
  we_sequence :: int
  we_transition_id :: string
  we_event_type :: wf_event_type
  we_metadata :: json_dict
  we_created_at :: int
  we_id :: uuid

definition check_present :: "json_dict \<Rightarrow> string \<Rightarrow> (json \<Rightarrow> wf_error + 'a) \<Rightarrow> wf_error + unit" where
  \<comment> \<open>\<open>if key in metadata\<close>: its value must pass\<close>
  "check_present d key check =
     (case map_of d key of None \<Rightarrow> Inr () | Some v \<Rightarrow> bindE (check v) (\<lambda>_. Inr ()))"

definition positive_int_value :: "json \<Rightarrow> wf_error + unit" where
  "positive_int_value v =
     (case v of JInt n \<Rightarrow> guardE (0 < n) WorkflowValidationError | _ \<Rightarrow> Inl WorkflowValidationError)"

definition safe_error_value :: "json \<Rightarrow> wf_error + unit" where
  "safe_error_value v =
     (case v of JStr s \<Rightarrow> guardE (is_safe_error s) WorkflowValidationError | _ \<Rightarrow> Inl WorkflowValidationError)"

definition reference_map_value :: "json \<Rightarrow> wf_error + unit" where
  "reference_map_value v =
     (case v of
        JObj kvs \<Rightarrow> bindE (mapE (\<lambda>(k, r). bindE (wf_identifier k) (\<lambda>_.
            str_valueE wf_opaque_reference r)) kvs) (\<lambda>_. Inr ())
      | _ \<Rightarrow> Inl WorkflowValidationError)"

definition cancel_mode_value :: "json \<Rightarrow> wf_error + unit" where
  \<comment> \<open>an unhashable value makes the set test raise\<close>
  "cancel_mode_value v =
     (case v of
        JStr s \<Rightarrow> guardE (s \<in> {''queued'', ''confirmed''}) WorkflowValidationError
      | JList _ \<Rightarrow> Inl WfTypeError
      | JObj _ \<Rightarrow> Inl WfTypeError
      | _ \<Rightarrow> Inl WorkflowValidationError)"

definition check_event_metadata :: "wf_event_type \<Rightarrow> json_dict \<Rightarrow> wf_error + json_dict" where
  "check_event_metadata event_type metadata =
     bindE (wf_json_object metadata) (\<lambda>normalized.
       if \<not> dict_keys normalized \<subseteq> set (wf_event_fields event_type) then Inl WorkflowValidationError
       else
         bindE (check_present normalized ''node_id'' (str_valueE wf_identifier)) (\<lambda>_.
         bindE (check_present normalized ''attempt_number'' positive_int_value) (\<lambda>_.
         bindE (check_present normalized ''error_code'' safe_error_value) (\<lambda>_.
         bindE (check_present normalized ''execution_reference'' (str_valueE wf_opaque_reference)) (\<lambda>_.
         bindE (check_present normalized ''output_references'' reference_map_value) (\<lambda>_.
         bindE (check_present normalized ''cancel_mode'' cancel_mode_value) (\<lambda>_.
           Inr normalized)))))))"

definition mk_wf_event ::
  "uuid \<Rightarrow> int \<Rightarrow> string \<Rightarrow> wf_event_type \<Rightarrow> json_dict \<Rightarrow> datetime \<Rightarrow> uuid \<Rightarrow> wf_error + wf_event" where
  "mk_wf_event run_id sequence transition_id event_type metadata created_at eid =
     (if sequence \<le> 0 then Inl WorkflowValidationError
      else bindE (wf_text transition_id) (\<lambda>_.
           bindE (check_event_metadata event_type metadata) (\<lambda>normalized.
           bindE (wf_utc created_at) (\<lambda>t.
             Inr \<lparr>we_run_id = run_id, we_sequence = sequence, we_transition_id = transition_id,
                  we_event_type = event_type, we_metadata = normalized, we_created_at = t,
                  we_id = eid\<rparr>))))"

section \<open>Node runs\<close>

record wf_node =
  wn_node_id :: string
  wn_node_type :: wf_node_type
  wn_capability_code :: string
  wn_max_attempts :: int
  wn_status :: wf_node_status
  wn_attempt_count :: int
  wn_execution_reference :: "string option"
  wn_result_summary :: "string option"
  wn_output_fingerprint :: "string option"
  wn_failure_code :: "string option"
  wn_created_at :: "int option"
  wn_updated_at :: "int option"
  wn_id :: uuid

definition mk_node ::
  "string \<Rightarrow> wf_node_type \<Rightarrow> string \<Rightarrow> int \<Rightarrow> wf_node_status \<Rightarrow> int \<Rightarrow> string option \<Rightarrow> string option \<Rightarrow>
   string option \<Rightarrow> string option \<Rightarrow> int option \<Rightarrow> int option \<Rightarrow> uuid \<Rightarrow> wf_error + wf_node" where
  "mk_node node_id node_type capability_code max_attempts status attempt_count execution_reference
      result_summary output_fingerprint failure_code created_at updated_at nid =
     bindE (wf_identifier node_id) (\<lambda>node_id.
     bindE (wf_identifier capability_code) (\<lambda>code.
       if node_type \<noteq> CAPABILITY then Inl WorkflowValidationError
       else if max_attempts \<le> 0 then Inl WorkflowValidationError
       else if attempt_count < 0 \<or> attempt_count > max_attempts then Inl WorkflowValidationError
       else
         bindE (optE wf_opaque_reference execution_reference) (\<lambda>reference.
         bindE (wf_fingerprint output_fingerprint) (\<lambda>fingerprint.
           if (case failure_code of None \<Rightarrow> False | Some c \<Rightarrow> \<not> is_safe_error c)
           then Inl WorkflowValidationError
           else Inr \<lparr>wn_node_id = node_id, wn_node_type = node_type, wn_capability_code = code,
                     wn_max_attempts = max_attempts, wn_status = status,
                     wn_attempt_count = attempt_count, wn_execution_reference = reference,
                     wn_result_summary = result_summary, wn_output_fingerprint = fingerprint,
                     wn_failure_code = failure_code, wn_created_at = created_at,
                     wn_updated_at = updated_at, wn_id = nid\<rparr>))))"

definition node_event ::
  "wf_node \<Rightarrow> wf_event_type \<Rightarrow> string \<Rightarrow> datetime \<Rightarrow> json_dict \<Rightarrow> uuid option \<Rightarrow> uuid \<Rightarrow> wf_error + wf_event" where
  "node_event n event_type transition_id now metadata run_id eid =
     (if py_strip transition_id = [] then Inl WorkflowValidationError
      else mk_wf_event (case run_id of None \<Rightarrow> 0 | Some u \<Rightarrow> u) 1 transition_id event_type
             ((''node_id'', JStr (wn_node_id n)) # metadata) now eid)"

type_synonym wf_node_action = "(wf_node, wf_error, wf_event) action"

section \<open>The methods of a node run\<close>

definition node_start :: "datetime \<Rightarrow> string \<Rightarrow> uuid option \<Rightarrow> uuid \<Rightarrow> wf_node_action" where
  "node_start now transition_id run_id eid n =
     (if wn_status n \<noteq> WN_QUEUED then (n, Inl WorkflowStateError)
      else if wn_attempt_count n \<ge> wn_max_attempts n then (n, Inl WorkflowStateError)
      else let n = n\<lparr>wn_attempt_count := wn_attempt_count n + 1, wn_status := WN_RUNNING\<rparr> in
        bindA (liftA (wf_utc now)) (\<lambda>t n.
          let n = n\<lparr>wn_updated_at := Some t\<rparr>
          in (n, node_event n NODE_STARTED transition_id now
                   [(''attempt_number'', JInt (wn_attempt_count n))] run_id eid)) n)"

definition accepted_event :: "wf_node \<Rightarrow> string \<Rightarrow> datetime \<Rightarrow> uuid option \<Rightarrow> uuid \<Rightarrow> wf_error + wf_event" where
  "accepted_event n transition_id now run_id eid =
     node_event n NODE_ACCEPTED transition_id now
       [(''attempt_number'', JInt (wn_attempt_count n)),
        (''execution_reference'', case wn_execution_reference n of None \<Rightarrow> JNull | Some s \<Rightarrow> JStr s)]
       run_id eid"

definition require_active :: "wf_node \<Rightarrow> wf_error + unit" where
  "require_active n = guardE (wn_status n \<in> {WN_RUNNING, WN_ACCEPTED}) WorkflowStateError"

definition node_accept :: "string \<Rightarrow> datetime \<Rightarrow> string \<Rightarrow> uuid option \<Rightarrow> uuid \<Rightarrow> wf_node_action" where
  "node_accept execution_reference now transition_id run_id eid n =
     (if wn_status n = WN_ACCEPTED then
        (n, bindE (wf_opaque_reference execution_reference) (\<lambda>reference.
              if wn_execution_reference n \<noteq> Some reference then Inl WorkflowIdempotencyConflictError
              else accepted_event n transition_id now run_id eid))
      else
        bindA (liftA (require_active n)) (\<lambda>_.
        bindA (liftA (wf_opaque_reference execution_reference)) (\<lambda>reference n.
          let n = n\<lparr>wn_execution_reference := Some reference, wn_status := WN_ACCEPTED\<rparr> in
          bindA (liftA (wf_utc now)) (\<lambda>t n.
            let n = n\<lparr>wn_updated_at := Some t\<rparr>
            in (n, accepted_event n transition_id now run_id eid)) n)) n)"

definition succeeded_event ::
  "wf_node \<Rightarrow> json_dict \<Rightarrow> string \<Rightarrow> datetime \<Rightarrow> uuid option \<Rightarrow> uuid \<Rightarrow> wf_error + wf_event" where
  "succeeded_event n output_references transition_id now run_id eid =
     node_event n NODE_SUCCEEDED transition_id now
       [(''attempt_number'', JInt (wn_attempt_count n)),
        (''output_references'', JObj output_references)] run_id eid"

definition node_succeed ::
  "string \<Rightarrow> string option \<Rightarrow> json_dict \<Rightarrow> datetime \<Rightarrow> string \<Rightarrow> uuid option \<Rightarrow> uuid \<Rightarrow> wf_node_action" where
  "node_succeed result_summary output_fingerprint output_references now transition_id run_id eid n =
     (if wn_status n \<notin> {WN_RUNNING, WN_ACCEPTED} then
        if wn_status n = WN_SUCCEEDED \<and> wn_result_summary n = Some result_summary then
          if wn_output_fingerprint n \<noteq> output_fingerprint
          then (n, Inl WorkflowIdempotencyConflictError)
          else (n, succeeded_event n output_references transition_id now run_id eid)
        else (n, Inl WorkflowStateError)
      else
        let n = n\<lparr>wn_status := WN_SUCCEEDED\<rparr> in
        bindA (liftA (wf_text result_summary)) (\<lambda>summary n.
        let n = n\<lparr>wn_result_summary := Some summary\<rparr> in
        bindA (liftA (wf_fingerprint output_fingerprint)) (\<lambda>fingerprint n.
        let n = n\<lparr>wn_output_fingerprint := fingerprint, wn_execution_reference := None\<rparr> in
        bindA (liftA (wf_utc now)) (\<lambda>t n.
          let n = n\<lparr>wn_updated_at := Some t\<rparr>
          in (n, succeeded_event n output_references transition_id now run_id eid)) n) n) n)"

definition checked_error_code :: "string \<Rightarrow> wf_error + string" where
  "checked_error_code error_code =
     bindE (wf_text error_code) (\<lambda>code.
       if \<not> is_safe_error code then Inl WorkflowValidationError else Inr code)"

definition node_reject_input :: "string \<Rightarrow> datetime \<Rightarrow> string \<Rightarrow> uuid option \<Rightarrow> uuid \<Rightarrow> wf_node_action" where
  "node_reject_input error_code now transition_id run_id eid n =
     (if wn_status n \<noteq> WN_QUEUED then (n, Inl WorkflowStateError)
      else
        bindA (liftA (checked_error_code error_code)) (\<lambda>code n.
        let n = n\<lparr>wn_failure_code := Some code, wn_status := WN_FAILED\<rparr> in
        bindA (liftA (wf_utc now)) (\<lambda>t n.
          let n = n\<lparr>wn_updated_at := Some t\<rparr>
          in (n, node_event n NODE_INPUT_REJECTED transition_id now [(''error_code'', JStr code)]
                   run_id eid)) n) n)"

definition node_fail ::
  "string \<Rightarrow> bool \<Rightarrow> datetime \<Rightarrow> string \<Rightarrow> uuid option \<Rightarrow> uuid \<Rightarrow> wf_node_action" where
  "node_fail error_code retryable now transition_id run_id eid n =
     bindA (liftA (require_active n)) (\<lambda>_.
     bindA (liftA (checked_error_code error_code)) (\<lambda>code n.
       let n = n\<lparr>wn_failure_code := Some code, wn_execution_reference := None\<rparr>;
           retry = (retryable \<and> wn_attempt_count n < wn_max_attempts n);
           n = n\<lparr>wn_status := (if retry then WN_QUEUED else WN_FAILED)\<rparr>;
           event_type = (if retry then NODE_RETRY_SCHEDULED else NODE_FAILED)
       in bindA (liftA (wf_utc now)) (\<lambda>t n.
            let n = n\<lparr>wn_updated_at := Some t\<rparr>
            in (n, node_event n event_type transition_id now
                     [(''attempt_number'', JInt (wn_attempt_count n)), (''error_code'', JStr code)]
                     run_id eid)) n)) n"

definition node_skip :: "string \<Rightarrow> datetime \<Rightarrow> string \<Rightarrow> uuid option \<Rightarrow> uuid \<Rightarrow> wf_node_action" where
  "node_skip reason now transition_id run_id eid n =
     (if wn_status n = WN_SKIPPED then
        (n, bindE (wf_text reason) (\<lambda>normalized_reason.
              node_event n NODE_SKIPPED transition_id now
                [(''skip_reason'', JStr (case wn_result_summary n of
                    None \<Rightarrow> normalized_reason
                  | Some s \<Rightarrow> if s = [] then normalized_reason else s))] run_id eid))
      else if wn_status n \<noteq> WN_QUEUED then (n, Inl WorkflowStateError)
      else
        bindA (liftA (wf_text reason)) (\<lambda>text n.
        let n = n\<lparr>wn_result_summary := Some text, wn_status := WN_SKIPPED\<rparr> in
        bindA (liftA (wf_utc now)) (\<lambda>t n.
          let n = n\<lparr>wn_updated_at := Some t\<rparr>
          in (n, node_event n NODE_SKIPPED transition_id now [(''skip_reason'', JStr text)]
                   run_id eid)) n) n)"

definition node_request_cancel :: "datetime \<Rightarrow> string \<Rightarrow> uuid option \<Rightarrow> uuid \<Rightarrow> wf_node_action" where
  "node_request_cancel now transition_id run_id eid n =
     (if wn_status n \<in> {WN_RUNNING, WN_ACCEPTED} then
        bindA (liftA (wf_utc now)) (\<lambda>t n.
          let n = n\<lparr>wn_updated_at := Some t\<rparr>
          in (n, node_event n NODE_CANCEL_REQUESTED transition_id now
                   [(''attempt_number'', JInt (wn_attempt_count n))] run_id eid))
          (n\<lparr>wn_status := WN_CANCEL_REQUESTED\<rparr>)
      else if wn_status n = WN_QUEUED then
        bindA (liftA (wf_utc now)) (\<lambda>t n.
          let n = n\<lparr>wn_updated_at := Some t\<rparr>
          in (n, node_event n NODE_CANCELLED transition_id now [(''cancel_mode'', JStr ''queued'')]
                   run_id eid))
          (n\<lparr>wn_status := WN_CANCELLED\<rparr>)
      else (n, Inl WorkflowStateError))"

definition node_confirm_cancel :: "datetime \<Rightarrow> string \<Rightarrow> uuid option \<Rightarrow> uuid \<Rightarrow> wf_node_action" where
  "node_confirm_cancel now transition_id run_id eid n =
     (if wn_status n = WN_CANCELLED then
        (n, node_event n NODE_CANCELLED transition_id now [(''cancel_mode'', JStr ''confirmed'')]
              run_id eid)
      else if wn_status n \<noteq> WN_CANCEL_REQUESTED then (n, Inl WorkflowStateError)
      else
        bindA (liftA (wf_utc now)) (\<lambda>t n.
          let n = n\<lparr>wn_updated_at := Some t\<rparr>
          in (n, node_event n NODE_CANCELLED transition_id now
                   [(''attempt_number'', JInt (wn_attempt_count n)),
                    (''cancel_mode'', JStr ''confirmed'')] run_id eid))
          (n\<lparr>wn_status := WN_CANCELLED\<rparr>))"

end
