(* ===== verification/Actions.thy ===== *)
theory Actions
  imports Prelude
begin

text \<open>
  Statements over a mutable object or a store: assignments, sequences, conditionals and loops as
  actions, raising comprehensions, and the relations every run of an action establishes between the
  state before and after it, whether it returns or raises.
\<close>

section \<open>Statements\<close>

definition modifyA :: "('s \<Rightarrow> 's) \<Rightarrow> ('s, 'e, unit) action" where
  "modifyA f s = (f s, Inr ())"

definition whenA :: "('s \<Rightarrow> bool) \<Rightarrow> ('s, 'e, unit) action \<Rightarrow> ('s, 'e, unit) action" where
  "whenA P m s = (if P s then m s else (s, Inr ()))"

definition thenA :: "('s, 'e, 'a) action \<Rightarrow> ('s, 'e, 'b) action \<Rightarrow> ('s, 'e, 'b) action" where
  \<comment> \<open>one statement after the other\<close>
  "thenA m k = bindA m (\<lambda>_. k)"

fun forA :: "('a \<Rightarrow> ('s, 'e, unit) action) \<Rightarrow> 'a list \<Rightarrow> ('s, 'e, unit) action" where
  "forA f [] = returnA ()"
| "forA f (x # xs) = thenA (f x) (forA f xs)"

section \<open>Raising comprehensions\<close>

fun allE :: "('a \<Rightarrow> 'e + bool) \<Rightarrow> 'a list \<Rightarrow> 'e + bool" where
  \<comment> \<open>\<open>all(f x for x in xs)\<close>\<close>
  "allE f [] = Inr True"
| "allE f (x # xs) = bindE (f x) (\<lambda>b. if b then allE f xs else Inr False)"

fun filterE :: "('a \<Rightarrow> 'e + bool) \<Rightarrow> 'a list \<Rightarrow> 'e + 'a list" where
  "filterE f [] = Inr []"
| "filterE f (x # xs) = bindE (f x) (\<lambda>b. bindE (filterE f xs) (\<lambda>ys. Inr (if b then x # ys else ys)))"

section \<open>What an action leads to\<close>

named_theorems leads_intros \<open>rules that show that an action only leads to related states\<close>

definition leads :: "('s \<Rightarrow> 's \<Rightarrow> bool) \<Rightarrow> ('s, 'e, 'a) action \<Rightarrow> bool" where
  \<comment> \<open>whether it returns or raises\<close>
  "leads R m \<longleftrightarrow> (\<forall>s. R s (fst (m s)))"

lemma leadsD: "leads R m \<Longrightarrow> m s = (s', x) \<Longrightarrow> R s s'"
  by (metis fst_conv leads_def)

lemma leadsI: "(\<And>s. R s (fst (m s))) \<Longrightarrow> leads R m"
  by (simp add: leads_def)

lemma leads_bindA [leads_intros]:
  assumes "transp R" "leads R m" "\<And>x. leads R (f x)"
  shows "leads R (bindA m f)"
proof (rule leadsI)
  fix s
  obtain s' x where m: "m s = (s', x)" by fastforce
  have "R s s'" using leadsD [OF assms(2) m] .
  moreover have "R s' (fst (f y s'))" for y using assms(3) by (simp add: leads_def)
  ultimately show "R s (fst (bindA m f s))"
    using assms(1) m by (auto simp: bindA_def transp_def split: sum.split)
qed

lemma leads_simple [leads_intros]:
  assumes "reflp R"
  shows "leads R (liftA m)" "leads R (readA g)" "leads R (returnA x)"
  using assms by (simp_all add: leads_def reflp_def)

lemma leads_modifyA: "(\<And>s. R s (f s)) \<Longrightarrow> leads R (modifyA f)"
  by (simp add: leads_def modifyA_def)

lemma leads_app: "leads R m \<Longrightarrow> leads R (\<lambda>s. m s)"
  by simp

lemma leads_pure: "reflp R \<Longrightarrow> leads R (\<lambda>s. (s, f s))"
  by (simp add: leads_def reflp_def)

lemma leads_thenA [leads_intros]: "transp R \<Longrightarrow> leads R m \<Longrightarrow> leads R k \<Longrightarrow> leads R (thenA m k)"
  by (simp add: thenA_def leads_bindA)

lemma leads_whenA [leads_intros]: "reflp R \<Longrightarrow> leads R m \<Longrightarrow> leads R (whenA P m)"
  by (simp add: leads_def whenA_def reflp_def)

lemma leads_forA [leads_intros]:
  "transp R \<Longrightarrow> reflp R \<Longrightarrow> (\<And>x. leads R (f x)) \<Longrightarrow> leads R (forA f xs)"
  by (induction xs) (simp_all add: leads_thenA leads_simple)

lemma leads_if [leads_intros]:
  "leads R m \<Longrightarrow> leads R k \<Longrightarrow> leads R (\<lambda>s. if P s then m s else k s)"
  by (simp add: leads_def)

lemma leads_ifc [leads_intros]: "leads R m \<Longrightarrow> leads R k \<Longrightarrow> leads R (if b then m else k)"
  by simp

lemma leads_case_option [leads_intros]:
  "leads R m \<Longrightarrow> (\<And>y. leads R (k y)) \<Longrightarrow> leads R (case z of None \<Rightarrow> m | Some y \<Rightarrow> k y)"
  by (simp split: option.split)

lemma thenA_Inr_iff [errE_simps]:
  "thenA m k s = (t, Inr y) \<longleftrightarrow> (\<exists>s' x. m s = (s', Inr x) \<and> k s' = (t, Inr y))"
  by (simp add: thenA_def bindA_Inr_iff)

lemma modifyA_apply [simp]: "modifyA f s = (f s, Inr ())"
  by (simp add: modifyA_def)

lemma whenA_Inr_iff [errE_simps]:
  "whenA P m s = (t, Inr u) \<longleftrightarrow> (if P s then m s = (t, Inr u) else t = s)"
  by (auto simp: whenA_def)

lemma allE_Inr_True: "allE f xs = Inr True \<longleftrightarrow> (\<forall>x \<in> set xs. f x = Inr True)"
  by (induction xs) (auto simp: errE_simps split: if_splits)

lemma filterE_Inr_set: "filterE f xs = Inr ys \<Longrightarrow> y \<in> set ys \<longleftrightarrow> y \<in> set xs \<and> f y = Inr True"
  by (induction xs arbitrary: ys) (auto simp: errE_simps split: if_splits)

lemma filterE_total: "(\<And>x. x \<in> set xs \<Longrightarrow> f x = Inr (P x)) \<Longrightarrow> filterE f xs = Inr (filter P xs)"
  by (induction xs) auto

end
