(* ===== verification/Workflow_Run.thy ===== *)
theory Workflow_Run
  imports Workflow_Node Actions
begin

text \<open>
  The workflow run (\<open>WorkflowRun\<close> of \<open>app/platform/workflow/domain/models.py\<close>): its record and every
  method as an action on the run, which is left as the method leaves it also when it raises.

  An operation draws one UUID for the event its node method returns and one for every event it appends:
  \<open>ids 0\<close> and \<open>ids k\<close>, for the event that gets sequence number \<open>k\<close>.
\<close>

record wf_run =
  wr_workflow_code :: string
  wr_workflow_version :: string
  wr_owner_subject :: string
  wr_idempotency_key :: string
  wr_input_fingerprint :: string
  wr_nodes :: "wf_node list"
  wr_status :: wf_run_status
  wr_result_summary :: "string option"
  wr_failure_code :: "string option"
  wr_cancel_requested_at :: "int option"
  wr_created_at :: "int option"
  wr_updated_at :: "int option"
  wr_events :: "wf_event list"
  wr_id :: uuid

type_synonym 'a wf_run_action = "(wf_run, wf_error, 'a) action"

type_synonym event_ids = "nat \<Rightarrow> uuid"

section \<open>Reading a run\<close>

definition node_index :: "string \<Rightarrow> wf_run \<Rightarrow> wf_error + nat" where
  \<comment> \<open>\<open>node\<close>: the position of the node run\<close>
  "node_index node_id r =
     (case first_index (\<lambda>n. wn_node_id n = node_id) (wr_nodes r) of
        Some i \<Rightarrow> Inr i | None \<Rightarrow> Inl WorkflowValidationError)"

definition find_latest_node_event :: "string \<Rightarrow> wf_event_type \<Rightarrow> wf_run \<Rightarrow> wf_event option" where
  "find_latest_node_event node_id event_type r =
     find (\<lambda>ev. we_event_type ev = event_type
             \<and> map_of (we_metadata ev) ''node_id'' = Some (JStr node_id)) (rev (wr_events r))"

definition output_references :: "string \<Rightarrow> wf_run \<Rightarrow> json_dict" where
  "output_references node_id r =
     (case find_latest_node_event node_id NODE_SUCCEEDED r of
        None \<Rightarrow> []
      | Some ev \<Rightarrow> (case map_of (we_metadata ev) ''output_references'' of
            Some (JObj references) \<Rightarrow> references | _ \<Rightarrow> []))"

definition node_succeeded :: "wf_run \<Rightarrow> string \<Rightarrow> wf_error + bool" where
  "node_succeeded r node_id =
     bindE (node_index node_id r) (\<lambda>i. Inr (wn_status (wr_nodes r ! i) = WN_SUCCEEDED))"

definition node_ready :: "wf_version \<Rightarrow> wf_run \<Rightarrow> wf_node \<Rightarrow> wf_error + bool" where
  \<comment> \<open>the condition of the comprehension of \<open>ready_nodes\<close>\<close>
  "node_ready v r n =
     (if wn_status n \<noteq> WN_QUEUED then Inr False
      else bindE (predecessors v (wn_node_id n)) (\<lambda>ps.
           bindE (allE (node_succeeded r) ps) (\<lambda>complete.
             if \<not> complete then Inr False
             else bindE (incoming_edges v (wn_node_id n)) (\<lambda>es.
               Inr (list_all (\<lambda>e. set (ed_output_fields e)
                      \<subseteq> dict_keys (output_references (ed_source e) r)) es)))))"

definition ready_nodes :: "wf_version \<Rightarrow> wf_run \<Rightarrow> wf_error + string list" where
  "ready_nodes v r =
     bindE (filterE (node_ready v r) (wr_nodes r)) (\<lambda>ns. Inr (map wn_node_id ns))"

definition run_version_key :: "wf_run \<Rightarrow> string" where
  "run_version_key r = wr_workflow_code r @ '':'' @ wr_workflow_version r"

section \<open>Appending events\<close>

definition log_event ::
  "event_ids \<Rightarrow> string \<Rightarrow> wf_event_type \<Rightarrow> datetime \<Rightarrow> json_dict \<Rightarrow> wf_event wf_run_action" where
  "log_event ids transition_id event_type now metadata r =
     (case find (\<lambda>ev. we_transition_id ev = transition_id) (wr_events r) of
        Some existing \<Rightarrow> (r, Inr existing)
      | None \<Rightarrow>
          let k = length (wr_events r) + 1 in
          bindA (liftA (bindE (wf_utc now) (\<lambda>_.
              mk_wf_event (wr_id r) (int k) transition_id event_type metadata now (ids k))))
            (\<lambda>ev r. (r\<lparr>wr_events := wr_events r @ [ev]\<rparr>, Inr ev)) r)"

definition log_existing :: "event_ids \<Rightarrow> wf_event \<Rightarrow> unit wf_run_action" where
  "log_existing ids ev r =
     (if list_ex (\<lambda>e. we_transition_id e = we_transition_id ev) (wr_events r) then (r, Inr ())
      else
        let k = length (wr_events r) + 1 in
        bindA (liftA (mk_wf_event (wr_id r) (int k) (we_transition_id ev) (we_event_type ev)
                 (we_metadata ev) (Aware (we_created_at ev)) (ids k)))
          (\<lambda>ev r. (r\<lparr>wr_events := wr_events r @ [ev]\<rparr>, Inr ())) r)"

section \<open>Creation\<close>

definition new_node :: "int \<Rightarrow> wf_node_def \<times> uuid \<Rightarrow> wf_error + wf_node" where
  "new_node now d =
     mk_node (nd_node_id (fst d)) (nd_node_type (fst d)) (nd_capability_code (fst d))
       (nd_max_attempts (fst d)) WN_QUEUED 0 None None None None (Some now) (Some now) (snd d)"

definition create_run ::
  "wf_version \<Rightarrow> string \<Rightarrow> string \<Rightarrow> string \<Rightarrow> datetime \<Rightarrow> uuid \<Rightarrow> event_ids \<Rightarrow> event_ids \<Rightarrow> wf_error + wf_run" where
  "create_run v owner_subject idempotency_key input_fingerprint now rid nids ids =
     bindE (wf_utc now) (\<lambda>normalized_now.
     bindE (wf_text owner_subject) (\<lambda>owner.
     bindE (wf_text idempotency_key) (\<lambda>key.
     bindE (wf_text input_fingerprint) (\<lambda>input.
     bindE (mapE (new_node normalized_now) (zip (wv_nodes v) (map nids [0..<length (wv_nodes v)]))) (\<lambda>nodes.
       let r = \<lparr>wr_workflow_code = wv_workflow_code v, wr_workflow_version = wv_version v,
                wr_owner_subject = owner, wr_idempotency_key = key, wr_input_fingerprint = input,
                wr_nodes = nodes, wr_status = WR_QUEUED, wr_result_summary = None,
                wr_failure_code = None, wr_cancel_requested_at = None,
                wr_created_at = Some normalized_now, wr_updated_at = Some normalized_now,
                wr_events = [], wr_id = rid\<rparr>;
           (r', created) = log_event ids ''create'' RUN_CREATED (Aware normalized_now)
                 [(''workflow_code'', JStr (wr_workflow_code r)),
                  (''workflow_version'', JStr (wr_workflow_version r))] r
       in bindE created (\<lambda>_. Inr r'))))))"

section \<open>Methods\<close>

definition on_node :: "nat \<Rightarrow> (uuid option \<Rightarrow> (wf_node, wf_error, 'a) action) \<Rightarrow> 'a wf_run_action" where
  \<comment> \<open>a method of the node run at position \<open>i\<close>, given the id of the run\<close>
  "on_node i m r =
     (case m (Some (wr_id r)) (wr_nodes r ! i) of
        (n, x) \<Rightarrow> (r\<lparr>wr_nodes := (wr_nodes r)[i := n]\<rparr>, x))"

definition set_updated :: "datetime \<Rightarrow> unit wf_run_action" where
  "set_updated now =
     bindA (liftA (wf_utc now)) (\<lambda>t. modifyA (\<lambda>r. r\<lparr>wr_updated_at := Some t\<rparr>))"

definition check_open :: "unit wf_run_action" where
  \<comment> \<open>the guard of \<open>start_node\<close>, \<open>accept_node\<close> and \<open>reject_node_input\<close>\<close>
  "check_open = readA (\<lambda>r. guardE
     (wr_status r \<notin> {WR_CANCEL_REQUESTED, WR_CANCELLED, WR_FAILED, WR_SUCCEEDED}) WorkflowStateError)"

definition start_node ::
  "wf_version \<Rightarrow> string \<Rightarrow> datetime \<Rightarrow> string \<Rightarrow> event_ids \<Rightarrow> wf_event wf_run_action" where
  "start_node v node_id now command_id ids =
     bindA check_open (\<lambda>_.
     bindA (readA (ready_nodes v)) (\<lambda>ready.
     bindA (liftA (guardE (node_id \<in> set ready) WorkflowStateError)) (\<lambda>_.
     bindA (readA (node_index node_id)) (\<lambda>i.
     bindA (on_node i (\<lambda>rid. node_start now (command_id @ '':start'') rid (ids 0))) (\<lambda>event.
     bindA (whenA (\<lambda>r. wr_status r = WR_QUEUED)
              (thenA (modifyA (\<lambda>r. r\<lparr>wr_status := WR_RUNNING\<rparr>))
              (thenA (log_event ids (command_id @ '':run-start'') RUN_STARTED now []) (returnA ())))) (\<lambda>_.
     bindA (log_existing ids event) (\<lambda>_.
     bindA (set_updated now) (\<lambda>_.
     returnA event))))))))"

definition accept_node ::
  "string \<Rightarrow> string \<Rightarrow> datetime \<Rightarrow> string \<Rightarrow> event_ids \<Rightarrow> wf_event wf_run_action" where
  "accept_node node_id execution_reference now command_id ids =
     bindA check_open (\<lambda>_.
     bindA (readA (node_index node_id)) (\<lambda>i.
     bindA (readA (\<lambda>r. Inr (wn_status (wr_nodes r ! i) = WN_ACCEPTED))) (\<lambda>was_accepted.
     bindA (on_node i (\<lambda>rid. node_accept execution_reference now (command_id @ '':accept'')
              rid (ids 0))) (\<lambda>event.
     bindA (readA (\<lambda>r. Inr (find_latest_node_event node_id NODE_ACCEPTED r))) (\<lambda>existing.
       if was_accepted \<and> existing \<noteq> None then returnA (the existing)
       else
         bindA (modifyA (\<lambda>r. r\<lparr>wr_status := WR_ACCEPTED\<rparr>)) (\<lambda>_.
         bindA (log_existing ids event) (\<lambda>_.
         bindA (log_event ids (command_id @ '':run-accepted'') RUN_ACCEPTED now
                  [(''node_id'', JStr node_id)]) (\<lambda>_.
         bindA (set_updated now) (\<lambda>_.
         returnA event)))))))))"

definition all_nodes_done :: string where
  \<comment> \<open>the fixed summary of a finished run, in UTF-8\<close>
  "all_nodes_done = ''Workflow '' @
     [CHR 0xE8, CHR 0x8A, CHR 0x82, CHR 0xE7, CHR 0x82, CHR 0xB9, CHR 0xE5, CHR 0xB7, CHR 0xB2,
      CHR 0xE5, CHR 0x85, CHR 0xA8, CHR 0xE9, CHR 0x83, CHR 0xA8, CHR 0xE5, CHR 0xAE, CHR 0x8C,
      CHR 0xE6, CHR 0x88, CHR 0x90, CHR 0xE3, CHR 0x80, CHR 0x82]"

definition refresh_status :: "datetime \<Rightarrow> string \<Rightarrow> event_ids \<Rightarrow> unit wf_run_action" where
  "refresh_status now command_id ids r =
     (if list_all (\<lambda>n. wn_status n \<in> {WN_SUCCEEDED, WN_SKIPPED}) (wr_nodes r) then
        thenA (modifyA (\<lambda>r. r\<lparr>wr_status := WR_SUCCEEDED, wr_result_summary := Some all_nodes_done\<rparr>))
        (thenA (log_event ids command_id RUN_SUCCEEDED now []) (returnA ())) r
      else if list_ex (\<lambda>n. wn_status n = WN_ACCEPTED) (wr_nodes r)
      then modifyA (\<lambda>r. r\<lparr>wr_status := WR_ACCEPTED\<rparr>) r
      else if wr_status r = WR_ACCEPTED then modifyA (\<lambda>r. r\<lparr>wr_status := WR_RUNNING\<rparr>) r
      else (r, Inr ()))"

definition check_outputs :: "wf_node_def \<Rightarrow> json_dict \<Rightarrow> wf_error + unit" where
  \<comment> \<open>the output references a success must come with\<close>
  "check_outputs d outputs =
     (if dict_keys outputs \<noteq> set (nd_output_fields d) then Inl WorkflowValidationError
      else foldE (\<lambda>(field, reference) _. bindE (wf_identifier field) (\<lambda>_.
             bindE (str_valueE wf_opaque_reference reference) (\<lambda>_. Inr ()))) outputs ())"

definition same_dict :: "json_dict \<Rightarrow> json_dict \<Rightarrow> bool" where
  \<comment> \<open>\<open>==\<close> of two dictionaries of texts\<close>
  "same_dict d d' \<longleftrightarrow> dict_keys d = dict_keys d' \<and> (\<forall>k \<in> dict_keys d. map_of d k = map_of d' k)"

definition succeed_node ::
  "wf_version \<Rightarrow> string \<Rightarrow> string \<Rightarrow> string option \<Rightarrow> json_dict \<Rightarrow> datetime \<Rightarrow> string \<Rightarrow> event_ids \<Rightarrow>
   wf_event wf_run_action" where
  "succeed_node v node_id result_summary output_fingerprint outputs now command_id ids =
     bindA (readA (node_index node_id)) (\<lambda>i.
     bindA (liftA (version_node v node_id)) (\<lambda>d.
     bindA (liftA (check_outputs d outputs)) (\<lambda>_.
     bindA (readA (\<lambda>r. let n = wr_nodes r ! i in
         if wn_status n \<noteq> WN_SUCCEEDED then Inr None
         else if wn_result_summary n \<noteq> Some result_summary
               \<or> wn_output_fingerprint n \<noteq> output_fingerprint
         then Inl WorkflowIdempotencyConflictError
         else if \<not> same_dict (output_references node_id r) outputs
         then Inl WorkflowIdempotencyConflictError
         else Inr (find_latest_node_event node_id NODE_SUCCEEDED r))) (\<lambda>existing.
     case existing of
       Some ev \<Rightarrow> returnA ev
     | None \<Rightarrow>
         bindA (on_node i (\<lambda>rid. node_succeed result_summary output_fingerprint outputs now
                  (command_id @ '':succeed'') rid (ids 0))) (\<lambda>event.
         bindA (log_existing ids event) (\<lambda>_.
         bindA (refresh_status now command_id ids) (\<lambda>_.
         returnA event)))))))"

definition fail_run ::
  "nat \<Rightarrow> string \<Rightarrow> datetime \<Rightarrow> string \<Rightarrow> event_ids \<Rightarrow> unit wf_run_action" where
  \<comment> \<open>the run fails with the failure of the node at position \<open>i\<close>\<close>
  "fail_run i node_id now command_id ids r =
     (let code = wn_failure_code (wr_nodes r ! i) in
      thenA (modifyA (\<lambda>r. r\<lparr>wr_status := WR_FAILED, wr_failure_code := code\<rparr>))
      (thenA (log_event ids (command_id @ '':run-failed'') RUN_FAILED now
                [(''node_id'', JStr node_id),
                 (''error_code'', case code of None \<Rightarrow> JNull | Some c \<Rightarrow> JStr c)])
             (returnA ())) r)"

definition reject_node_input ::
  "string \<Rightarrow> string \<Rightarrow> datetime \<Rightarrow> string \<Rightarrow> event_ids \<Rightarrow> wf_event wf_run_action" where
  "reject_node_input node_id error_code now command_id ids =
     bindA check_open (\<lambda>_.
     bindA (readA (node_index node_id)) (\<lambda>i.
     bindA (on_node i (\<lambda>rid. node_reject_input error_code now (command_id @ '':reject-input'')
              rid (ids 0))) (\<lambda>event.
     bindA (log_existing ids event) (\<lambda>_.
     bindA (fail_run i node_id now command_id ids) (\<lambda>_.
     bindA (set_updated now) (\<lambda>_.
     returnA event))))))"

definition fail_node ::
  "string \<Rightarrow> string \<Rightarrow> bool \<Rightarrow> datetime \<Rightarrow> string \<Rightarrow> event_ids \<Rightarrow> wf_event wf_run_action" where
  "fail_node node_id error_code retryable now command_id ids =
     bindA (readA (node_index node_id)) (\<lambda>i.
     bindA (on_node i (\<lambda>rid. node_fail error_code retryable now (command_id @ '':fail'')
              rid (ids 0))) (\<lambda>event.
     bindA (log_existing ids event) (\<lambda>_.
     bindA (whenA (\<lambda>r. wn_status (wr_nodes r ! i) = WN_FAILED)
              (fail_run i node_id now command_id ids)) (\<lambda>_.
     bindA (set_updated now) (\<lambda>_.
     returnA event)))))"

definition skip_node ::
  "string \<Rightarrow> string \<Rightarrow> datetime \<Rightarrow> string \<Rightarrow> event_ids \<Rightarrow> wf_event wf_run_action" where
  "skip_node node_id reason now command_id ids =
     bindA (readA (node_index node_id)) (\<lambda>i.
     bindA (on_node i (\<lambda>rid. node_skip reason now (command_id @ '':skip'') rid (ids 0)))
       (\<lambda>event.
     bindA (log_existing ids event) (\<lambda>_.
     bindA (refresh_status now command_id ids) (\<lambda>_.
     returnA event))))"

definition nodes_settled :: "wf_run \<Rightarrow> bool" where
  "nodes_settled r \<longleftrightarrow>
     list_all (\<lambda>n. wn_status n \<in> {WN_CANCELLED, WN_SUCCEEDED, WN_SKIPPED}) (wr_nodes r)"

definition cancel_node :: "datetime \<Rightarrow> string \<Rightarrow> event_ids \<Rightarrow> nat \<Rightarrow> unit wf_run_action" where
  \<comment> \<open>one round of the loop of \<open>request_run_cancel\<close> over the node runs\<close>
  "cancel_node now command_id ids i =
     whenA (\<lambda>r. wn_status (wr_nodes r ! i) \<in> {WN_QUEUED, WN_RUNNING, WN_ACCEPTED})
       (bindA (readA (\<lambda>r. Inr (wn_node_id (wr_nodes r ! i)))) (\<lambda>node_id.
        bindA (on_node i (\<lambda>rid. node_request_cancel now
                 (command_id @ '':'' @ node_id @ '':cancel'') rid (ids 0)))
          (log_existing ids)))"

definition request_run_cancel :: "datetime \<Rightarrow> string \<Rightarrow> event_ids \<Rightarrow> unit wf_run_action" where
  "request_run_cancel now command_id ids r =
     (if wr_status r \<in> {WR_SUCCEEDED, WR_FAILED, WR_CANCELLED} then (r, Inl WorkflowStateError)
      else if wr_status r = WR_CANCEL_REQUESTED then (r, Inr ())
      else
        thenA (modifyA (\<lambda>r. r\<lparr>wr_status := WR_CANCEL_REQUESTED\<rparr>))
        (bindA (liftA (wf_utc now)) (\<lambda>t.
        thenA (modifyA (\<lambda>r. r\<lparr>wr_cancel_requested_at := Some t\<rparr>))
        (thenA (log_event ids (command_id @ '':run-cancel-requested'') RUN_CANCEL_REQUESTED now [])
        (thenA (forA (cancel_node now command_id ids) [0..<length (wr_nodes r)])
        (thenA (whenA nodes_settled
                  (thenA (modifyA (\<lambda>r. r\<lparr>wr_status := WR_CANCELLED\<rparr>))
                  (thenA (log_event ids (command_id @ '':complete'') RUN_CANCELLED now []) (returnA ()))))
        (set_updated now)))))) r)"

definition confirm_node_cancel ::
  "string \<Rightarrow> datetime \<Rightarrow> string \<Rightarrow> event_ids \<Rightarrow> wf_event wf_run_action" where
  "confirm_node_cancel node_id now command_id ids =
     bindA (readA (node_index node_id)) (\<lambda>i.
     bindA (on_node i (\<lambda>rid. node_confirm_cancel now (command_id @ '':confirm'') rid (ids 0))) (\<lambda>event.
     bindA (log_existing ids event) (\<lambda>_.
     bindA (whenA (\<lambda>r. wr_status r = WR_CANCEL_REQUESTED \<and> nodes_settled r)
              (thenA (modifyA (\<lambda>r. r\<lparr>wr_status := WR_CANCELLED\<rparr>))
              (thenA (log_event ids command_id RUN_CANCELLED now []) (returnA ())))) (\<lambda>_.
     bindA (set_updated now) (\<lambda>_.
     returnA event)))))"

end
