(* ===== verification/Workflow_Machine.thy ===== *)
theory Workflow_Machine
  imports Workflow_Run
begin

text \<open>
  The operations of a workflow run as the steps of a machine, the runs it can reach, and what every
  operation keeps, whether it returns or raises: the event log stays numbered and without duplicates,
  the identity of run and nodes does not change, and a finished node run is never touched again.
\<close>

section \<open>Operations and steps\<close>

datatype wf_op =
    WO_start string datetime string
  | WO_accept string string datetime string
  | WO_succeed string string "string option" json_dict datetime string
  | WO_reject string string datetime string
  | WO_fail string string bool datetime string
  | WO_skip string string datetime string
  | WO_cancel datetime string
  | WO_confirm string datetime string

fun wf_exec :: "wf_version \<Rightarrow> wf_op \<Rightarrow> event_ids \<Rightarrow> unit wf_run_action" where
  "wf_exec v (WO_start i now c) ids = bindA (start_node v i now c ids) (\<lambda>_. returnA ())"
| "wf_exec v (WO_accept i ref now c) ids = bindA (accept_node i ref now c ids) (\<lambda>_. returnA ())"
| "wf_exec v (WO_succeed i s fp outs now c) ids =
     bindA (succeed_node v i s fp outs now c ids) (\<lambda>_. returnA ())"
| "wf_exec v (WO_reject i code now c) ids = bindA (reject_node_input i code now c ids) (\<lambda>_. returnA ())"
| "wf_exec v (WO_fail i code re now c) ids = bindA (fail_node i code re now c ids) (\<lambda>_. returnA ())"
| "wf_exec v (WO_skip i reason now c) ids = bindA (skip_node i reason now c ids) (\<lambda>_. returnA ())"
| "wf_exec v (WO_cancel now c) ids = request_run_cancel now c ids"
| "wf_exec v (WO_confirm i now c) ids = bindA (confirm_node_cancel i now c ids) (\<lambda>_. returnA ())"

fun op_tags :: "wf_op \<Rightarrow> wf_run \<Rightarrow> string list" where
  \<comment> \<open>the transition ids an operation may log\<close>
  "op_tags (WO_start i now c) r = [c @ '':start'', c @ '':run-start'']"
| "op_tags (WO_accept i ref now c) r = [c @ '':accept'', c @ '':run-accepted'']"
| "op_tags (WO_succeed i s fp outs now c) r = [c @ '':succeed'', c]"
| "op_tags (WO_reject i code now c) r = [c @ '':reject-input'', c @ '':run-failed'']"
| "op_tags (WO_fail i code re now c) r = [c @ '':fail'', c @ '':run-failed'']"
| "op_tags (WO_skip i reason now c) r = [c @ '':skip'', c]"
| "op_tags (WO_cancel now c) r = [c @ '':run-cancel-requested'', c @ '':complete'']
     @ map (\<lambda>n. c @ '':'' @ wn_node_id n @ '':cancel'') (wr_nodes r)"
| "op_tags (WO_confirm i now c) r = [c @ '':confirm'', c]"

definition wf_op_fresh :: "wf_op \<Rightarrow> wf_run \<Rightarrow> bool" where
  \<comment> \<open>none of them is in the log yet\<close>
  "wf_op_fresh opr r \<longleftrightarrow> set (op_tags opr r) \<inter> we_transition_id ` set (wr_events r) = {}"

definition version_ok :: "wf_version \<Rightarrow> bool" where
  "version_ok v \<longleftrightarrow> mk_version (wv_workflow_code v) (wv_version v) (wv_nodes v) (wv_edges v)
     (wv_enabled v) = Inr v
   \<and> list_all (\<lambda>d. mk_node_def (nd_node_id d) (nd_node_type d) (nd_capability_code d)
       (nd_max_attempts d) (nd_input_fields d) (nd_output_fields d) = Inr d) (wv_nodes v)"

text \<open>
  The runs of a version: created, changed by an operation that returned, or read back with their nodes
  in another order. With \<open>strict\<close>, every operation comes with a command id not used in the run before.
\<close>

inductive wf_reachable :: "bool \<Rightarrow> wf_version \<Rightarrow> wf_run \<Rightarrow> bool" for strict v where
  created: "create_run v owner key input now rid nids ids = Inr r \<Longrightarrow> wf_reachable strict v r"
| stepped: "wf_reachable strict v r \<Longrightarrow> wf_exec v opr ids r = (r', Inr ()) \<Longrightarrow>
    (strict \<Longrightarrow> wf_op_fresh opr r) \<Longrightarrow> wf_reachable strict v r'"
| reordered: "wf_reachable strict v r \<Longrightarrow> mset ns = mset (wr_nodes r) \<Longrightarrow>
    wf_reachable strict v (r\<lparr>wr_nodes := ns\<rparr>)"

section \<open>What every operation keeps\<close>

definition settled :: "wf_node_status set" where
  "settled = {WN_SUCCEEDED, WN_FAILED, WN_CANCELLED, WN_SKIPPED}"

definition node_ok :: "wf_node \<Rightarrow> bool" where
  \<comment> \<open>the attempt budget, and what the status says of it\<close>
  "node_ok n \<longleftrightarrow>
     0 \<le> wn_attempt_count n \<and> wn_attempt_count n \<le> wn_max_attempts n
     \<and> (wn_status n = WN_QUEUED \<longrightarrow> wn_attempt_count n < wn_max_attempts n)
     \<and> (wn_status n \<in> {WN_RUNNING, WN_ACCEPTED, WN_SUCCEEDED, WN_CANCEL_REQUESTED}
          \<longrightarrow> 0 < wn_attempt_count n)"

definition node_wf :: "wf_node \<Rightarrow> bool" where
  \<comment> \<open>what the constructor checks of the texts, and that the times are set\<close>
  "node_wf n \<longleftrightarrow>
     is_identifier (wn_node_id n) \<and> is_identifier (wn_capability_code n) \<and> 0 < wn_max_attempts n
     \<and> pred_option is_safe_reference (wn_execution_reference n)
     \<and> pred_option is_safe_reference (wn_output_fingerprint n)
     \<and> pred_option is_safe_error (wn_failure_code n)
     \<and> wn_created_at n \<noteq> None \<and> wn_updated_at n \<noteq> None"

definition node_evolves :: "wf_node \<Rightarrow> wf_node \<Rightarrow> bool" where
  "node_evolves n n' \<longleftrightarrow>
     wn_node_id n' = wn_node_id n \<and> wn_node_type n' = wn_node_type n
     \<and> wn_capability_code n' = wn_capability_code n \<and> wn_max_attempts n' = wn_max_attempts n
     \<and> wn_created_at n' = wn_created_at n \<and> wn_id n' = wn_id n
     \<and> wn_attempt_count n \<le> wn_attempt_count n'
     \<and> (node_ok n \<longrightarrow> node_ok n') \<and> (node_wf n \<longrightarrow> node_wf n')
     \<and> (wn_status n \<in> settled \<longrightarrow> n' = n)"

definition log_ok :: "wf_run \<Rightarrow> bool" where
  "log_ok r \<longleftrightarrow>
     numbered_from_1 (map we_sequence (wr_events r)) \<and> distinct (map we_transition_id (wr_events r))
     \<and> (\<forall>ev \<in> set (wr_events r). we_run_id ev = wr_id r \<and> py_strip (we_transition_id ev) \<noteq> []
          \<and> check_event_metadata (we_event_type ev) (we_metadata ev) = Inr (we_metadata ev))"

definition run_evolves :: "wf_run \<Rightarrow> wf_run \<Rightarrow> bool" where
  "run_evolves r r' \<longleftrightarrow>
     wr_id r' = wr_id r \<and> wr_workflow_code r' = wr_workflow_code r
     \<and> wr_workflow_version r' = wr_workflow_version r \<and> wr_owner_subject r' = wr_owner_subject r
     \<and> wr_idempotency_key r' = wr_idempotency_key r \<and> wr_input_fingerprint r' = wr_input_fingerprint r
     \<and> wr_created_at r' = wr_created_at r \<and> (wr_updated_at r \<noteq> None \<longrightarrow> wr_updated_at r' \<noteq> None)
     \<and> list_all2 node_evolves (wr_nodes r) (wr_nodes r')
     \<and> prefix (wr_events r) (wr_events r')
     \<and> (log_ok r \<longrightarrow> log_ok r')"

lemma node_evolves_refl: "reflp node_evolves"
  by (simp add: reflp_def node_evolves_def)

lemma node_evolves_trans: "transp node_evolves"
  by (auto simp: transp_def node_evolves_def)

lemma run_evolves_refl [leads_intros]: "reflp run_evolves"
  using node_evolves_refl by (simp add: reflp_def run_evolves_def list_all2_refl)

lemma run_evolves_trans [leads_intros]: "transp run_evolves"
  using list_all2_trans [of node_evolves node_evolves node_evolves] node_evolves_trans
  unfolding transp_def run_evolves_def by (metis prefix_order.order_trans)

lemma run_evolves_fields:
  "list_all2 node_evolves (wr_nodes r) (wr_nodes r)"
  using node_evolves_refl by (simp add: reflp_def list_all2_refl)

lemmas node_methods = node_start_def node_accept_def node_succeed_def node_reject_input_def
  node_fail_def node_skip_def node_request_cancel_def node_confirm_cancel_def

lemma checked_texts:
  "wf_opaque_reference s = Inr t \<Longrightarrow> is_safe_reference t"
  "wf_fingerprint f = Inr g \<Longrightarrow> pred_option is_safe_reference g"
  "checked_error_code s = Inr t \<Longrightarrow> is_safe_error t"
  by (auto simp: wf_opaque_reference_def wf_fingerprint_def checked_error_code_def errE_simps
      split: if_splits option.splits)

lemma node_methods_evolve:
  "leads node_evolves (node_start now c rid eid)"
  "leads node_evolves (node_accept ref now c rid eid)"
  "leads node_evolves (node_succeed s fp outs now c rid eid)"
  "leads node_evolves (node_reject_input code now c rid eid)"
  "leads node_evolves (node_fail code re now c rid eid)"
  "leads node_evolves (node_skip reason now c rid eid)"
  "leads node_evolves (node_request_cancel now c rid eid)"
  "leads node_evolves (node_confirm_cancel now c rid eid)"
  by (auto simp: leads_def node_methods node_evolves_def node_ok_def node_wf_def settled_def bindA_def Let_def
      require_active_def guardE_def checked_texts split: sum.split)

lemma leads_on_node [leads_intros]:
  assumes "\<And>rid. leads node_evolves (m rid)"
  shows "leads run_evolves (on_node i m)"
proof (rule leadsI)
  fix r :: wf_run
  obtain n x where m: "m (Some (wr_id r)) (wr_nodes r ! i) = (n, x)" by fastforce
  have "node_evolves (wr_nodes r ! i) n" using leadsD [OF assms m] .
  then have "node_evolves (wr_nodes r ! j) ((wr_nodes r)[i := n] ! j)" if "j < length (wr_nodes r)" for j
    using run_evolves_fields [of r] that by (cases "i = j") (auto simp: list_all2_conv_all_nth)
  then have "list_all2 node_evolves (wr_nodes r) ((wr_nodes r)[i := n])"
    by (simp add: list_all2_conv_all_nth)
  then show "run_evolves r (fst (on_node i m r))"
    by (simp add: on_node_def m run_evolves_def log_ok_def)
qed

lemma mk_wf_event_returns:
  "mk_wf_event rid k c ty md now eid = Inr ev \<longleftrightarrow>
     0 < k \<and> py_strip c \<noteq> [] \<and> check_event_metadata ty md = Inr md \<and> (\<exists>t. now = Aware t
       \<and> ev = \<lparr>we_run_id = rid, we_sequence = k, we_transition_id = c, we_event_type = ty,
                we_metadata = md, we_created_at = t, we_id = eid\<rparr>)"
  by (auto simp: mk_wf_event_def check_event_metadata_def wf_json_object_def wf_text_def errE_simps
      split: if_splits)

lemma log_ok_append:
  assumes "log_ok r" "c \<notin> we_transition_id ` set (wr_events r)"
    "mk_wf_event (wr_id r) (int (length (wr_events r) + 1)) c ty md now eid = Inr ev"
  shows "log_ok (r\<lparr>wr_events := wr_events r @ [ev]\<rparr>)"
  using assms by (auto simp: log_ok_def mk_wf_event_returns)

lemma leads_log_event [leads_intros]: "leads run_evolves (log_event ids c ty now md)"
proof (rule leadsI)
  fix r
  show "run_evolves r (fst (log_event ids c ty now md r))"
    using run_evolves_fields [of r] log_ok_append [of r c ty md now]
    by (auto simp: log_event_def run_evolves_def bindA_def Let_def find_None_iff errE_simps
        split: option.split sum.split)
qed

lemma leads_log_existing [leads_intros]: "leads run_evolves (log_existing ids ev)"
proof (rule leadsI)
  fix r
  show "run_evolves r (fst (log_existing ids ev r))"
    using run_evolves_fields [of r] log_ok_append [of r "we_transition_id ev" "we_event_type ev" "we_metadata ev" "Aware (we_created_at ev)"]
    by (fastforce simp: log_existing_def run_evolves_def bindA_def Let_def list_ex_iff
        split: sum.split)
qed

lemma leads_modify_run [leads_intros]:
  "leads run_evolves (modifyA (\<lambda>r. r\<lparr>wr_status := st\<rparr>))"
  "leads run_evolves (modifyA (\<lambda>r. r\<lparr>wr_status := st, wr_result_summary := s\<rparr>))"
  "leads run_evolves (modifyA (\<lambda>r. r\<lparr>wr_status := st, wr_failure_code := s\<rparr>))"
  "leads run_evolves (modifyA (\<lambda>r. r\<lparr>wr_cancel_requested_at := d\<rparr>))"
  "leads run_evolves (modifyA (\<lambda>r. r\<lparr>wr_updated_at := Some t\<rparr>))"
  using run_evolves_fields by (auto intro!: leads_modifyA simp: run_evolves_def log_ok_def)

lemma leads_set_updated [leads_intros]: "leads run_evolves (set_updated now)"
  unfolding set_updated_def by (intro leads_intros)

lemma leads_refresh_status [leads_intros]: "leads run_evolves (refresh_status now c ids)"
proof -
  have "leads run_evolves (\<lambda>r. (r, Inr ()))"
    using run_evolves_refl by (rule leads_pure)
  then show ?thesis
    unfolding refresh_status_def [abs_def] by (intro leads_intros)
qed

lemma leads_fail_run [leads_intros]: "leads run_evolves (fail_run i nid now c ids)"
  unfolding fail_run_def [abs_def] Let_def
  by (rule leadsI, rule leadsD [OF _ prod.collapse [symmetric]], intro leads_intros)

lemma leads_cancel_node [leads_intros]: "leads run_evolves (cancel_node now c ids i)"
  unfolding cancel_node_def by (intro leads_intros node_methods_evolve)

lemma wf_exec_evolves: "leads run_evolves (wf_exec v opr ids)"
proof (cases opr)
  case (WO_cancel now c)
  have "leads run_evolves (request_run_cancel now c ids)"
  proof (rule leadsI)
    fix r
    have refl: "run_evolves r r" using run_evolves_refl by (simp add: reflp_def)
    let ?m = "thenA (modifyA (\<lambda>r. r\<lparr>wr_status := WR_CANCEL_REQUESTED\<rparr>))
        (bindA (liftA (wf_utc now)) (\<lambda>t.
        thenA (modifyA (\<lambda>r. r\<lparr>wr_cancel_requested_at := Some t\<rparr>))
        (thenA (log_event ids (c @ '':run-cancel-requested'') RUN_CANCEL_REQUESTED now [])
        (thenA (forA (cancel_node now c ids) [0..<length (wr_nodes r)])
        (thenA (whenA nodes_settled
                  (thenA (modifyA (\<lambda>r. r\<lparr>wr_status := WR_CANCELLED\<rparr>))
                  (thenA (log_event ids (c @ '':complete'') RUN_CANCELLED now []) (returnA ()))))
        (set_updated now))))))"
    have "leads run_evolves ?m" by (intro leads_intros)
    then have "run_evolves r (fst (?m r))" by (simp add: leads_def)
    with refl show "run_evolves r (fst (request_run_cancel now c ids r))"
      by (simp add: request_run_cancel_def)
  qed
  then show ?thesis by (simp add: WO_cancel)
qed (simp_all add: start_node_def accept_node_def succeed_node_def reject_node_input_def
    fail_node_def skip_node_def confirm_node_cancel_def check_open_def,
   (intro leads_intros node_methods_evolve)+)

end
