(* ===== verification/Workflow_Steps.thy ===== *)
theory Workflow_Steps
  imports Workflow_Machine
begin

text \<open>
  The life cycle of a workflow run as an abstract machine over the status of the run and the statuses
  of its nodes, the proof that every operation that returns is a step of it, and what the run status
  says of the nodes, by rule induction over the machine.
\<close>

section \<open>The abstract machine\<close>

type_synonym wf_summary = "wf_run_status \<times> wf_node_status list"

definition summary :: "wf_run \<Rightarrow> wf_summary" where
  "summary r = (wr_status r, map wn_status (wr_nodes r))"

definition run_closed :: "wf_run_status set" where
  "run_closed = {WR_CANCEL_REQUESTED, WR_CANCELLED, WR_FAILED, WR_SUCCEEDED}"

definition refreshed :: "wf_run_status \<Rightarrow> wf_node_status list \<Rightarrow> wf_run_status" where
  "refreshed st ns =
     (if set ns \<subseteq> {WN_SUCCEEDED, WN_SKIPPED} then WR_SUCCEEDED
      else if WN_ACCEPTED \<in> set ns then WR_ACCEPTED
      else if st = WR_ACCEPTED then WR_RUNNING else st)"

fun cancelled_status :: "wf_node_status \<Rightarrow> wf_node_status" where
  "cancelled_status WN_QUEUED = WN_CANCELLED"
| "cancelled_status WN_RUNNING = WN_CANCEL_REQUESTED"
| "cancelled_status WN_ACCEPTED = WN_CANCEL_REQUESTED"
| "cancelled_status st = st"

definition all_settled :: "wf_node_status list \<Rightarrow> bool" where
  "all_settled ns \<longleftrightarrow> set ns \<subseteq> {WN_CANCELLED, WN_SUCCEEDED, WN_SKIPPED}"

inductive summary_step :: "wf_summary \<Rightarrow> wf_summary \<Rightarrow> bool" where
  stay: "summary_step (st, ns) (st, ns)"
| start: "st \<notin> run_closed \<Longrightarrow> i < length ns \<Longrightarrow> ns ! i = WN_QUEUED \<Longrightarrow>
    summary_step (st, ns) (if st = WR_QUEUED then WR_RUNNING else st, ns[i := WN_RUNNING])"
| accept: "st \<notin> run_closed \<Longrightarrow> i < length ns \<Longrightarrow> ns ! i \<in> {WN_RUNNING, WN_ACCEPTED} \<Longrightarrow>
    summary_step (st, ns) (WR_ACCEPTED, ns[i := WN_ACCEPTED])"
| succeed: "i < length ns \<Longrightarrow> ns ! i \<in> {WN_RUNNING, WN_ACCEPTED, WN_SUCCEEDED} \<Longrightarrow>
    summary_step (st, ns) (refreshed st (ns[i := WN_SUCCEEDED]), ns[i := WN_SUCCEEDED])"
| reject: "st \<notin> run_closed \<Longrightarrow> i < length ns \<Longrightarrow> ns ! i = WN_QUEUED \<Longrightarrow>
    summary_step (st, ns) (WR_FAILED, ns[i := WN_FAILED])"
| retry: "i < length ns \<Longrightarrow> ns ! i \<in> {WN_RUNNING, WN_ACCEPTED} \<Longrightarrow>
    summary_step (st, ns) (st, ns[i := WN_QUEUED])"
| fail: "i < length ns \<Longrightarrow> ns ! i \<in> {WN_RUNNING, WN_ACCEPTED} \<Longrightarrow>
    summary_step (st, ns) (WR_FAILED, ns[i := WN_FAILED])"
| skip: "i < length ns \<Longrightarrow> ns ! i \<in> {WN_QUEUED, WN_SKIPPED} \<Longrightarrow>
    summary_step (st, ns) (refreshed st (ns[i := WN_SKIPPED]), ns[i := WN_SKIPPED])"
| cancel: "st \<notin> run_closed \<Longrightarrow>
    summary_step (st, ns)
      (if all_settled (map cancelled_status ns) then WR_CANCELLED else WR_CANCEL_REQUESTED,
       map cancelled_status ns)"
| confirm: "i < length ns \<Longrightarrow> ns ! i \<in> {WN_CANCEL_REQUESTED, WN_CANCELLED} \<Longrightarrow>
    summary_step (st, ns)
      (if st = WR_CANCEL_REQUESTED \<and> all_settled (ns[i := WN_CANCELLED]) then WR_CANCELLED else st,
       ns[i := WN_CANCELLED])"

section \<open>What the methods do when they return\<close>

lemma node_index_Inr: "node_index nid r = Inr i \<Longrightarrow> i < length (wr_nodes r) \<and> wn_node_id (wr_nodes r ! i) = nid"
  by (auto simp: node_index_def dest: first_index_Some split: option.splits)

lemma on_node_Inr_iff [errE_simps]:
  "on_node i m r = (r', Inr x) \<longleftrightarrow>
     (\<exists>n. m (Some (wr_id r)) (wr_nodes r ! i) = (n, Inr x) \<and> r' = r\<lparr>wr_nodes := (wr_nodes r)[i := n]\<rparr>)"
  by (auto simp: on_node_def split: prod.splits)

lemma log_event_Inr:
  "log_event ids c ty now md r = (r', Inr x) \<Longrightarrow> \<exists>es. r' = r\<lparr>wr_events := wr_events r @ es\<rparr>"
  by (auto simp: log_event_def Let_def errE_simps split: option.splits)
    (metis append_Nil2 wf_run.surjective wf_run.update_convs(13))

lemma log_existing_Inr:
  "log_existing ids ev r = (r', Inr x) \<Longrightarrow> \<exists>es. r' = r\<lparr>wr_events := wr_events r @ es\<rparr>"
  by (auto simp: log_existing_def Let_def errE_simps split: if_splits)
    (metis append_Nil2 wf_run.surjective wf_run.update_convs(13))

lemma node_status_moves:
  "node_start now c rid eid n = (n', Inr ev) \<Longrightarrow> wn_status n = WN_QUEUED \<and> wn_status n' = WN_RUNNING"
  "node_accept ref now c rid eid n = (n', Inr ev) \<Longrightarrow>
     wn_status n \<in> {WN_RUNNING, WN_ACCEPTED} \<and> wn_status n' = WN_ACCEPTED"
  "node_succeed s fp outs now c rid eid n = (n', Inr ev) \<Longrightarrow>
     wn_status n \<in> {WN_RUNNING, WN_ACCEPTED, WN_SUCCEEDED} \<and> wn_status n' = WN_SUCCEEDED"
  "node_reject_input code now c rid eid n = (n', Inr ev) \<Longrightarrow>
     wn_status n = WN_QUEUED \<and> wn_status n' = WN_FAILED"
  "node_fail code re now c rid eid n = (n', Inr ev) \<Longrightarrow>
     wn_status n \<in> {WN_RUNNING, WN_ACCEPTED} \<and> wn_status n' \<in> {WN_QUEUED, WN_FAILED}"
  "node_skip reason now c rid eid n = (n', Inr ev) \<Longrightarrow>
     wn_status n \<in> {WN_QUEUED, WN_SKIPPED} \<and> wn_status n' = WN_SKIPPED"
  "node_request_cancel now c rid eid n = (n', Inr ev) \<Longrightarrow>
     wn_status n' = cancelled_status (wn_status n)"
  "node_confirm_cancel now c rid eid n = (n', Inr ev) \<Longrightarrow>
     wn_status n \<in> {WN_CANCEL_REQUESTED, WN_CANCELLED} \<and> wn_status n' = WN_CANCELLED"
  by (auto simp: node_methods require_active_def Let_def errE_simps split: if_splits)

lemma summary_updates [simp]:
  "summary (r\<lparr>wr_events := es\<rparr>) = summary r" "summary (r\<lparr>wr_updated_at := d\<rparr>) = summary r"
  "summary (r\<lparr>wr_cancel_requested_at := d\<rparr>) = summary r"
  "summary (r\<lparr>wr_nodes := ns\<rparr>) = (wr_status r, map wn_status ns)"
  by (simp_all add: summary_def)

lemma append_summary:
  "log_event ids c ty now md r = (r', Inr x) \<Longrightarrow> summary r' = summary r"
  "log_existing ids ev r = (r', Inr u) \<Longrightarrow> summary r' = summary r"
  "set_updated now r = (r', Inr u) \<Longrightarrow> summary r' = summary r"
  by (auto dest!: log_event_Inr log_existing_Inr simp: set_updated_def errE_simps)

lemma refresh_status_summary:
  "refresh_status now c ids r = (r', Inr u) \<Longrightarrow>
     summary r' = (refreshed (wr_status r) (map wn_status (wr_nodes r)), map wn_status (wr_nodes r))"
  by (force simp: refresh_status_def refreshed_def errE_simps summary_def list_all_iff list_ex_iff
      split: if_splits dest!: log_event_Inr)

lemma fail_run_summary:
  "fail_run i nid now c ids r = (r', Inr u) \<Longrightarrow> summary r' = (WR_FAILED, map wn_status (wr_nodes r))"
  by (auto simp: fail_run_def Let_def errE_simps summary_def dest!: log_event_Inr)

lemma check_open_Inr [errE_simps]: "check_open r = (r', Inr u) \<longleftrightarrow> r' = r \<and> wr_status r \<notin> run_closed"
  by (auto simp: check_open_def run_closed_def errE_simps)

lemma readA_Inr_iff [errE_simps]: "readA f s = (s', Inr x) \<longleftrightarrow> s' = s \<and> f s = Inr x"
  by auto

lemma liftA_Inr_iff [errE_simps]: "liftA m s = (s', Inr x) \<longleftrightarrow> s' = s \<and> m = Inr x"
  by auto

lemma returnA_Inr_iff [errE_simps]: "returnA y s = (s', Inr x) \<longleftrightarrow> s' = s \<and> x = y"
  by auto

lemma modifyA_Inr_iff [errE_simps]: "modifyA f s = (s', Inr u) \<longleftrightarrow> s' = f s"
  by auto

lemma start_node_step:
  assumes "start_node v nid now c ids r = (r', Inr ev)"
  shows "summary_step (summary r) (summary r')"
proof -
  from assms obtain i n r1 r2 where i: "node_index nid r = Inr i" and open_run: "wr_status r \<notin> run_closed"
    and n: "node_start now (c @ '':start'') (Some (wr_id r)) (ids 0) (wr_nodes r ! i) = (n, Inr ev)"
    and r1: "whenA (\<lambda>r. wr_status r = WR_QUEUED)
       (thenA (modifyA (\<lambda>r. r\<lparr>wr_status := WR_RUNNING\<rparr>))
       (thenA (log_event ids (c @ '':run-start'') RUN_STARTED now []) (returnA ())))
       (r\<lparr>wr_nodes := (wr_nodes r)[i := n]\<rparr>) = (r1, Inr ())"
    and r2: "log_existing ids ev r1 = (r2, Inr ())" "set_updated now r2 = (r', Inr ())"
    by (auto simp: start_node_def errE_simps)
  have "summary r1 = (if wr_status r = WR_QUEUED then WR_RUNNING else wr_status r,
      map wn_status ((wr_nodes r)[i := n]))"
    using r1 by (auto simp: errE_simps summary_def split: if_splits dest!: log_event_Inr)
  moreover have "summary r' = summary r1" using r2 by (metis append_summary(2,3))
  ultimately show ?thesis
    using summary_step.start [OF open_run, of i "map wn_status (wr_nodes r)"] node_index_Inr [OF i]
      node_status_moves(1) [OF n] by (simp add: summary_def map_update)
qed

lemma accept_node_step:
  assumes "accept_node nid ref now c ids r = (r', Inr ev)"
  shows "summary_step (summary r) (summary r')"
proof -
  let ?acc = "\<lambda>i. wn_status (wr_nodes r ! i) = WN_ACCEPTED"
  let ?old = "\<lambda>i n. ?acc i \<and> find_latest_node_event nid NODE_ACCEPTED (r\<lparr>wr_nodes := (wr_nodes r)[i := n]\<rparr>) \<noteq> None"
  from assms obtain i n ev1 where i: "node_index nid r = Inr i" and open_run: "wr_status r \<notin> run_closed"
    and n: "node_accept ref now (c @ '':accept'') (Some (wr_id r)) (ids 0) (wr_nodes r ! i) = (n, Inr ev1)"
    and cont: "(if ?old i n
       then returnA (the (find_latest_node_event nid NODE_ACCEPTED (r\<lparr>wr_nodes := (wr_nodes r)[i := n]\<rparr>)))
       else bindA (modifyA (\<lambda>r. r\<lparr>wr_status := WR_ACCEPTED\<rparr>)) (\<lambda>_.
         bindA (log_existing ids ev1) (\<lambda>_.
         bindA (log_event ids (c @ '':run-accepted'') RUN_ACCEPTED now [(''node_id'', JStr nid)]) (\<lambda>_.
         bindA (set_updated now) (\<lambda>_. returnA ev1))))) (r\<lparr>wr_nodes := (wr_nodes r)[i := n]\<rparr>) = (r', Inr ev)"
    unfolding accept_node_def bindA_Inr_iff check_open_Inr readA_Inr_iff on_node_Inr_iff by blast
  have rest: "r' = r\<lparr>wr_nodes := (wr_nodes r)[i := n]\<rparr> \<and> ?acc i
       \<or> summary r' = (WR_ACCEPTED, map wn_status ((wr_nodes r)[i := n]))"
  proof (cases "?old i n")
    case False
    with cont obtain r1 r2 ev2 where
      "log_existing ids ev1 (r\<lparr>wr_nodes := (wr_nodes r)[i := n], wr_status := WR_ACCEPTED\<rparr>) = (r1, Inr ())"
      "log_event ids (c @ '':run-accepted'') RUN_ACCEPTED now [(''node_id'', JStr nid)] r1 = (r2, Inr ev2)"
      "set_updated now r2 = (r', Inr ())"
      by (simp only: if_False bindA_Inr_iff modifyA_Inr_iff returnA_Inr_iff) auto
    then have "summary r' = summary (r\<lparr>wr_nodes := (wr_nodes r)[i := n], wr_status := WR_ACCEPTED\<rparr>)"
      by (metis append_summary)
    then show ?thesis by (simp add: summary_def)
  next
    case True
    with cont show ?thesis unfolding if_P [OF True] returnA_Inr_iff by blast
  qed
  note m = node_index_Inr [OF i] node_status_moves(2) [OF n]
  show ?thesis
    using rest
  proof
    assume "r' = r\<lparr>wr_nodes := (wr_nodes r)[i := n]\<rparr> \<and> wn_status (wr_nodes r ! i) = WN_ACCEPTED"
    with m have "summary r' = summary r"
      by (simp add: summary_def map_update list_update_same_conv)
    then show ?thesis by (cases "summary r") (simp add: summary_step.stay)
  next
    assume "summary r' = (WR_ACCEPTED, map wn_status ((wr_nodes r)[i := n]))"
    with summary_step.accept [OF open_run, of i "map wn_status (wr_nodes r)"] m show ?thesis
      by (simp add: summary_def map_update)
  qed
qed

lemma succeed_node_step:
  assumes "succeed_node v nid s fp outs now c ids r = (r', Inr ev)"
  shows "summary_step (summary r) (summary r')"
proof -
  from assms consider "r' = r"
    | i n ev1 r1 where "node_index nid r = Inr i"
      "node_succeed s fp outs now (c @ '':succeed'') (Some (wr_id r)) (ids 0) (wr_nodes r ! i) = (n, Inr ev1)"
      "log_existing ids ev1 (r\<lparr>wr_nodes := (wr_nodes r)[i := n]\<rparr>) = (r1, Inr ())"
      "refresh_status now c ids r1 = (r', Inr ())"
    by (auto simp: succeed_node_def errE_simps Let_def split: option.splits if_splits)
  then show ?thesis
  proof cases
    case 1
    then show ?thesis by (simp add: summary_def summary_step.stay)
  next
    case 2
    have "wr_status r1 = wr_status r" "wr_nodes r1 = (wr_nodes r)[i := n]"
      using log_existing_Inr [OF 2(3)] by auto
    with refresh_status_summary [OF 2(4)] node_index_Inr [OF 2(1)] node_status_moves(3) [OF 2(2)]
    show ?thesis
      using summary_step.succeed [of i "map wn_status (wr_nodes r)" "wr_status r"]
      by (simp add: summary_def map_update)
  qed
qed

lemma reject_node_step:
  assumes "reject_node_input nid code now c ids r = (r', Inr ev)"
  shows "summary_step (summary r) (summary r')"
proof -
  from assms obtain i n r1 r2 where i: "node_index nid r = Inr i" and open_run: "wr_status r \<notin> run_closed"
    and n: "node_reject_input code now (c @ '':reject-input'') (Some (wr_id r)) (ids 0) (wr_nodes r ! i) = (n, Inr ev)"
    and r1: "log_existing ids ev (r\<lparr>wr_nodes := (wr_nodes r)[i := n]\<rparr>) = (r1, Inr ())"
    and r2: "fail_run i nid now c ids r1 = (r2, Inr ())" "set_updated now r2 = (r', Inr ())"
    by (auto simp: reject_node_input_def errE_simps)
  have "summary r' = (WR_FAILED, map wn_status ((wr_nodes r)[i := n]))"
    using append_summary(3) [OF r2(2)] fail_run_summary [OF r2(1)] log_existing_Inr [OF r1] by auto
  with summary_step.reject [OF open_run, of i "map wn_status (wr_nodes r)"] node_index_Inr [OF i]
    node_status_moves(4) [OF n] show ?thesis by (simp add: summary_def map_update)
qed

lemma fail_node_step:
  assumes "fail_node nid code re now c ids r = (r', Inr ev)"
  shows "summary_step (summary r) (summary r')"
proof -
  from assms obtain i n r1 r2 where i: "node_index nid r = Inr i"
    and n: "node_fail code re now (c @ '':fail'') (Some (wr_id r)) (ids 0) (wr_nodes r ! i) = (n, Inr ev)"
    and r1: "log_existing ids ev (r\<lparr>wr_nodes := (wr_nodes r)[i := n]\<rparr>) = (r1, Inr ())"
    and r2: "whenA (\<lambda>r. wn_status (wr_nodes r ! i) = WN_FAILED) (fail_run i nid now c ids) r1 = (r2, Inr ())"
      "set_updated now r2 = (r', Inr ())"
    by (auto simp: fail_node_def errE_simps)
  note m = node_index_Inr [OF i] node_status_moves(5) [OF n]
  have f: "wr_status r1 = wr_status r" "wr_nodes r1 = (wr_nodes r)[i := n]"
    using log_existing_Inr [OF r1] by auto
  have "summary r2 = (if wn_status n = WN_FAILED then WR_FAILED else wr_status r, map wn_status (wr_nodes r1))"
    using r2(1) f m by (auto simp: errE_simps summary_def split: if_splits dest!: fail_run_summary)
  with append_summary(3) [OF r2(2)] f m show ?thesis
    using summary_step.fail [of i "map wn_status (wr_nodes r)" "wr_status r"]
      summary_step.retry [of i "map wn_status (wr_nodes r)" "wr_status r"]
    by (auto simp: summary_def map_update)
qed

lemma skip_node_step:
  assumes "skip_node nid reason now c ids r = (r', Inr ev)"
  shows "summary_step (summary r) (summary r')"
proof -
  from assms obtain i n r1 where i: "node_index nid r = Inr i"
    and n: "node_skip reason now (c @ '':skip'') (Some (wr_id r)) (ids 0) (wr_nodes r ! i) = (n, Inr ev)"
    and r1: "log_existing ids ev (r\<lparr>wr_nodes := (wr_nodes r)[i := n]\<rparr>) = (r1, Inr ())"
    and r2: "refresh_status now c ids r1 = (r', Inr ())"
    by (auto simp: skip_node_def errE_simps)
  have "wr_status r1 = wr_status r" "wr_nodes r1 = (wr_nodes r)[i := n]"
    using log_existing_Inr [OF r1] by auto
  with refresh_status_summary [OF r2] node_index_Inr [OF i] node_status_moves(6) [OF n]
  show ?thesis
    using summary_step.skip [of i "map wn_status (wr_nodes r)" "wr_status r"]
    by (simp add: summary_def map_update)
qed

lemma confirm_node_step:
  assumes "confirm_node_cancel nid now c ids r = (r', Inr ev)"
  shows "summary_step (summary r) (summary r')"
proof -
  from assms obtain i n r1 r2 where i: "node_index nid r = Inr i"
    and n: "node_confirm_cancel now (c @ '':confirm'') (Some (wr_id r)) (ids 0) (wr_nodes r ! i) = (n, Inr ev)"
    and r1: "log_existing ids ev (r\<lparr>wr_nodes := (wr_nodes r)[i := n]\<rparr>) = (r1, Inr ())"
    and r2: "whenA (\<lambda>r. wr_status r = WR_CANCEL_REQUESTED \<and> nodes_settled r)
        (thenA (modifyA (\<lambda>r. r\<lparr>wr_status := WR_CANCELLED\<rparr>))
        (thenA (log_event ids c RUN_CANCELLED now []) (returnA ()))) r1 = (r2, Inr ())"
      "set_updated now r2 = (r', Inr ())"
    by (auto simp: confirm_node_cancel_def errE_simps)
  have f: "wr_status r1 = wr_status r" "wr_nodes r1 = (wr_nodes r)[i := n]"
    using log_existing_Inr [OF r1] by auto
  have "nodes_settled r1 \<longleftrightarrow> all_settled (map wn_status (wr_nodes r1))"
    by (auto simp: nodes_settled_def all_settled_def list_all_iff)
  then have "summary r2 = (if wr_status r = WR_CANCEL_REQUESTED \<and> all_settled (map wn_status (wr_nodes r1))
      then WR_CANCELLED else wr_status r, map wn_status (wr_nodes r1))"
    using r2(1) f by (auto simp: errE_simps summary_def split: if_splits dest!: log_event_Inr)
  with append_summary(3) [OF r2(2)] f node_index_Inr [OF i] node_status_moves(8) [OF n] show ?thesis
    using summary_step.confirm [of i "map wn_status (wr_nodes r)" "wr_status r"]
    by (simp add: summary_def map_update)
qed

lemma cancel_node_effect:
  assumes "cancel_node now c ids i r = (r', Inr u)" "i < length (wr_nodes r)"
  shows "wr_status r' = wr_status r
    \<and> map wn_status (wr_nodes r') = (map wn_status (wr_nodes r))[i := cancelled_status (wn_status (wr_nodes r ! i))]"
proof (cases "wn_status (wr_nodes r ! i) \<in> {WN_QUEUED, WN_RUNNING, WN_ACCEPTED}")
  case True
  with assms(1) obtain n ev r1 where
    "node_request_cancel now (c @ '':'' @ wn_node_id (wr_nodes r ! i) @ '':cancel'') (Some (wr_id r)) (ids 0)
      (wr_nodes r ! i) = (n, Inr ev)"
    "log_existing ids ev (r\<lparr>wr_nodes := (wr_nodes r)[i := n]\<rparr>) = (r', Inr ())"
    by (auto simp: cancel_node_def errE_simps)
  then show ?thesis by (auto simp: map_update dest!: log_existing_Inr node_status_moves(7))
next
  case False
  with assms(1) have "r' = r" by (simp add: cancel_node_def errE_simps)
  moreover have "cancelled_status (wn_status (wr_nodes r ! i)) = wn_status (wr_nodes r ! i)"
    using False by (cases "wn_status (wr_nodes r ! i)") simp_all
  ultimately show ?thesis using assms(2) by (simp add: list_update_same_conv map_update [symmetric])
qed

lemma cancel_nodes_effect:
  assumes "forA (cancel_node now c ids) [k..<length (wr_nodes r)] r = (r', Inr u)" "k \<le> length (wr_nodes r)"
  shows "wr_status r' = wr_status r \<and> map wn_status (wr_nodes r') =
    take k (map wn_status (wr_nodes r)) @ map cancelled_status (drop k (map wn_status (wr_nodes r)))"
  using assms
proof (induction "length (wr_nodes r) - k" arbitrary: k r)
  case (Suc d)
  then have k: "k < length (wr_nodes r)" by simp
  with Suc.prems(1) obtain r1 where r1: "cancel_node now c ids k r = (r1, Inr ())"
    and rest: "forA (cancel_node now c ids) [Suc k..<length (wr_nodes r)] r1 = (r', Inr u)"
    by (auto simp: upt_conv_Cons errE_simps)
  note e = cancel_node_effect [OF r1 k]
  have len: "length (wr_nodes r1) = length (wr_nodes r)" using e by (metis length_list_update length_map)
  have "wr_status r' = wr_status r1 \<and> map wn_status (wr_nodes r') =
      take (Suc k) (map wn_status (wr_nodes r1)) @ map cancelled_status (drop (Suc k) (map wn_status (wr_nodes r1)))"
    using Suc.hyps(1) [of r1 "Suc k"] Suc.hyps(2) rest k by (simp add: len)
  with e k show ?case
    by (simp add: take_Suc_conv_app_nth Cons_nth_drop_Suc [symmetric])
qed simp

lemma request_run_cancel_step:
  assumes "request_run_cancel now c ids r = (r', Inr u)"
  shows "summary_step (summary r) (summary r')"
proof (cases "wr_status r = WR_CANCEL_REQUESTED")
  case True
  with assms have "r' = r" by (simp add: request_run_cancel_def)
  then show ?thesis by (simp add: summary_def summary_step.stay)
next
  case False
  have st: "wr_status r \<notin> run_closed"
    using assms False by (auto simp: request_run_cancel_def run_closed_def split: if_splits)
  then have c: "wr_status r \<notin> {WR_SUCCEEDED, WR_FAILED, WR_CANCELLED}" by (auto simp: run_closed_def)
  from assms obtain t r1 r2 r3 ev u2 u3 where
    r1: "log_event ids (c @ '':run-cancel-requested'') RUN_CANCEL_REQUESTED now []
        (r\<lparr>wr_status := WR_CANCEL_REQUESTED, wr_cancel_requested_at := Some t\<rparr>) = (r1, Inr ev)"
    and r2: "forA (cancel_node now c ids) [0..<length (wr_nodes r)] r1 = (r2, Inr u2)"
    and r3: "whenA nodes_settled (thenA (modifyA (\<lambda>r. r\<lparr>wr_status := WR_CANCELLED\<rparr>))
        (thenA (log_event ids (c @ '':complete'') RUN_CANCELLED now []) (returnA ()))) r2 = (r3, Inr u3)"
      "set_updated now r3 = (r', Inr u)"
    unfolding request_run_cancel_def if_not_P [OF c] if_not_P [OF False]
      thenA_Inr_iff bindA_Inr_iff liftA_Inr_iff modifyA_Inr_iff by blast
  have s1: "wr_status r1 = WR_CANCEL_REQUESTED" "wr_nodes r1 = wr_nodes r"
    using log_event_Inr [OF r1] by auto
  with cancel_nodes_effect [of now c ids 0 r1 r2] r2
  have s2: "wr_status r2 = WR_CANCEL_REQUESTED"
    "map wn_status (wr_nodes r2) = map cancelled_status (map wn_status (wr_nodes r))" by simp_all
  have "nodes_settled r2 \<longleftrightarrow> all_settled (map wn_status (wr_nodes r2))"
    by (auto simp: nodes_settled_def all_settled_def list_all_iff)
  then have "summary r3 = (if all_settled (map wn_status (wr_nodes r2)) then WR_CANCELLED
      else WR_CANCEL_REQUESTED, map wn_status (wr_nodes r2))"
    using r3(1) s2(1) by (auto simp: errE_simps summary_def split: if_splits dest!: log_event_Inr)
  with append_summary(3) [OF r3(2)] s2(2) summary_step.cancel [OF st, of "map wn_status (wr_nodes r)"]
  show ?thesis by (simp add: summary_def)
qed

lemma wf_exec_summary_step: "wf_exec v opr ids r = (r', Inr u) \<Longrightarrow> summary_step (summary r) (summary r')"
  by (cases opr) (auto simp: errE_simps intro: start_node_step accept_node_step succeed_node_step
      reject_node_step fail_node_step skip_node_step request_run_cancel_step confirm_node_step)

section \<open>What the run status says\<close>

definition summary_ok :: "wf_summary \<Rightarrow> bool" where
  "summary_ok = (\<lambda>(st, ns).
     ns \<noteq> []
     \<and> (st = WR_SUCCEEDED \<longleftrightarrow> set ns \<subseteq> {WN_SUCCEEDED, WN_SKIPPED})
     \<and> (st = WR_CANCELLED \<longrightarrow> all_settled ns)
     \<and> (st = WR_CANCEL_REQUESTED \<longrightarrow> set ns \<inter> {WN_QUEUED, WN_RUNNING, WN_ACCEPTED} = {})
     \<and> (st = WR_FAILED \<longrightarrow> WN_FAILED \<in> set ns)
     \<and> (st = WR_QUEUED \<longrightarrow> set ns \<subseteq> {WN_QUEUED, WN_SKIPPED})
     \<and> (set ns \<inter> {WN_CANCELLED, WN_CANCEL_REQUESTED} \<noteq> {} \<longrightarrow> st \<in> {WR_CANCEL_REQUESTED, WR_CANCELLED}))"

lemma set_update_split:
  assumes "i < length ns"
  shows "\<exists>S. set ns = insert (ns ! i) S \<and> (\<forall>x. set (ns[i := x]) = insert x S)"
proof -
  have "ns = take i ns @ ns ! i # drop (Suc i) ns" using assms by (simp add: id_take_nth_drop)
  then have "set ns = insert (ns ! i) (set (take i ns) \<union> set (drop (Suc i) ns))"
    by (metis Un_insert_right list.simps(15) set_append)
  moreover have "set (ns[i := x]) = insert x (set (take i ns) \<union> set (drop (Suc i) ns))" for x
    using assms by (simp add: upd_conv_take_nth_drop)
  ultimately show ?thesis by blast
qed

lemma summary_ok_update:
  assumes "summary_ok (st, ns)" "i < length ns"
    "\<And>S. set ns = insert (ns ! i) S \<Longrightarrow>
       (st' = WR_SUCCEEDED \<longleftrightarrow> insert x S \<subseteq> {WN_SUCCEEDED, WN_SKIPPED})
       \<and> (st' = WR_CANCELLED \<longrightarrow> insert x S \<subseteq> {WN_CANCELLED, WN_SUCCEEDED, WN_SKIPPED})
       \<and> (st' = WR_CANCEL_REQUESTED \<longrightarrow> insert x S \<inter> {WN_QUEUED, WN_RUNNING, WN_ACCEPTED} = {})
       \<and> (st' = WR_FAILED \<longrightarrow> WN_FAILED \<in> insert x S)
       \<and> (st' = WR_QUEUED \<longrightarrow> insert x S \<subseteq> {WN_QUEUED, WN_SKIPPED})
       \<and> (insert x S \<inter> {WN_CANCELLED, WN_CANCEL_REQUESTED} \<noteq> {} \<longrightarrow> st' \<in> {WR_CANCEL_REQUESTED, WR_CANCELLED})"
  shows "summary_ok (st', ns[i := x])"
proof -
  from set_update_split [OF assms(2)] obtain S where S: "set ns = insert (ns ! i) S"
    "\<And>x. set (ns[i := x]) = insert x S" by blast
  have "ns[i := x] \<noteq> []" using assms(2) by auto
  with assms(3) [OF S(1)] S(2) show ?thesis by (simp add: summary_ok_def all_settled_def)
qed

lemma summary_ok_cancelled:
  "summary_ok (st, ns) \<Longrightarrow> n \<in> set ns \<Longrightarrow> n \<in> {WN_CANCEL_REQUESTED, WN_CANCELLED} \<Longrightarrow>
     st \<in> {WR_CANCEL_REQUESTED, WR_CANCELLED}"
  unfolding summary_ok_def by blast

lemma summary_step_ok: "summary_step s s' \<Longrightarrow> summary_ok s \<Longrightarrow> summary_ok s'"
proof (induction rule: summary_step.induct)
  case (start st i ns)
  then show ?case
    by (auto intro!: summary_ok_update [of st] simp: run_closed_def) (auto simp: summary_ok_def)
next
  case (accept st i ns)
  then show ?case
    by (auto intro!: summary_ok_update [of st] simp: run_closed_def) (auto simp: summary_ok_def)
next
  case (succeed i ns st)
  from set_update_split [OF succeed(1)] obtain S where S: "set ns = insert (ns ! i) S"
    "\<And>x. set (ns[i := x]) = insert x S" by blast
  have "ns[i := x] \<noteq> []" for x using succeed(1) by auto
  with S succeed(2,3) show ?case
    by (cases st) (auto simp: summary_ok_def refreshed_def all_settled_def)
next
  case (reject st i ns)
  then show ?case
    by (auto intro!: summary_ok_update [of st] simp: run_closed_def) (auto simp: summary_ok_def)
next
  case (retry i ns st)
  then show ?case
    by (auto intro!: summary_ok_update [of st]) (auto simp: summary_ok_def all_settled_def)
next
  case (fail i ns st)
  then show ?case
    by (auto intro!: summary_ok_update [of st]) (auto simp: summary_ok_def all_settled_def)
next
  case (skip i ns st)
  from set_update_split [OF skip(1)] obtain S where S: "set ns = insert (ns ! i) S"
    "\<And>x. set (ns[i := x]) = insert x S" by blast
  have "ns[i := x] \<noteq> []" for x using skip(1) by auto
  with S skip(2,3) show ?case
    by (cases st) (auto simp: summary_ok_def refreshed_def all_settled_def)
next
  case (cancel st ns)
  have c: "cancelled_status s \<notin> {WN_QUEUED, WN_RUNNING, WN_ACCEPTED}" for s by (cases s) simp_all
  have d: "cancelled_status s \<in> {WN_SUCCEEDED, WN_SKIPPED} \<longleftrightarrow> s \<in> {WN_SUCCEEDED, WN_SKIPPED}" for s
    by (cases s) simp_all
  then have "set (map cancelled_status ns) \<subseteq> {WN_SUCCEEDED, WN_SKIPPED} \<longleftrightarrow> set ns \<subseteq> {WN_SUCCEEDED, WN_SKIPPED}"
    by (simp only: set_map image_subset_iff subset_iff) blast
  moreover have "set (map cancelled_status ns) \<inter> {WN_QUEUED, WN_RUNNING, WN_ACCEPTED} = {}"
  proof -
    have "x \<notin> {WN_QUEUED, WN_RUNNING, WN_ACCEPTED}" if x: "x \<in> set (map cancelled_status ns)" for x
    proof -
      obtain s where "x = cancelled_status s" using x by auto
      with c [of s] show ?thesis by simp
    qed
    then show ?thesis by blast
  qed
  moreover have "st \<notin> run_closed" "ns \<noteq> []" "\<not> set ns \<subseteq> {WN_SUCCEEDED, WN_SKIPPED}"
    using cancel by (simp_all add: summary_ok_def run_closed_def)
  ultimately show ?case
    by (simp add: summary_ok_def all_settled_def del: set_map)
next
  case (confirm i ns st)
  from set_update_split [OF confirm(1)] obtain S where S: "set ns = insert (ns ! i) S"
    "\<And>x. set (ns[i := x]) = insert x S" by blast
  have ne: "ns \<noteq> []" "ns[i := x] \<noteq> []" for x using confirm(1) by auto
  from summary_ok_cancelled [OF confirm(3) nth_mem [OF confirm(1)] confirm(2)]
  have st: "st = WR_CANCEL_REQUESTED \<or> st = WR_CANCELLED" by blast
  have "insert (ns ! i) S \<inter> {WN_QUEUED, WN_RUNNING, WN_ACCEPTED} = {}"
    using confirm(3) st unfolding summary_ok_def all_settled_def S(1) [symmetric] by auto
  then have "S \<inter> {WN_QUEUED, WN_RUNNING, WN_ACCEPTED} = {}" by blast
  moreover have "st = WR_CANCELLED \<Longrightarrow> S \<subseteq> {WN_CANCELLED, WN_SUCCEEDED, WN_SKIPPED}"
    using confirm(3) S(1) by (simp add: summary_ok_def all_settled_def)
  ultimately show ?case
    using st ne S(2) by (elim disjE) (simp_all add: summary_ok_def all_settled_def)
qed

end
