(* ===== verification/Workflow_Invariants.thy ===== *)
theory Workflow_Invariants
  imports Workflow_Steps
begin

text \<open>
  Invariants of reachable workflow runs: the nodes are those of the version, the attempt budget and the
  log are in order, the run status says what it should of the nodes, and a node that was started has
  all its predecessors succeeded. With command ids that are not reused, every succeeded node has its
  declared outputs in the log.
\<close>

section \<open>Shape, budget, log and status\<close>

definition node_sig :: "wf_node \<Rightarrow> string \<times> string \<times> int" where
  "node_sig n = (wn_node_id n, wn_capability_code n, wn_max_attempts n)"

definition def_sig :: "wf_node_def \<Rightarrow> string \<times> string \<times> int" where
  "def_sig d = (nd_node_id d, nd_capability_code d, nd_max_attempts d)"

definition run_ok :: "wf_version \<Rightarrow> wf_run \<Rightarrow> bool" where
  "run_ok v r \<longleftrightarrow>
     mset (map node_sig (wr_nodes r)) = mset (map def_sig (wv_nodes v))
     \<and> (\<forall>n \<in> set (wr_nodes r). node_ok n) \<and> log_ok r \<and> summary_ok (summary r)"

lemma mk_version_ok:
  assumes "mk_version code ver nodes edges enabled = Inr v"
  shows "wv_nodes v = nodes" "wv_edges v = edges" "nodes \<noteq> []" "distinct (map nd_node_id nodes)"
    "edge_rel edges \<subseteq> nd_node_id ` set nodes \<times> nd_node_id ` set nodes"
    "\<forall>e \<in> set edges. check_edge nodes e () = Inr ()" "acyclic (edge_rel edges)"
proof -
  from assms have v: "wv_nodes v = nodes" "wv_edges v = edges" "nodes \<noteq> []" "distinct (map nd_node_id nodes)"
    and edges: "foldE (check_edge nodes) edges () = Inr ()"
    and ac: "assert_acyclic (map nd_node_id nodes) edges = Inr ()"
    by (auto simp: mk_version_def Let_def errE_simps split: if_splits)
  have checked: "\<forall>e \<in> set edges. check_edge nodes e () = Inr ()" using edges by (simp add: foldE_unit)
  then have rel: "edge_rel edges \<subseteq> nd_node_id ` set nodes \<times> nd_node_id ` set nodes"
    by (auto simp: edge_rel_def check_edge_def split: if_splits)
  then have "edge_rel edges \<subseteq> set (map nd_node_id nodes) \<times> set (map nd_node_id nodes)" by simp
  from assert_acyclic_iff [OF this] ac have "acyclic (edge_rel edges)" by (simp split: if_splits)
  with v checked rel show "wv_nodes v = nodes" "wv_edges v = edges" "nodes \<noteq> []"
    "distinct (map nd_node_id nodes)"
    "edge_rel edges \<subseteq> nd_node_id ` set nodes \<times> nd_node_id ` set nodes"
    "\<forall>e \<in> set edges. check_edge nodes e () = Inr ()" "acyclic (edge_rel edges)" by simp_all
qed

lemmas version_okD = mk_version_ok [of "wv_workflow_code v" "wv_version v" "wv_nodes v" "wv_edges v"
  "wv_enabled v" v for v]

lemma mk_node_def_ok:
  "mk_node_def nid ty code m ins outs = Inr d \<Longrightarrow>
     is_identifier (nd_node_id d) \<and> is_identifier (nd_capability_code d) \<and> 0 < nd_max_attempts d"
  by (auto simp: mk_node_def_def errE_simps split: if_splits)

lemma version_ok_nodes:
  assumes "version_ok v" "d \<in> set (wv_nodes v)"
  shows "is_identifier (nd_node_id d)" "is_identifier (nd_capability_code d)" "0 < nd_max_attempts d"
  using assms mk_node_def_ok by (fastforce simp: version_ok_def list_all_iff)+

lemma create_run_steps:
  assumes "create_run v owner key input now rid nids ids = Inr r"
  obtains t nodes r0 ev where "now = Aware t"
    "mapE (new_node t) (zip (wv_nodes v) (map nids [0..<length (wv_nodes v)])) = Inr nodes"
    "r0 = \<lparr>wr_workflow_code = wv_workflow_code v, wr_workflow_version = wv_version v,
       wr_owner_subject = py_strip owner, wr_idempotency_key = py_strip key,
       wr_input_fingerprint = py_strip input,
       wr_nodes = nodes, wr_status = WR_QUEUED, wr_result_summary = None,
       wr_failure_code = None, wr_cancel_requested_at = None,
       wr_created_at = Some t, wr_updated_at = Some t, wr_events = [], wr_id = rid\<rparr>"
    "log_event ids ''create'' RUN_CREATED (Aware t)
       [(''workflow_code'', JStr (wv_workflow_code v)), (''workflow_version'', JStr (wv_version v))] r0
     = (r, Inr ev)"
    "py_strip owner \<noteq> []" "py_strip key \<noteq> []" "py_strip input \<noteq> []"
  using assms
  by (auto simp: create_run_def errE_simps Let_def wf_text_def case_prod_unfold prod_eq_iff split: if_splits)

lemma mapE_zip_nth:
  "mapE f (zip xs (map g [0..<length xs])) = Inr ys \<Longrightarrow>
     length ys = length xs \<and> (\<forall>i<length xs. f (xs ! i, g i) = Inr (ys ! i))"
proof -
  have "list_all2 (\<lambda>p n. f p = Inr n) ps ns" if "mapE f ps = Inr ns" for ps ns
    using that by (induction ps arbitrary: ns) (auto simp: errE_simps)
  then show "mapE f (zip xs (map g [0..<length xs])) = Inr ys \<Longrightarrow>
     length ys = length xs \<and> (\<forall>i<length xs. f (xs ! i, g i) = Inr (ys ! i))"
    by (fastforce simp: list_all2_conv_all_nth)
qed

lemma create_run_returns:
  assumes "create_run v owner key input now rid nids ids = Inr r" "version_ok v"
  obtains t ev where "now = Aware t" "wr_events r = [ev]" "wr_status r = WR_QUEUED"
    "map node_sig (wr_nodes r) = map def_sig (wv_nodes v)"
    "\<forall>n \<in> set (wr_nodes r). wn_status n = WN_QUEUED \<and> wn_attempt_count n = 0 \<and> 0 < wn_max_attempts n"
    "we_event_type ev = RUN_CREATED" "log_ok r" "wr_id r = rid"
    "wr_workflow_code r = wv_workflow_code v" "wr_workflow_version r = wv_version v"
    "wr_owner_subject r = py_strip owner" "wr_idempotency_key r = py_strip key"
    "wr_input_fingerprint r = py_strip input" "py_strip owner \<noteq> []"
proof -
  let ?ds = "zip (wv_nodes v) (map nids [0..<length (wv_nodes v)])"
  obtain t nodes r0 ev0 where now: "now = Aware t"
    and nodes: "mapE (new_node t) ?ds = Inr nodes"
    and r0: "r0 = \<lparr>wr_workflow_code = wv_workflow_code v, wr_workflow_version = wv_version v,
                wr_owner_subject = py_strip owner, wr_idempotency_key = py_strip key,
                wr_input_fingerprint = py_strip input,
                wr_nodes = nodes, wr_status = WR_QUEUED, wr_result_summary = None,
                wr_failure_code = None, wr_cancel_requested_at = None,
                wr_created_at = Some t, wr_updated_at = Some t, wr_events = [], wr_id = rid\<rparr>"
    and ap: "log_event ids ''create'' RUN_CREATED (Aware t)
                 [(''workflow_code'', JStr (wv_workflow_code v)),
                  (''workflow_version'', JStr (wv_version v))] r0 = (r, Inr ev0)"
    and owner: "py_strip owner \<noteq> []"
    by (rule create_run_steps [OF assms(1)])
  have node: "node_sig n = def_sig d \<and> wn_status n = WN_QUEUED \<and> wn_attempt_count n = 0 \<and> 0 < wn_max_attempts n"
    if "new_node t (d, u) = Inr n" "d \<in> set (wv_nodes v)" for d u n
    using that version_ok_nodes [OF assms(2) that(2)]
    by (auto simp: new_node_def mk_node_def errE_simps node_sig_def def_sig_def is_identifier_trimmed
        py_strip_trimmed split: if_splits)
  from mapE_zip_nth [OF nodes] have l: "length nodes = length (wv_nodes v)"
    and nth: "\<And>i. i < length (wv_nodes v) \<Longrightarrow> new_node t (wv_nodes v ! i, nids i) = Inr (nodes ! i)"
    by auto
  note each = node [OF nth nth_mem]
  have sig: "map node_sig nodes = map def_sig (wv_nodes v)"
    using l each by (auto intro!: nth_equalityI)
  have st: "\<forall>n \<in> set nodes. wn_status n = WN_QUEUED \<and> wn_attempt_count n = 0 \<and> 0 < wn_max_attempts n"
    using l each by (auto simp: in_set_conv_nth)
  from ap obtain ev where ev: "r = r0\<lparr>wr_events := [ev]\<rparr>" "we_event_type ev = RUN_CREATED" "log_ok r"
  proof -
    have l0: "log_ok r0" by (simp add: r0 log_ok_def)
    have "log_ok r" using leadsD [OF leads_log_event ap] l0 by (simp add: run_evolves_def)
    moreover from ap have "\<exists>ev. r = r0\<lparr>wr_events := [ev]\<rparr> \<and> we_event_type ev = RUN_CREATED"
      by (auto simp: log_event_def r0 Let_def errE_simps mk_wf_event_returns)
    ultimately show ?thesis using that by blast
  qed
  show ?thesis
    by (rule that [OF now, of ev]) (use ev sig st owner in \<open>simp_all add: r0\<close>)
qed

lemma run_ok_created: "create_run v owner key input now rid nids ids = Inr r \<Longrightarrow> version_ok v \<Longrightarrow> run_ok v r"
proof (elim create_run_returns)
  fix t ev assume v: "version_ok v" and n: "map node_sig (wr_nodes r) = map def_sig (wv_nodes v)"
    "\<forall>n \<in> set (wr_nodes r). wn_status n = WN_QUEUED \<and> wn_attempt_count n = 0 \<and> 0 < wn_max_attempts n"
    and s: "wr_status r = WR_QUEUED" "log_ok r"
  have "wv_nodes v \<noteq> []" using v version_okD(3) by (simp add: version_ok_def)
  with n(1) have ne: "wr_nodes r \<noteq> []" by auto
  then have "summary_ok (summary r)"
    using n(2) s(1) by (auto simp: summary_ok_def summary_def image_constant_conv)
  with n s(2) show "run_ok v r" by (auto simp: run_ok_def node_ok_def)
qed

lemma list_all2_sig: "list_all2 node_evolves ns ns' \<Longrightarrow> map node_sig ns' = map node_sig ns"
  by (induction rule: list_all2_induct) (simp_all add: node_sig_def node_evolves_def)

lemma list_all2_ok: "list_all2 node_evolves ns ns' \<Longrightarrow> \<forall>n \<in> set ns. node_ok n \<Longrightarrow> \<forall>n \<in> set ns'. node_ok n"
  by (induction rule: list_all2_induct) (simp_all add: node_evolves_def)

lemma run_ok_step:
  assumes "wf_exec v opr ids r = (r', Inr u)" "run_ok v r"
  shows "run_ok v r'"
proof -
  have "run_evolves r r'" by (rule leadsD [OF wf_exec_evolves assms(1)])
  then have "list_all2 node_evolves (wr_nodes r) (wr_nodes r')" "log_ok r \<longrightarrow> log_ok r'"
    by (simp_all add: run_evolves_def)
  with list_all2_sig list_all2_ok summary_step_ok [OF wf_exec_summary_step [OF assms(1)]] assms(2)
  show ?thesis unfolding run_ok_def by metis
qed

lemma run_ok_reorder: "run_ok v r \<Longrightarrow> mset ns = mset (wr_nodes r) \<Longrightarrow> run_ok v (r\<lparr>wr_nodes := ns\<rparr>)"
proof -
  assume r: "run_ok v r" and m: "mset ns = mset (wr_nodes r)"
  have s: "set ns = set (wr_nodes r)" using m by (metis set_mset_mset)
  then have "ns = [] \<longleftrightarrow> wr_nodes r = []" by (metis set_empty)
  with r m s show ?thesis
    by (simp add: run_ok_def log_ok_def summary_ok_def summary_def all_settled_def)
qed

lemma reachable_ok: "wf_reachable strict v r \<Longrightarrow> version_ok v \<Longrightarrow> run_ok v r"
  by (induction rule: wf_reachable.induct) (auto intro: run_ok_created run_ok_step run_ok_reorder)

lemma summary_step_final:
  assumes "summary_step (st, ns) (st', ns')" "summary_ok (st, ns)" "st \<in> {WR_SUCCEEDED, WR_CANCELLED}"
  shows "st' = st"
proof -
  have sub: "set ns \<subseteq> {WN_CANCELLED, WN_SUCCEEDED, WN_SKIPPED}"
    using assms(2,3) by (auto simp: summary_ok_def all_settled_def)
  have iff: "st = WR_SUCCEEDED \<longleftrightarrow> set ns \<subseteq> {WN_SUCCEEDED, WN_SKIPPED}"
    using assms(2) by (simp add: summary_ok_def)
  have "WN_ACCEPTED \<notin> set ns" "st \<noteq> WR_ACCEPTED" using sub assms(3) by auto
  then have same: "refreshed st ns = st" using iff by (auto simp: refreshed_def)
  have mem: "ns ! i \<in> {WN_CANCELLED, WN_SUCCEEDED, WN_SKIPPED}" if "i < length ns" for i
    using sub that nth_mem by blast
  have closed: "st \<in> run_closed" "st \<noteq> WR_CANCEL_REQUESTED" using assms(3) by (auto simp: run_closed_def)
  show ?thesis
    using assms(1)
  proof cases
    case (succeed i)
    with mem [of i] have "ns ! i = WN_SUCCEEDED" by auto
    then have "ns[i := WN_SUCCEEDED] = ns" by (metis list_update_id)
    with succeed same show ?thesis by simp
  next
    case (skip i)
    with mem [of i] have "ns ! i = WN_SKIPPED" by auto
    then have "ns[i := WN_SKIPPED] = ns" by (metis list_update_id)
    with skip same show ?thesis by simp
  next
    case (fail i)
    with mem [of i] show ?thesis by auto
  qed (use closed in simp_all)
qed

end
