(* ===== verification/Workflow_Dependencies.thy ===== *)
theory Workflow_Dependencies
  imports Workflow_Invariants
begin

text \<open>
  The order in which nodes run: a node that was started has all its predecessors succeeded, and every
  succeeded node has its declared outputs in the log, so that some node is ready as long as nodes are
  queued and none failed.
\<close>

section \<open>Attempts change only when a node starts\<close>

definition same_attempts :: "wf_run \<Rightarrow> wf_run \<Rightarrow> bool" where
  "same_attempts r r' \<longleftrightarrow> map wn_attempt_count (wr_nodes r') = map wn_attempt_count (wr_nodes r)"

lemma same_attempts_refl [leads_intros]: "reflp same_attempts"
  by (simp add: reflp_def same_attempts_def)

lemma same_attempts_trans [leads_intros]: "transp same_attempts"
  by (simp add: transp_def same_attempts_def)

lemma leads_append_any:
  assumes "reflp R" "\<And>r es. R r (r\<lparr>wr_events := wr_events r @ es\<rparr>)"
  shows "leads R (log_event ids c ty now md)" "leads R (log_existing ids ev)"
  using assms by (auto simp: leads_def log_event_def log_existing_def bindA_def Let_def reflp_def
      split: option.split sum.split)

lemma same_attempts_append [leads_intros]:
  "leads same_attempts (log_event ids c ty now md)" "leads same_attempts (log_existing ids ev)"
  using same_attempts_refl by (rule leads_append_any; simp add: same_attempts_def)+

lemma same_attempts_modify [leads_intros]:
  "leads same_attempts (modifyA (\<lambda>r. r\<lparr>wr_status := st\<rparr>))"
  "leads same_attempts (modifyA (\<lambda>r. r\<lparr>wr_status := st, wr_result_summary := s\<rparr>))"
  "leads same_attempts (modifyA (\<lambda>r. r\<lparr>wr_status := st, wr_failure_code := s\<rparr>))"
  "leads same_attempts (modifyA (\<lambda>r. r\<lparr>wr_cancel_requested_at := d\<rparr>))"
  "leads same_attempts (modifyA (\<lambda>r. r\<lparr>wr_updated_at := d\<rparr>))"
  by (auto intro!: leads_modifyA simp: same_attempts_def)

lemma same_attempts_on_node [leads_intros]:
  assumes "\<And>rid. leads (\<lambda>n n'. wn_attempt_count n' = wn_attempt_count n) (m rid)"
  shows "leads same_attempts (on_node i m)"
proof (rule leadsI)
  fix r :: wf_run
  obtain n x where m: "m (Some (wr_id r)) (wr_nodes r ! i) = (n, x)" by fastforce
  have "wn_attempt_count n = wn_attempt_count (wr_nodes r ! i)" using leadsD [OF assms m] .
  then have "map wn_attempt_count ((wr_nodes r)[i := n]) = map wn_attempt_count (wr_nodes r)"
    by (cases "i < length (wr_nodes r)") (simp_all add: map_update list_update_same_conv list_update_beyond not_less)
  then show "same_attempts r (fst (on_node i m r))"
    by (simp add: on_node_def m same_attempts_def)
qed

lemma node_attempts_same:
  "leads (\<lambda>n n'. wn_attempt_count n' = wn_attempt_count n) (node_accept ref now c rid eid)"
  "leads (\<lambda>n n'. wn_attempt_count n' = wn_attempt_count n) (node_succeed s fp outs now c rid eid)"
  "leads (\<lambda>n n'. wn_attempt_count n' = wn_attempt_count n) (node_reject_input code now c rid eid)"
  "leads (\<lambda>n n'. wn_attempt_count n' = wn_attempt_count n) (node_fail code re now c rid eid)"
  "leads (\<lambda>n n'. wn_attempt_count n' = wn_attempt_count n) (node_skip reason now c rid eid)"
  "leads (\<lambda>n n'. wn_attempt_count n' = wn_attempt_count n) (node_request_cancel now c rid eid)"
  "leads (\<lambda>n n'. wn_attempt_count n' = wn_attempt_count n) (node_confirm_cancel now c rid eid)"
  by (auto simp: leads_def node_methods bindA_def Let_def split: sum.split)

lemma same_attempts_parts [leads_intros]:
  "leads same_attempts (set_updated now)" "leads same_attempts (fail_run i nid now c ids)"
  "leads same_attempts (refresh_status now c ids)" "leads same_attempts (cancel_node now c ids i)"
proof -
  show "leads same_attempts (set_updated now)" unfolding set_updated_def by (intro leads_intros)
  show "leads same_attempts (cancel_node now c ids i)"
    unfolding cancel_node_def by (intro leads_intros node_attempts_same)
  show "leads same_attempts (fail_run i nid now c ids)"
    unfolding fail_run_def [abs_def] Let_def
    by (rule leadsI, rule leadsD [OF _ prod.collapse [symmetric]], intro leads_intros)
  have "leads same_attempts (\<lambda>r. (r, Inr ()))" using same_attempts_refl by (rule leads_pure)
  then show "leads same_attempts (refresh_status now c ids)"
    unfolding refresh_status_def [abs_def] by (intro leads_intros)
qed

lemma wf_exec_same_attempts:
  assumes "\<And>i now c. opr \<noteq> WO_start i now c"
  shows "leads same_attempts (wf_exec v opr ids)"
proof (cases opr)
  case (WO_start i now c)
  with assms show ?thesis by blast
next
  case (WO_cancel now c)
  have "leads same_attempts (request_run_cancel now c ids)"
  proof (rule leadsI)
    fix r
    have refl: "same_attempts r r" by (simp add: same_attempts_def)
    have "leads same_attempts (thenA (modifyA (\<lambda>r. r\<lparr>wr_status := WR_CANCEL_REQUESTED\<rparr>))
        (bindA (liftA (wf_utc now)) (\<lambda>t.
        thenA (modifyA (\<lambda>r. r\<lparr>wr_cancel_requested_at := Some t\<rparr>))
        (thenA (log_event ids (c @ '':run-cancel-requested'') RUN_CANCEL_REQUESTED now [])
        (thenA (forA (cancel_node now c ids) [0..<length (wr_nodes r)])
        (thenA (whenA nodes_settled
                  (thenA (modifyA (\<lambda>r. r\<lparr>wr_status := WR_CANCELLED\<rparr>))
                  (thenA (log_event ids (c @ '':complete'') RUN_CANCELLED now []) (returnA ()))))
        (set_updated now)))))))" (is "leads _ ?m") by (intro leads_intros)
    then have "same_attempts r (fst (?m r))" by (simp add: leads_def)
    with refl show "same_attempts r (fst (request_run_cancel now c ids r))"
      by (simp add: request_run_cancel_def)
  qed
  then show ?thesis by (simp add: WO_cancel)
qed (simp_all add: accept_node_def succeed_node_def reject_node_input_def
    fail_node_def skip_node_def confirm_node_cancel_def check_open_def,
   (intro leads_intros node_attempts_same)+)

section \<open>Only a success logs a success\<close>

definition keeps_unfinished :: "wf_node \<Rightarrow> wf_node \<Rightarrow> bool" where
  "keeps_unfinished n n' \<longleftrightarrow> (wn_status n' = WN_SUCCEEDED \<longrightarrow> wn_status n = WN_SUCCEEDED)"

definition no_success :: "wf_run \<Rightarrow> wf_run \<Rightarrow> bool" where
  \<comment> \<open>no node turned succeeded and no success was logged\<close>
  "no_success r r' \<longleftrightarrow>
     list_all2 keeps_unfinished (wr_nodes r) (wr_nodes r')
     \<and> (\<exists>es. wr_events r' = wr_events r @ es \<and> (\<forall>ev \<in> set es. we_event_type ev \<noteq> NODE_SUCCEEDED))"

lemma keeps_unfinished_all: "list_all2 keeps_unfinished ns ns"
  by (simp add: list_all2_refl keeps_unfinished_def)

lemma no_success_refl [leads_intros]: "reflp no_success"
  by (auto simp: reflp_def no_success_def keeps_unfinished_all)

lemma no_success_trans [leads_intros]: "transp no_success"
proof (rule transpI)
  fix r r' r'' assume "no_success r r'" "no_success r' r''"
  moreover have "list_all2 keeps_unfinished a c" if "list_all2 keeps_unfinished a b" "list_all2 keeps_unfinished b c" for a b c
    using that by (rule list_all2_trans [rotated]) (simp add: keeps_unfinished_def)
  ultimately show "no_success r r''" unfolding no_success_def by fastforce
qed

lemma leads_bindA_post:
  assumes "transp R" "leads R m" "\<And>s s' x. m s = (s', Inr x) \<Longrightarrow> Q x" "\<And>x. Q x \<Longrightarrow> leads R (f x)"
  shows "leads R (bindA m f)"
proof (rule leadsI)
  fix s
  obtain s' x where m: "m s = (s', x)" by fastforce
  have R: "R s s'" using leadsD [OF assms(2) m] .
  show "R s (fst (bindA m f s))"
  proof (cases x)
    case (Inr y)
    with m assms(3,4) have "R s' (fst (f y s'))" by (auto simp: leads_def)
    with assms(1) R m Inr show ?thesis by (auto simp: bindA_def transp_def)
  qed (use m R in \<open>simp add: bindA_def\<close>)
qed

lemma mk_wf_event_type: "mk_wf_event rid k c ty md now eid = Inr ev \<Longrightarrow> we_event_type ev = ty"
  by (auto simp: mk_wf_event_returns)

lemma no_success_log_event [leads_intros]:
  "ty \<noteq> NODE_SUCCEEDED \<Longrightarrow> leads no_success (log_event ids c ty now md)"
  by (auto simp: leads_def log_event_def bindA_def Let_def no_success_def errE_simps
      keeps_unfinished_all dest!: mk_wf_event_type split: option.split sum.split)

lemma no_success_log_existing:
  "we_event_type ev \<noteq> NODE_SUCCEEDED \<Longrightarrow> leads no_success (log_existing ids ev)"
  by (auto simp: leads_def log_existing_def bindA_def Let_def no_success_def
      keeps_unfinished_all dest!: mk_wf_event_type split: option.split sum.split)

lemma no_success_on_node:
  assumes "\<And>rid. leads keeps_unfinished (m rid)"
  shows "leads no_success (on_node i m)"
proof (rule leadsI)
  fix r :: wf_run
  obtain n x where m: "m (Some (wr_id r)) (wr_nodes r ! i) = (n, x)" by fastforce
  have "keeps_unfinished (wr_nodes r ! i) n" using leadsD [OF assms m] .
  then have "keeps_unfinished (wr_nodes r ! j) ((wr_nodes r)[i := n] ! j)" if "j < length (wr_nodes r)" for j
    using that by (cases "i = j") (auto simp: keeps_unfinished_def)
  then show "no_success r (fst (on_node i m r))"
    by (simp add: on_node_def m no_success_def list_all2_conv_all_nth)
qed

lemma node_keeps_unfinished:
  "leads keeps_unfinished (node_start now c rid eid)"
  "leads keeps_unfinished (node_accept ref now c rid eid)"
  "leads keeps_unfinished (node_reject_input code now c rid eid)"
  "leads keeps_unfinished (node_fail code re now c rid eid)"
  "leads keeps_unfinished (node_skip reason now c rid eid)"
  "leads keeps_unfinished (node_request_cancel now c rid eid)"
  "leads keeps_unfinished (node_confirm_cancel now c rid eid)"
  by (auto simp: leads_def node_methods keeps_unfinished_def bindA_def Let_def require_active_def guardE_def
      split: sum.split)

lemma no_success_modify [leads_intros]:
  "leads no_success (modifyA (\<lambda>r. r\<lparr>wr_status := st\<rparr>))"
  "leads no_success (modifyA (\<lambda>r. r\<lparr>wr_status := st, wr_result_summary := s\<rparr>))"
  "leads no_success (modifyA (\<lambda>r. r\<lparr>wr_status := st, wr_failure_code := s\<rparr>))"
  "leads no_success (modifyA (\<lambda>r. r\<lparr>wr_cancel_requested_at := d\<rparr>))"
  "leads no_success (modifyA (\<lambda>r. r\<lparr>wr_updated_at := d\<rparr>))"
  by (auto intro!: leads_modifyA simp: no_success_def keeps_unfinished_all)

lemma node_event_type:
  "node_event n ty c now md rid eid = Inr ev \<Longrightarrow> we_event_type ev = ty"
  by (auto simp: node_event_def mk_wf_event_returns split: if_splits)

lemma node_method_event:
  "node_start now c rid eid n = (n', Inr ev) \<Longrightarrow> we_event_type ev \<noteq> NODE_SUCCEEDED"
  "node_accept ref now c rid eid n = (n', Inr ev) \<Longrightarrow> we_event_type ev \<noteq> NODE_SUCCEEDED"
  "node_reject_input code now c rid eid n = (n', Inr ev) \<Longrightarrow> we_event_type ev \<noteq> NODE_SUCCEEDED"
  "node_fail code re now c rid eid n = (n', Inr ev) \<Longrightarrow> we_event_type ev \<noteq> NODE_SUCCEEDED"
  "node_skip reason now c rid eid n = (n', Inr ev) \<Longrightarrow> we_event_type ev \<noteq> NODE_SUCCEEDED"
  "node_request_cancel now c rid eid n = (n', Inr ev) \<Longrightarrow> we_event_type ev \<noteq> NODE_SUCCEEDED"
  "node_confirm_cancel now c rid eid n = (n', Inr ev) \<Longrightarrow> we_event_type ev \<noteq> NODE_SUCCEEDED"
  by (auto simp: node_methods Let_def errE_simps accepted_event_def dest!: node_event_type split: if_splits)

lemma no_success_node_event:
  assumes "\<And>rid n n' ev. m rid n = (n', Inr ev) \<Longrightarrow> we_event_type ev \<noteq> NODE_SUCCEEDED"
    "\<And>rid. leads keeps_unfinished (m rid)"
    "\<And>ev. we_event_type ev \<noteq> NODE_SUCCEEDED \<Longrightarrow> leads no_success (f ev)"
  shows "leads no_success (bindA (on_node i m) f)"
  by (rule leads_bindA_post [OF no_success_trans no_success_on_node [OF assms(2)] _ assms(3)])
    (use assms(1) in \<open>auto simp: errE_simps\<close>)

lemmas no_success_methods =
  no_success_node_event [where m = "\<lambda>rid. node_start now c rid eid" for now c eid, OF node_method_event(1) node_keeps_unfinished(1)]
  no_success_node_event [where m = "\<lambda>rid. node_accept ref now c rid eid" for ref now c eid, OF node_method_event(2) node_keeps_unfinished(2)]
  no_success_node_event [where m = "\<lambda>rid. node_reject_input code now c rid eid" for code now c eid, OF node_method_event(3) node_keeps_unfinished(3)]
  no_success_node_event [where m = "\<lambda>rid. node_fail code re now c rid eid" for code re now c eid, OF node_method_event(4) node_keeps_unfinished(4)]
  no_success_node_event [where m = "\<lambda>rid. node_skip reason now c rid eid" for reason now c eid, OF node_method_event(5) node_keeps_unfinished(5)]
  no_success_node_event [where m = "\<lambda>rid. node_request_cancel now c rid eid" for now c eid, OF node_method_event(6) node_keeps_unfinished(6)]
  no_success_node_event [where m = "\<lambda>rid. node_confirm_cancel now c rid eid" for now c eid, OF node_method_event(7) node_keeps_unfinished(7)]

lemma no_success_parts [leads_intros]:
  "leads no_success (set_updated now)" "leads no_success (fail_run i nid now c ids)"
  "leads no_success (refresh_status now c ids)" "leads no_success (cancel_node now c ids i)"
proof -
  show "leads no_success (set_updated now)" unfolding set_updated_def by (intro leads_intros)
  show "leads no_success (cancel_node now c ids i)"
    unfolding cancel_node_def
    by (intro leads_whenA no_success_refl leads_bindA [OF _ leads_simple(2)] no_success_trans
        no_success_methods no_success_log_existing)
  show "leads no_success (fail_run i nid now c ids)"
    unfolding fail_run_def [abs_def] Let_def
    by (rule leadsI, rule leadsD [OF _ prod.collapse [symmetric]], intro leads_intros) simp
  have "leads no_success (\<lambda>r. (r, Inr ()))" using no_success_refl by (rule leads_pure)
  then show "leads no_success (refresh_status now c ids)"
    unfolding refresh_status_def [abs_def] by (intro leads_intros) simp_all
qed

lemma wf_exec_no_success:
  assumes "\<And>i s fp outs now c. opr \<noteq> WO_succeed i s fp outs now c"
  shows "leads no_success (wf_exec v opr ids)"
proof (cases opr)
  case (WO_succeed i s fp outs now c)
  with assms show ?thesis by blast
next
  case (WO_cancel now c)
  have "leads no_success (request_run_cancel now c ids)"
  proof (rule leadsI)
    fix r
    have refl: "no_success r r" by (simp add: no_success_def keeps_unfinished_all)
    have "leads no_success (thenA (modifyA (\<lambda>r. r\<lparr>wr_status := WR_CANCEL_REQUESTED\<rparr>))
        (bindA (liftA (wf_utc now)) (\<lambda>t.
        thenA (modifyA (\<lambda>r. r\<lparr>wr_cancel_requested_at := Some t\<rparr>))
        (thenA (log_event ids (c @ '':run-cancel-requested'') RUN_CANCEL_REQUESTED now [])
        (thenA (forA (cancel_node now c ids) [0..<length (wr_nodes r)])
        (thenA (whenA nodes_settled
                  (thenA (modifyA (\<lambda>r. r\<lparr>wr_status := WR_CANCELLED\<rparr>))
                  (thenA (log_event ids (c @ '':complete'') RUN_CANCELLED now []) (returnA ()))))
        (set_updated now)))))))" (is "leads _ ?m") by (intro leads_intros) simp_all
    then have "no_success r (fst (?m r))" by (simp add: leads_def)
    with refl show "no_success r (fst (request_run_cancel now c ids r))"
      by (simp add: request_run_cancel_def)
  qed
  then show ?thesis by (simp add: WO_cancel)
qed (simp_all add: start_node_def accept_node_def reject_node_input_def
    fail_node_def skip_node_def confirm_node_cancel_def check_open_def,
   (rule no_success_methods leads_intros no_success_log_existing, (assumption | simp; fail)?)+)

section \<open>Ready nodes\<close>

lemma run_node_ids:
  assumes "run_ok v r" "version_ok v"
  shows "distinct (map wn_node_id (wr_nodes r))"
    "wn_node_id ` set (wr_nodes r) = nd_node_id ` set (wv_nodes v)"
proof -
  have m: "mset (map node_sig (wr_nodes r)) = mset (map def_sig (wv_nodes v))" using assms(1) by (simp add: run_ok_def)
  have f: "map fst (map node_sig ns) = map wn_node_id ns" "map fst (map def_sig ds) = map nd_node_id ds" for ns ds
    by (simp_all add: node_sig_def def_sig_def comp_def)
  have ids: "mset (map wn_node_id (wr_nodes r)) = mset (map nd_node_id (wv_nodes v))"
    using arg_cong [OF m, of "image_mset fst"] by (simp only: mset_map [symmetric] f)
  then show "distinct (map wn_node_id (wr_nodes r))"
    using version_okD(4) assms(2) by (metis mset_eq_imp_distinct_iff version_ok_def)
  from ids have "set (map wn_node_id (wr_nodes r)) = set (map nd_node_id (wv_nodes v))" by (metis set_mset_mset)
  then show "wn_node_id ` set (wr_nodes r) = nd_node_id ` set (wv_nodes v)" by simp
qed

lemma node_index_unique:
  assumes "distinct (map wn_node_id (wr_nodes r))" "i < length (wr_nodes r)"
  shows "node_index (wn_node_id (wr_nodes r ! i)) r = Inr i"
proof -
  have "first_index (\<lambda>n. wn_node_id n = wn_node_id (wr_nodes r ! i)) (wr_nodes r) = Some i"
    using assms by (intro first_index_unique) (auto simp: distinct_conv_nth)
  then show ?thesis by (simp add: node_index_def)
qed

definition succeeded :: "wf_run \<Rightarrow> string \<Rightarrow> bool" where
  "succeeded r nid \<longleftrightarrow> (\<exists>n \<in> set (wr_nodes r). wn_node_id n = nid \<and> wn_status n = WN_SUCCEEDED)"

lemma node_succeeded_eq:
  assumes "distinct (map wn_node_id (wr_nodes r))" "nid \<in> wn_node_id ` set (wr_nodes r)"
  shows "node_succeeded r nid = Inr (succeeded r nid)"
proof -
  from assms(2) obtain i where i: "i < length (wr_nodes r)" "wn_node_id (wr_nodes r ! i) = nid"
    by (auto simp: in_set_conv_nth)
  have "succeeded r nid \<longleftrightarrow> wn_status (wr_nodes r ! i) = WN_SUCCEEDED"
    using i nth_mem [OF i(1)] assms(1) unfolding succeeded_def distinct_map
    by (metis inj_on_eq_iff)
  with node_index_unique [OF assms(1) i(1)] i(2) show ?thesis by (simp add: node_succeeded_def)
qed

definition is_ready :: "wf_version \<Rightarrow> wf_run \<Rightarrow> wf_node \<Rightarrow> bool" where
  "is_ready v r n \<longleftrightarrow> wn_status n = WN_QUEUED
     \<and> (\<forall>e \<in> set (wv_edges v). ed_target e = wn_node_id n \<longrightarrow> succeeded r (ed_source e)
          \<and> set (ed_output_fields e) \<subseteq> dict_keys (output_references (ed_source e) r))"

lemma version_node_total:
  assumes "nid \<in> nd_node_id ` set (wv_nodes v)"
  shows "\<exists>d. version_node v nid = Inr d \<and> d \<in> set (wv_nodes v) \<and> nd_node_id d = nid"
proof (cases "find (\<lambda>n. nd_node_id n = nid) (wv_nodes v)")
  case None
  with assms show ?thesis by (auto simp: find_None_iff)
next
  case (Some d)
  then have "d \<in> set (wv_nodes v) \<and> nd_node_id d = nid" by (auto simp: find_Some_iff)
  with Some show ?thesis by (simp add: version_node_def find_node_def_def)
qed

lemma allE_total: "(\<And>x. x \<in> set xs \<Longrightarrow> f x = Inr (P x)) \<Longrightarrow> allE f xs = Inr (list_all P xs)"
  by (induction xs) auto

lemma ready_nodes_eq:
  assumes "run_ok v r" "version_ok v"
  shows "ready_nodes v r = Inr (map wn_node_id (filter (is_ready v r) (wr_nodes r)))"
proof -
  note ids = run_node_ids [OF assms]
  have edges: "edge_rel (wv_edges v) \<subseteq> nd_node_id ` set (wv_nodes v) \<times> nd_node_id ` set (wv_nodes v)"
    using version_okD(5) assms(2) by (simp add: version_ok_def)
  have "node_ready v r n = Inr (is_ready v r n)" if n: "n \<in> set (wr_nodes r)" for n
  proof -
    have "wn_node_id n \<in> nd_node_id ` set (wv_nodes v)" using ids(2) n by blast
    then obtain d where d: "version_node v (wn_node_id n) = Inr d" using version_node_total by blast
    let ?es = "filter (\<lambda>e. ed_target e = wn_node_id n) (wv_edges v)"
    have "node_succeeded r (ed_source e) = Inr (succeeded r (ed_source e))" if "e \<in> set ?es" for e
      using that edges ids by (intro node_succeeded_eq) (auto simp: edge_rel_def)
    then have "allE (node_succeeded r) (map ed_source ?es) = Inr (list_all (succeeded r) (map ed_source ?es))"
      by (intro allE_total) auto
    with d show ?thesis
      by (auto simp: node_ready_def is_ready_def predecessors_def incoming_edges_def list_all_iff)
  qed
  then show ?thesis by (simp add: ready_nodes_def filterE_total [where P = "is_ready v r"])
qed

section \<open>Started nodes have succeeded predecessors\<close>

definition deps_ok :: "wf_version \<Rightarrow> wf_run \<Rightarrow> bool" where
  "deps_ok v r \<longleftrightarrow> (\<forall>n \<in> set (wr_nodes r). 0 < wn_attempt_count n \<longrightarrow>
     (\<forall>e \<in> set (wv_edges v). ed_target e = wn_node_id n \<longrightarrow> succeeded r (ed_source e)))"

lemma succeeded_mono: "run_evolves r r' \<Longrightarrow> succeeded r nid \<Longrightarrow> succeeded r' nid"
proof -
  assume e: "run_evolves r r'" and s: "succeeded r nid"
  from s obtain i where i: "i < length (wr_nodes r)" "wn_node_id (wr_nodes r ! i) = nid"
    "wn_status (wr_nodes r ! i) = WN_SUCCEEDED" by (auto simp: succeeded_def in_set_conv_nth)
  have l: "list_all2 node_evolves (wr_nodes r) (wr_nodes r')" using e by (simp add: run_evolves_def)
  then have len: "length (wr_nodes r') = length (wr_nodes r)" by (simp add: list_all2_lengthD)
  have "node_evolves (wr_nodes r ! i) (wr_nodes r' ! i)" using l i(1) by (simp add: list_all2_nthD)
  with i(3) have "wr_nodes r' ! i = wr_nodes r ! i" by (simp add: node_evolves_def settled_def)
  with i len show ?thesis by (metis nth_mem succeeded_def)
qed

lemma start_node_Inr:
  assumes "start_node v nid now c ids r = (r', Inr ev)"
  obtains i n ready where "node_index nid r = Inr i" "ready_nodes v r = Inr ready" "nid \<in> set ready"
    "wr_nodes r' = (wr_nodes r)[i := n]"
proof -
  from assms obtain i n r1 r2 ready where i: "node_index nid r = Inr i" "ready_nodes v r = Inr ready" "nid \<in> set ready"
    and r1: "whenA (\<lambda>r. wr_status r = WR_QUEUED)
       (thenA (modifyA (\<lambda>r. r\<lparr>wr_status := WR_RUNNING\<rparr>))
       (thenA (log_event ids (c @ '':run-start'') RUN_STARTED now []) (returnA ())))
       (r\<lparr>wr_nodes := (wr_nodes r)[i := n]\<rparr>) = (r1, Inr ())"
    and r2: "log_existing ids ev r1 = (r2, Inr ())" "set_updated now r2 = (r', Inr ())"
    by (auto simp: start_node_def errE_simps)
  have "wr_nodes r1 = (wr_nodes r)[i := n]"
    using r1 by (auto simp: errE_simps split: if_splits dest!: log_event_Inr)
  moreover have "wr_nodes r' = wr_nodes r1"
    using r2 by (auto simp: set_updated_def errE_simps dest!: log_existing_Inr)
  ultimately show ?thesis using that i by metis
qed

lemma deps_ok_step:
  assumes "wf_exec v opr ids r = (r', Inr u)" "run_ok v r" "version_ok v" "deps_ok v r"
  shows "deps_ok v r'"
  unfolding deps_ok_def
proof (intro ballI impI)
  have ev: "run_evolves r r'" by (rule leadsD [OF wf_exec_evolves assms(1)])
  then have l2: "list_all2 node_evolves (wr_nodes r) (wr_nodes r')" by (simp add: run_evolves_def)
  fix n' e assume n': "n' \<in> set (wr_nodes r')" "0 < wn_attempt_count n'"
    and e: "e \<in> set (wv_edges v)" "ed_target e = wn_node_id n'"
  from n'(1) obtain i where i: "i < length (wr_nodes r')" "wr_nodes r' ! i = n'" by (auto simp: in_set_conv_nth)
  have len: "length (wr_nodes r') = length (wr_nodes r)" using l2 by (simp add: list_all2_lengthD)
  let ?n = "wr_nodes r ! i"
  have "node_evolves ?n n'" using l2 i len by (metis list_all2_nthD)
  then have nid: "wn_node_id n' = wn_node_id ?n" by (simp add: node_evolves_def)
  have mem: "?n \<in> set (wr_nodes r)" using i(1) len by simp
  have "succeeded r (ed_source e)"
  proof (cases "0 < wn_attempt_count ?n")
    case True
    with assms(4) mem e nid show ?thesis by (simp add: deps_ok_def)
  next
    case False
    have "\<exists>j now c. opr = WO_start j now c"
    proof (rule ccontr)
      assume "\<nexists>j now c. opr = WO_start j now c"
      then have "same_attempts r r'" by (intro leadsD [OF wf_exec_same_attempts assms(1)]) blast
      then have "wn_attempt_count n' = wn_attempt_count ?n"
        using i len unfolding same_attempts_def by (metis nth_map)
      with n'(2) False show False by simp
    qed
    then obtain nid' now c where opr: "opr = WO_start nid' now c" by blast
    with assms(1) obtain ev where st: "start_node v nid' now c ids r = (r', Inr ev)" by (auto simp: errE_simps)
    from start_node_Inr [OF st] obtain j n ready where j: "node_index nid' r = Inr j"
      and ready: "ready_nodes v r = Inr ready" "nid' \<in> set ready" and nodes: "wr_nodes r' = (wr_nodes r)[j := n]" by blast
    have "i = j"
      using nodes i n'(2) False by (metis nth_list_update_neq)
    with node_index_Inr [OF j] have "nid' = wn_node_id ?n" by simp
    with ready(2) obtain m where m: "m \<in> set (wr_nodes r)" "is_ready v r m" "wn_node_id m = wn_node_id n'"
      using ready(1) nid by (auto simp: ready_nodes_eq [OF assms(2,3)])
    with e show ?thesis by (simp add: is_ready_def)
  qed
  with succeeded_mono [OF ev] show "succeeded r' (ed_source e)" by blast
qed

lemma succeeded_reorder: "set ns = set (wr_nodes r) \<Longrightarrow> succeeded (r\<lparr>wr_nodes := ns\<rparr>) = succeeded r"
  by (simp add: succeeded_def fun_eq_iff)

lemma reachable_deps: "wf_reachable strict v r \<Longrightarrow> version_ok v \<Longrightarrow> deps_ok v r"
proof (induction rule: wf_reachable.induct)
  case (created owner key input now rid nids ids r)
  then show ?case by (elim create_run_returns) (simp_all add: deps_ok_def)
next
  case (stepped r opr ids r')
  then show ?case using deps_ok_step reachable_ok by blast
next
  case (reordered r ns)
  then have "set ns = set (wr_nodes r)" by (metis set_mset_mset)
  with reordered show ?case by (simp add: deps_ok_def succeeded_reorder)
qed

section \<open>Succeeded nodes have their outputs in the log\<close>

definition outputs_logged :: "wf_version \<Rightarrow> wf_run \<Rightarrow> wf_node \<Rightarrow> bool" where
  "outputs_logged v r n \<longleftrightarrow> (\<exists>ev refs d. find_latest_node_event (wn_node_id n) NODE_SUCCEEDED r = Some ev
     \<and> map_of (we_metadata ev) ''output_references'' = Some (JObj refs)
     \<and> version_node v (wn_node_id n) = Inr d \<and> dict_keys refs = set (nd_output_fields d))"

definition outs_ok :: "wf_version \<Rightarrow> wf_run \<Rightarrow> bool" where
  "outs_ok v r \<longleftrightarrow> (\<forall>n \<in> set (wr_nodes r). wn_status n = WN_SUCCEEDED \<longrightarrow> outputs_logged v r n)"

lemma find_latest_append:
  assumes "wr_events r' = wr_events r @ es"
    "\<forall>ev \<in> set es. we_event_type ev = ty \<longrightarrow> map_of (we_metadata ev) ''node_id'' \<noteq> Some (JStr nid)"
  shows "find_latest_node_event nid ty r' = find_latest_node_event nid ty r"
proof -
  let ?P = "\<lambda>ev. we_event_type ev = ty \<and> map_of (we_metadata ev) ''node_id'' = Some (JStr nid)"
  have "find ?P (rev es @ zs) = find ?P zs" for zs
    using assms(2) by (induction es arbitrary: zs) auto
  then show ?thesis by (simp add: find_latest_node_event_def assms(1))
qed

lemma succeed_node_Inr:
  assumes "succeed_node v nid s fp outs now c ids r = (r', Inr ev)"
  obtains (same) "r' = r"
  | (logged) i n d ev1 es where "node_index nid r = Inr i" "version_node v nid = Inr d"
      "dict_keys outs = set (nd_output_fields d)"
      "node_succeed s fp outs now (c @ '':succeed'') (Some (wr_id r)) (ids 0) (wr_nodes r ! i) = (n, Inr ev1)"
      "wn_status (wr_nodes r ! i) = WN_SUCCEEDED \<Longrightarrow> find_latest_node_event nid NODE_SUCCEEDED r = None"
      "wr_nodes r' = (wr_nodes r)[i := n]"
      "log_existing ids ev1 (r\<lparr>wr_nodes := (wr_nodes r)[i := n]\<rparr>)
         = (r\<lparr>wr_nodes := (wr_nodes r)[i := n], wr_events := wr_events r @ es\<rparr>, Inr ())"
      "no_success (r\<lparr>wr_nodes := (wr_nodes r)[i := n], wr_events := wr_events r @ es\<rparr>) r'"
proof -
  let ?old = "\<lambda>i. let n = wr_nodes r ! i in
         if wn_status n \<noteq> WN_SUCCEEDED then Inr None
         else if wn_result_summary n \<noteq> Some s \<or> wn_output_fingerprint n \<noteq> fp
         then Inl WorkflowIdempotencyConflictError
         else if \<not> same_dict (output_references nid r) outs
         then Inl WorkflowIdempotencyConflictError
         else Inr (find_latest_node_event nid NODE_SUCCEEDED r)"
  from assms obtain i d u existing where 1: "node_index nid r = Inr i" "version_node v nid = Inr d"
    "check_outputs d outs = Inr u" "?old i = Inr existing"
    and k: "(case existing of Some ev \<Rightarrow> returnA ev
     | None \<Rightarrow>
         bindA (on_node i (\<lambda>rid. node_succeed s fp outs now (c @ '':succeed'') rid (ids 0))) (\<lambda>event.
         bindA (log_existing ids event) (\<lambda>_.
         bindA (refresh_status now c ids) (\<lambda>_. returnA event)))) r = (r', Inr ev)"
    unfolding succeed_node_def bindA_Inr_iff readA_Inr_iff liftA_Inr_iff by blast
  have old: "wn_status (wr_nodes r ! i) \<noteq> WN_SUCCEEDED \<or> find_latest_node_event nid NODE_SUCCEEDED r = existing"
    using 1(4) by (auto simp: Let_def split: if_splits)
  show ?thesis
  proof (cases existing)
    case (Some ev0)
    with k have "r' = r" by simp
    then show ?thesis by (rule same)
  next
    case None
    with k obtain n ev1 r1 where
      n: "node_succeed s fp outs now (c @ '':succeed'') (Some (wr_id r)) (ids 0) (wr_nodes r ! i) = (n, Inr ev1)"
      and ap: "log_existing ids ev1 (r\<lparr>wr_nodes := (wr_nodes r)[i := n]\<rparr>) = (r1, Inr ())"
      and rf: "refresh_status now c ids r1 = (r', Inr ())"
      by (auto simp: errE_simps)
    from log_existing_Inr [OF ap] obtain es
      where r1: "r1 = r\<lparr>wr_nodes := (wr_nodes r)[i := n], wr_events := wr_events r @ es\<rparr>" by auto
    have d: "dict_keys outs = set (nd_output_fields d)"
      using 1(3) by (auto simp: check_outputs_def split: if_splits)
    have "wr_nodes r' = wr_nodes r1"
      using rf by (auto simp: refresh_status_def errE_simps split: if_splits dest!: log_event_Inr)
    then have w: "wr_nodes r' = (wr_nodes r)[i := n]" by (simp add: r1)
    have ns: "no_success r1 r'" by (rule leadsD [OF no_success_parts(3) rf])
    have o: "find_latest_node_event nid NODE_SUCCEEDED r = None" if "wn_status (wr_nodes r ! i) = WN_SUCCEEDED"
      using old None that by simp
    show ?thesis by (rule logged [OF 1(1,2) d n o w ap [unfolded r1] ns [unfolded r1]])
  qed
qed

lemma succeed_event:
  assumes "node_succeed s fp outs now c rid eid n = (n', Inr ev)"
  shows "we_event_type ev = NODE_SUCCEEDED" "we_transition_id ev = c"
    "map_of (we_metadata ev) ''node_id'' = Some (JStr (wn_node_id n))"
    "map_of (we_metadata ev) ''output_references'' = Some (JObj outs)"
  using assms
  by (auto simp: node_succeed_def Let_def errE_simps succeeded_event_def node_event_def mk_wf_event_returns
      split: if_splits)

lemma log_existing_fresh:
  assumes "log_existing ids ev r = (r\<lparr>wr_events := wr_events r @ es\<rparr>, Inr ())"
    "we_transition_id ev \<notin> we_transition_id ` set (wr_events r)"
  shows "\<exists>ev'. es = [ev'] \<and> we_event_type ev' = we_event_type ev \<and> we_metadata ev' = we_metadata ev"
proof -
  have "\<not> list_ex (\<lambda>e. we_transition_id e = we_transition_id ev) (wr_events r)"
    using assms(2) by (auto simp: list_ex_iff) (metis image_eqI)
  with assms(1) obtain ev' where "mk_wf_event (wr_id r) (int (length (wr_events r) + 1)) (we_transition_id ev)
      (we_event_type ev) (we_metadata ev) (Aware (we_created_at ev)) (ids (length (wr_events r) + 1)) = Inr ev'"
    "r\<lparr>wr_events := wr_events r @ es\<rparr> = r\<lparr>wr_events := wr_events r @ [ev']\<rparr>"
    by (auto simp: log_existing_def Let_def errE_simps)
  then show ?thesis by (cases r) (auto simp: mk_wf_event_returns)
qed

lemma outputs_logged_cong:
  "find_latest_node_event (wn_node_id n) NODE_SUCCEEDED r' = find_latest_node_event (wn_node_id n) NODE_SUCCEEDED r
     \<Longrightarrow> outputs_logged v r' n = outputs_logged v r n"
  by (simp add: outputs_logged_def)

lemma no_success_find:
  "no_success r r' \<Longrightarrow> find_latest_node_event nid NODE_SUCCEEDED r' = find_latest_node_event nid NODE_SUCCEEDED r"
  unfolding no_success_def by (blast intro: find_latest_append)

lemma outs_ok_step:
  assumes "wf_exec v opr ids r = (r', Inr u)" "run_ok v r" "version_ok v" "outs_ok v r" "wf_op_fresh opr r"
  shows "outs_ok v r'"
proof (cases "\<exists>i s fp outs now c. opr = WO_succeed i s fp outs now c")
  case False
  then have ns: "no_success r r'" by (intro leadsD [OF wf_exec_no_success assms(1)]) blast
  have l2: "list_all2 node_evolves (wr_nodes r) (wr_nodes r')"
    using leadsD [OF wf_exec_evolves assms(1)] by (simp add: run_evolves_def)
  have len: "length (wr_nodes r') = length (wr_nodes r)" using l2 by (simp add: list_all2_lengthD)
  have "outputs_logged v r' n'" if n': "n' \<in> set (wr_nodes r')" "wn_status n' = WN_SUCCEEDED" for n'
  proof -
    from n' obtain i where i: "i < length (wr_nodes r)" "wr_nodes r' ! i = n'" by (auto simp: in_set_conv_nth len)
    have "keeps_unfinished (wr_nodes r ! i) (wr_nodes r' ! i)"
      using ns i(1) by (simp add: no_success_def list_all2_nthD)
    then have "wn_status (wr_nodes r ! i) = WN_SUCCEEDED" using i(2) n'(2) by (simp add: keeps_unfinished_def)
    moreover have "node_evolves (wr_nodes r ! i) n'" using l2 i by (metis list_all2_nthD)
    ultimately have "n' = wr_nodes r ! i" by (simp add: node_evolves_def settled_def)
    with assms(4) i n'(2) have "outputs_logged v r n'" by (auto simp: outs_ok_def)
    then show ?thesis using outputs_logged_cong [OF no_success_find [OF ns]] by blast
  qed
  then show ?thesis by (simp add: outs_ok_def)
next
  case True
  then obtain nid s fp outs now c where opr: "opr = WO_succeed nid s fp outs now c" by blast
  with assms(1) obtain ev where "succeed_node v nid s fp outs now c ids r = (r', Inr ev)" by (auto simp: errE_simps)
  then show ?thesis
  proof (cases rule: succeed_node_Inr)
    case same
    with assms(4) show ?thesis by simp
  next
    case (logged i n d ev1 es)
    note i = node_index_Inr [OF logged(1)]
    note ev1 = succeed_event [OF logged(4)]
    let ?r1 = "r\<lparr>wr_nodes := (wr_nodes r)[i := n], wr_events := wr_events r @ es\<rparr>"
    have n: "wn_node_id n = nid" "wn_status n = WN_SUCCEEDED"
      using leadsD [OF node_methods_evolve(3) logged(4)] node_status_moves(3) [OF logged(4)] i
      by (simp_all add: node_evolves_def)
    have "we_transition_id ev1 \<notin> we_transition_id ` set (wr_events r)"
      using assms(5) ev1(2) by (auto simp: wf_op_fresh_def opr)
    then obtain ev' where ev': "es = [ev']" "we_event_type ev' = NODE_SUCCEEDED" "we_metadata ev' = we_metadata ev1"
      using log_existing_fresh [of ids ev1 "r\<lparr>wr_nodes := (wr_nodes r)[i := n]\<rparr>" es] logged(7) ev1(1) by auto
    note find = no_success_find [OF logged(8)]
    have mine: "find_latest_node_event nid NODE_SUCCEEDED r' = Some ev'"
      unfolding find using ev' ev1(3) i by (simp add: find_latest_node_event_def)
    have other: "find_latest_node_event m NODE_SUCCEEDED r' = find_latest_node_event m NODE_SUCCEEDED r"
      if "m \<noteq> nid" for m
      unfolding find by (rule find_latest_append) (use ev' ev1(3) i that in auto)
    have "outputs_logged v r' m" if m: "m \<in> set (wr_nodes r')" "wn_status m = WN_SUCCEEDED" for m
    proof (cases "wn_node_id m = nid")
      case True
      with mine ev'(3) ev1(4) logged(2,3) show ?thesis by (simp add: outputs_logged_def)
    next
      case False
      with m(1) n(1) logged(6) i have "m \<in> set (wr_nodes r)"
        by (metis in_set_conv_nth length_list_update nth_list_update)
      with assms(4) m(2) have "outputs_logged v r m" by (simp add: outs_ok_def)
      with outputs_logged_cong [OF other [OF False]] show ?thesis by blast
    qed
    then show ?thesis by (simp add: outs_ok_def)
  qed
qed

lemma reachable_outs: "wf_reachable True v r \<Longrightarrow> version_ok v \<Longrightarrow> outs_ok v r"
proof (induction rule: wf_reachable.induct)
  case (created owner key input now rid nids ids r)
  then show ?case by (elim create_run_returns) (simp_all add: outs_ok_def)
next
  case (stepped r opr ids r')
  then show ?case using outs_ok_step reachable_ok by blast
next
  case (reordered r ns)
  then have "set ns = set (wr_nodes r)" by (metis set_mset_mset)
  with reordered show ?case
    by (simp add: outs_ok_def outputs_logged_def find_latest_node_event_def)
qed

section \<open>Some node is ready\<close>

lemma acyclic_minimal:
  assumes "finite R" "acyclic R" "x \<in> Q"
  shows "\<exists>z \<in> Q. \<forall>y. (y, z) \<in> R \<longrightarrow> y \<notin> Q"
  using wf_eq_minimal [THEN iffD1, OF finite_acyclic_wf [OF assms(1,2)]] assms(3) by blast

lemma edge_outputs:
  assumes "version_ok v" "e \<in> set (wv_edges v)" "version_node v (ed_source e) = Inr d"
  shows "set (ed_output_fields e) \<subseteq> set (nd_output_fields d)"
proof -
  have v: "mk_version (wv_workflow_code v) (wv_version v) (wv_nodes v) (wv_edges v) (wv_enabled v) = Inr v"
    using assms(1) by (simp add: version_ok_def)
  have "check_edge (wv_nodes v) e () = Inr ()" using version_okD(6) [OF v] assms(2) by blast
  with assms(3) show ?thesis
    by (auto simp: check_edge_def version_node_def errE_simps split: if_splits)
qed

lemma some_node_ready:
  assumes "wf_reachable True v r" "version_ok v"
    "wn_status ` set (wr_nodes r) \<subseteq> {WN_QUEUED, WN_SUCCEEDED}" "WN_QUEUED \<in> wn_status ` set (wr_nodes r)"
  shows "\<exists>n \<in> set (wr_nodes r). is_ready v r n"
proof -
  note ok = reachable_ok [OF assms(1,2)] and outs = reachable_outs [OF assms(1,2)]
  note ids = run_node_ids [OF ok assms(2)]
  let ?Q = "{wn_node_id n | n. n \<in> set (wr_nodes r) \<and> wn_status n = WN_QUEUED}"
  have v: "mk_version (wv_workflow_code v) (wv_version v) (wv_nodes v) (wv_edges v) (wv_enabled v) = Inr v"
    using assms(2) by (simp add: version_ok_def)
  have fin: "finite (edge_rel (wv_edges v))" by (simp add: edge_rel_def)
  obtain n0 where "n0 \<in> set (wr_nodes r)" "wn_status n0 = WN_QUEUED" using assms(4) by auto
  then have "wn_node_id n0 \<in> ?Q" by blast
  from acyclic_minimal [OF fin version_okD(7) [OF v] this]
  obtain z where z: "z \<in> ?Q" "\<And>y. (y, z) \<in> edge_rel (wv_edges v) \<Longrightarrow> y \<notin> ?Q" by blast
  then obtain n where n: "n \<in> set (wr_nodes r)" "wn_status n = WN_QUEUED" "wn_node_id n = z" by auto
  have "succeeded r (ed_source e) \<and> set (ed_output_fields e) \<subseteq> dict_keys (output_references (ed_source e) r)"
    if e: "e \<in> set (wv_edges v)" "ed_target e = z" for e
  proof -
    have rel: "(ed_source e, z) \<in> edge_rel (wv_edges v)" using e by (force simp: edge_rel_def)
    then have "ed_source e \<in> wn_node_id ` set (wr_nodes r)" using version_okD(5) [OF v] ids(2) by auto
    then obtain m where m: "m \<in> set (wr_nodes r)" "wn_node_id m = ed_source e" by auto
    have "ed_source e \<notin> ?Q" by (rule z(2) [OF rel])
    with m have "wn_status m \<noteq> WN_QUEUED" by auto
    with assms(3) m(1) have s: "wn_status m = WN_SUCCEEDED" by blast
    with outs m have "outputs_logged v r m" by (simp add: outs_ok_def)
    then obtain ev refs d where "find_latest_node_event (ed_source e) NODE_SUCCEEDED r = Some ev"
      "map_of (we_metadata ev) ''output_references'' = Some (JObj refs)"
      "version_node v (ed_source e) = Inr d" "dict_keys refs = set (nd_output_fields d)"
      by (auto simp: outputs_logged_def m(2))
    then have "set (ed_output_fields e) \<subseteq> dict_keys (output_references (ed_source e) r)"
      using edge_outputs [OF assms(2) e(1)] by (simp add: output_references_def)
    with m s show ?thesis by (auto simp: succeeded_def)
  qed
  with n show ?thesis by (auto simp: is_ready_def)
qed

section \<open>A ready node can be started\<close>

lemma py_strip_nonempty: "c \<in> set s \<Longrightarrow> \<not> py_space c \<Longrightarrow> py_strip s \<noteq> []"
proof
  assume c: "c \<in> set s" "\<not> py_space c" and e: "py_strip s = []"
  from e have all: "\<forall>x \<in> set (dropWhile py_space s). py_space x" by (simp add: py_strip_def)
  have "dropWhile py_space s \<noteq> []" using c by auto
  with all hd_dropWhile [of py_space s] show False by (metis hd_in_set)
qed

lemma colon_nonempty: "py_strip (c @ CHR '':'' # s) \<noteq> []"
  by (rule py_strip_nonempty [of "CHR '':''"]) (simp_all add: py_space_def)

lemma log_event_total:
  assumes "py_strip c \<noteq> []" "check_event_metadata ty md = Inr md"
  shows "\<exists>r' ev. log_event ids c ty (Aware t) md r = (r', Inr ev)"
proof -
  have "\<exists>ev. mk_wf_event (wr_id r) (int (length (wr_events r) + 1)) c ty md (Aware t) (ids (length (wr_events r) + 1)) = Inr ev"
    using assms by (simp add: mk_wf_event_returns)
  then show ?thesis by (auto simp: log_event_def Let_def split: option.split)
qed

lemma log_existing_total:
  assumes "mk_wf_event rid k (we_transition_id ev) (we_event_type ev) (we_metadata ev) now eid = Inr ev0"
  shows "\<exists>r'. log_existing ids ev r = (r', Inr ())"
proof -
  have "\<exists>ev1. mk_wf_event (wr_id r) (int (length (wr_events r) + 1)) (we_transition_id ev) (we_event_type ev)
      (we_metadata ev) (Aware (we_created_at ev)) (ids (length (wr_events r) + 1)) = Inr ev1"
    using assms by (auto simp: mk_wf_event_returns)
  then show ?thesis by (auto simp: log_existing_def Let_def)
qed

lemma started_metadata:
  assumes "is_identifier nid" "0 < k"
  shows "check_event_metadata NODE_STARTED [(''node_id'', JStr nid), (''attempt_number'', JInt k)]
    = Inr [(''node_id'', JStr nid), (''attempt_number'', JInt k)]"
  using assms by (simp add: check_event_metadata_def wf_json_object_def check_present_def str_valueE_def
      positive_int_value_def wf_identifier_id)

lemma node_start_total:
  assumes "is_identifier (wn_node_id n)" "wn_status n = WN_QUEUED" "node_ok n" "py_strip c \<noteq> []"
  shows "\<exists>n' ev. node_start (Aware t) c (Some rid) eid n = (n', Inr ev)
    \<and> (\<exists>k eid0 ev0. mk_wf_event rid k (we_transition_id ev) (we_event_type ev) (we_metadata ev) (Aware t) eid0 = Inr ev0)"
proof -
  let ?md = "[(''node_id'', JStr (wn_node_id n)), (''attempt_number'', JInt (wn_attempt_count n + 1))]"
  have ok: "check_event_metadata NODE_STARTED ?md = Inr ?md"
    using assms(1,3) by (intro started_metadata) (auto simp: node_ok_def)
  then have "\<exists>ev. mk_wf_event rid 1 c NODE_STARTED ?md (Aware t) eid = Inr ev"
    using assms(4) by (simp add: mk_wf_event_returns)
  then obtain ev where ev: "mk_wf_event rid 1 c NODE_STARTED ?md (Aware t) eid = Inr ev" by blast
  then have f: "we_transition_id ev = c" "we_event_type ev = NODE_STARTED" "we_metadata ev = ?md"
    by (auto simp: mk_wf_event_returns)
  have "\<not> wn_max_attempts n \<le> wn_attempt_count n" using assms(2,3) by (simp add: node_ok_def)
  with assms(2,4) ev have "\<exists>n'. node_start (Aware t) c (Some rid) eid n = (n', Inr ev)"
    by (simp add: node_start_def node_event_def)
  with ev f show ?thesis by metis
qed

lemma start_node_total:
  assumes "run_ok v r" "version_ok v" "n \<in> set (wr_nodes r)" "is_ready v r n" "wr_status r \<notin> run_closed"
  shows "\<exists>r' ev. start_node v (wn_node_id n) (Aware t) c ids r = (r', Inr ev)"
proof -
  note ids = run_node_ids [OF assms(1,2)]
  obtain i where i: "i < length (wr_nodes r)" "wr_nodes r ! i = n" using assms(3) by (auto simp: in_set_conv_nth)
  have idx: "node_index (wn_node_id n) r = Inr i" using node_index_unique [OF ids(1) i(1)] i(2) by simp
  obtain d where d: "d \<in> set (wv_nodes v)" "nd_node_id d = wn_node_id n"
    using ids(2) assms(3) by (metis imageE imageI)
  have nid: "is_identifier (wn_node_id n)" using version_ok_nodes(1) [OF assms(2) d(1)] d(2) by simp
  have n: "wn_status n = WN_QUEUED" "node_ok n" using assms(1,3,4) by (simp_all add: is_ready_def run_ok_def)
  obtain n' ev k eid0 ev0 where st: "node_start (Aware t) (c @ '':start'') (Some (wr_id r)) (ids 0) n = (n', Inr ev)"
    and mk: "mk_wf_event (wr_id r) k (we_transition_id ev) (we_event_type ev) (we_metadata ev) (Aware t) eid0 = Inr ev0"
    using node_start_total [OF nid n, of "c @ '':start''" t "wr_id r" "ids 0"] colon_nonempty by auto
  let ?r1 = "r\<lparr>wr_nodes := (wr_nodes r)[i := n']\<rparr>"
  have "\<exists>r2. whenA (\<lambda>r. wr_status r = WR_QUEUED)
       (thenA (modifyA (\<lambda>r. r\<lparr>wr_status := WR_RUNNING\<rparr>))
       (thenA (log_event ids (c @ '':run-start'') RUN_STARTED (Aware t) []) (returnA ()))) ?r1 = (r2, Inr ())"
  proof -
    have "check_event_metadata RUN_STARTED [] = Inr []"
      by (simp add: check_event_metadata_def wf_json_object_def check_present_def)
    then obtain r2 ev2 where "log_event ids (c @ '':run-start'') RUN_STARTED (Aware t) []
        (?r1\<lparr>wr_status := WR_RUNNING\<rparr>) = (r2, Inr ev2)"
      using log_event_total [of "c @ '':run-start''" RUN_STARTED "[]" ids t] colon_nonempty by fastforce
    then show ?thesis by (auto simp: errE_simps)
  qed
  then obtain r2 where r2: "whenA (\<lambda>r. wr_status r = WR_QUEUED)
       (thenA (modifyA (\<lambda>r. r\<lparr>wr_status := WR_RUNNING\<rparr>))
       (thenA (log_event ids (c @ '':run-start'') RUN_STARTED (Aware t) []) (returnA ()))) ?r1 = (r2, Inr ())" ..
  obtain r3 where r3: "log_existing ids ev r2 = (r3, Inr ())" using log_existing_total [OF mk] by blast
  have "wn_node_id n \<in> set (map wn_node_id (filter (is_ready v r) (wr_nodes r)))" using assms(3,4) by auto
  then have "start_node v (wn_node_id n) (Aware t) c ids r = (r3\<lparr>wr_updated_at := Some t\<rparr>, Inr ev)"
    unfolding start_node_def bindA_Inr_iff
    using assms(5) ready_nodes_eq [OF assms(1,2)] idx st r2 r3 i(2)
    by (auto simp: errE_simps set_updated_def)
  then show ?thesis by blast
qed

end
