(* ===== verification/Workflow_Theorems.thy ===== *)
theory Workflow_Theorems
  imports Workflow_Dependencies
begin

text \<open>
  The properties of workflow definitions and runs, with concrete versions and runs as witnesses.
\<close>

section \<open>Sample versions and runs\<close>

definition sample_node :: "string \<Rightarrow> int \<Rightarrow> string list \<Rightarrow> string list \<Rightarrow> wf_node_def" where
  "sample_node nid n ins outs =
     \<lparr>nd_node_id = nid, nd_node_type = CAPABILITY, nd_capability_code = ''cap'', nd_max_attempts = n,
      nd_input_fields = ins, nd_output_fields = outs\<rparr>"

definition sample_edge :: "string \<Rightarrow> string \<Rightarrow> string list \<Rightarrow> wf_edge_def" where
  "sample_edge src tgt outs = \<lparr>ed_source = src, ed_target = tgt, ed_output_fields = outs\<rparr>"

definition sample_chain :: wf_version where
  \<comment> \<open>\<open>a\<close> hands its output to \<open>b\<close>\<close>
  "sample_chain =
     \<lparr>wv_workflow_code = ''wf'', wv_version = ''v1'',
      wv_nodes = [sample_node ''a'' 2 [''q''] [''x''], sample_node ''b'' 1 [''x''] []],
      wv_edges = [sample_edge ''a'' ''b'' [''x'']], wv_enabled = True\<rparr>"

definition sample_fan :: wf_version where
  \<comment> \<open>three independent nodes\<close>
  "sample_fan =
     \<lparr>wv_workflow_code = ''fan'', wv_version = ''v1'',
      wv_nodes = [sample_node ''a'' 1 [] [], sample_node ''b'' 1 [] [], sample_node ''c'' 1 [] []],
      wv_edges = [], wv_enabled = True\<rparr>"

definition run_of :: "wf_version \<Rightarrow> wf_run" where
  "run_of v = projr (create_run v ''alice'' ''k1'' ''fp'' (Aware 0) 1 (\<lambda>i. of_nat i + 10) (\<lambda>i. of_nat i + 100))"

definition sample_ids :: event_ids where
  "sample_ids k = of_nat k + 100"

fun after :: "wf_version \<Rightarrow> wf_op list \<Rightarrow> wf_run \<Rightarrow> wf_run" where
  "after v [] r = r"
| "after v (opr # ops) r = after v ops (fst (wf_exec v opr sample_ids r))"

fun steps_return :: "wf_version \<Rightarrow> wf_op list \<Rightarrow> wf_run \<Rightarrow> bool" where
  \<comment> \<open>every operation returns and its command id is new\<close>
  "steps_return v [] r \<longleftrightarrow> True"
| "steps_return v (opr # ops) r \<longleftrightarrow>
     snd (wf_exec v opr sample_ids r) = Inr () \<and> wf_op_fresh opr r
     \<and> steps_return v ops (fst (wf_exec v opr sample_ids r))"

lemma after_reachable:
  "wf_reachable strict v r \<Longrightarrow> steps_return v ops r \<Longrightarrow> wf_reachable strict v (after v ops r)"
proof (induction ops arbitrary: r)
  case (Cons opr ops)
  let ?p = "wf_exec v opr sample_ids r"
  have "?p = (fst ?p, Inr ())" using Cons.prems(2) by (metis prod.collapse steps_return.simps(2))
  from wf_reachable.stepped [OF Cons.prems(1) this] Cons show ?case by simp
qed simp

lemma sample_versions_ok: "version_ok sample_chain" "version_ok sample_fan"
  by code_simp+

lemma run_of_reachable:
  "wf_reachable strict sample_chain (run_of sample_chain)" "wf_reachable strict sample_fan (run_of sample_fan)"
proof -
  have "isl (create_run v ''alice'' ''k1'' ''fp'' (Aware 0) 1 (\<lambda>i. of_nat i + 10) (\<lambda>i. of_nat i + 100)) = False"
    if "v = sample_chain \<or> v = sample_fan" for v
    using that by (elim disjE) (hypsubst, code_simp)+
  then show "wf_reachable strict sample_chain (run_of sample_chain)" "wf_reachable strict sample_fan (run_of sample_fan)"
    by (auto intro!: wf_reachable.created simp: run_of_def)
qed

definition chain_ops :: "wf_op list" where
  "chain_ops = [WO_start ''a'' (Aware 1) ''c1'',
     WO_succeed ''a'' ''ok'' None [(''x'', JStr ''ref1'')] (Aware 2) ''c1'']"

definition fan_ops :: "wf_op list" where
  "fan_ops = [WO_start ''a'' (Aware 1) ''c1'', WO_start ''b'' (Aware 2) ''c2'', WO_start ''c'' (Aware 3) ''c3'',
     WO_accept ''b'' ''job1'' (Aware 4) ''c2'', WO_fail ''c'' ''BROKEN'' False (Aware 5) ''c3'']"

definition chain_run :: wf_run where "chain_run = after sample_chain chain_ops (run_of sample_chain)"
definition fan_run :: wf_run where "fan_run = after sample_fan fan_ops (run_of sample_fan)"

lemma chain_run_reachable: "wf_reachable strict sample_chain chain_run"
proof -
  have "steps_return sample_chain chain_ops (run_of sample_chain)" by code_simp
  then show ?thesis unfolding chain_run_def by (rule after_reachable [OF run_of_reachable(1)])
qed

lemma fan_run_reachable: "wf_reachable strict sample_fan fan_run"
proof -
  have "steps_return sample_fan fan_ops (run_of sample_fan)" by code_simp
  then show ?thesis unfolding fan_run_def by (rule after_reachable [OF run_of_reachable(2)])
qed

section \<open>Definitions\<close>

text \<open>
  C19: the search for cycles is exact. On edges between known nodes the depth-first search always
  ends; it accepts exactly the acyclic definitions and refuses the others with a validation error.
\<close>

theorem cycle_search_is_exact:
  assumes "edge_rel edges \<subseteq> set ids \<times> set ids"
  shows "assert_acyclic ids edges =
    (if acyclic (edge_rel edges) then Inr () else Inl WorkflowValidationError)"
  using assms by (rule assert_acyclic_iff)

theorem cycle_search_is_exact_witness:
  "assert_acyclic [''a'', ''b''] [sample_edge ''a'' ''b'' [], sample_edge ''b'' ''a'' []] =
    (if acyclic (edge_rel [sample_edge ''a'' ''b'' [], sample_edge ''b'' ''a'' []])
     then Inr () else Inl WorkflowValidationError)"
  by (rule cycle_search_is_exact) (simp add: edge_rel_def sample_edge_def)

section \<open>Node runs\<close>

text \<open>
  C20: a finished node run is final. Whatever operation is tried on a run, and whether it returns or
  raises, a node that has succeeded, failed, been cancelled or been skipped is left exactly as it was.
\<close>

theorem finished_node_is_final:
  assumes "wf_exec v opr ids r = (r', x)" "i < length (wr_nodes r)"
    "wn_status (wr_nodes r ! i) \<in> {WN_SUCCEEDED, WN_FAILED, WN_CANCELLED, WN_SKIPPED}"
  shows "wr_nodes r' ! i = wr_nodes r ! i \<and> length (wr_nodes r') = length (wr_nodes r)"
proof -
  have l2: "list_all2 node_evolves (wr_nodes r) (wr_nodes r')"
    using leadsD [OF wf_exec_evolves assms(1)] by (simp add: run_evolves_def)
  then have "node_evolves (wr_nodes r ! i) (wr_nodes r' ! i)" using assms(2) by (simp add: list_all2_nthD)
  with assms(3) l2 show ?thesis by (auto simp: node_evolves_def settled_def list_all2_lengthD)
qed

theorem finished_node_is_final_witness:
  "wr_nodes (fst (wf_exec sample_fan (WO_succeed ''c'' ''ok'' None [] (Aware 9) ''c9'') sample_ids fan_run)) ! 2
     = wr_nodes fan_run ! 2
   \<and> length (wr_nodes (fst (wf_exec sample_fan (WO_succeed ''c'' ''ok'' None [] (Aware 9) ''c9'') sample_ids fan_run)))
     = length (wr_nodes fan_run)"
proof (rule finished_node_is_final [OF prod.collapse [symmetric]])
  show "2 < length (wr_nodes fan_run)" by code_simp
  have "wn_status (wr_nodes fan_run ! 2) = WN_FAILED" by code_simp
  then show "wn_status (wr_nodes fan_run ! 2) \<in> {WN_SUCCEEDED, WN_FAILED, WN_CANCELLED, WN_SKIPPED}" by simp
qed

definition within_budget :: "wf_node \<Rightarrow> bool" where
  "within_budget n \<longleftrightarrow> 0 \<le> wn_attempt_count n \<and> wn_attempt_count n \<le> wn_max_attempts n
     \<and> (wn_status n = WN_QUEUED \<longrightarrow> wn_attempt_count n < wn_max_attempts n)"

text \<open>
  C21: the log and the attempt budget are in bounds. In a reachable run the events are numbered from 1
  without a gap, no two have the same transition id, and no node has started more often than its
  definition allows; a queued node always has an attempt left.
\<close>

theorem log_and_attempts_in_bounds:
  assumes "wf_reachable strict v r" "version_ok v"
  shows "map we_sequence (wr_events r) = map int [1..<Suc (length (wr_events r))]
    \<and> distinct (map we_transition_id (wr_events r))
    \<and> list_all within_budget (wr_nodes r)"
  using reachable_ok [OF assms]
  by (auto simp: run_ok_def log_ok_def numbered_from_1_def node_ok_def within_budget_def list_all_iff)

theorem log_and_attempts_in_bounds_witness:
  "map we_sequence (wr_events fan_run) = map int [1..<Suc (length (wr_events fan_run))]
    \<and> distinct (map we_transition_id (wr_events fan_run))
    \<and> list_all within_budget (wr_nodes fan_run)"
  by (rule log_and_attempts_in_bounds [OF fan_run_reachable sample_versions_ok(2)])

section \<open>Order of execution\<close>

text \<open>
  C22: dependencies are respected. In a reachable run every node that was ever started has all the
  sources of its incoming edges succeeded.
\<close>

theorem dependencies_are_respected:
  assumes "wf_reachable strict v r" "version_ok v" "n \<in> set (wr_nodes r)" "0 < wn_attempt_count n"
    "e \<in> set (wv_edges v)" "ed_target e = wn_node_id n"
  shows "\<exists>m \<in> set (wr_nodes r). wn_node_id m = ed_source e \<and> wn_status m = WN_SUCCEEDED"
  using reachable_deps [OF assms(1,2)] assms(3-6) by (simp add: deps_ok_def succeeded_def)

definition chain_run2 :: wf_run where
  "chain_run2 = after sample_chain [WO_start ''b'' (Aware 3) ''c2''] chain_run"

theorem dependencies_are_respected_witness:
  "\<exists>m \<in> set (wr_nodes chain_run2). wn_node_id m = ''a'' \<and> wn_status m = WN_SUCCEEDED"
proof -
  have "steps_return sample_chain [WO_start ''b'' (Aware 3) ''c2''] chain_run" by code_simp
  then have r: "wf_reachable False sample_chain chain_run2"
    unfolding chain_run2_def by (rule after_reachable [OF chain_run_reachable])
  have n: "wr_nodes chain_run2 ! 1 \<in> set (wr_nodes chain_run2)"
  proof (rule nth_mem)
    show "1 < length (wr_nodes chain_run2)" by code_simp
  qed
  have a: "0 < wn_attempt_count (wr_nodes chain_run2 ! 1)" by code_simp
  have e: "sample_edge ''a'' ''b'' [''x''] \<in> set (wv_edges sample_chain)" by (simp add: sample_chain_def)
  have "wn_node_id (wr_nodes chain_run2 ! 1) = ''b''" by code_simp
  then have "ed_target (sample_edge ''a'' ''b'' [''x'']) = wn_node_id (wr_nodes chain_run2 ! 1)"
    by (simp add: sample_edge_def)
  from dependencies_are_respected [OF r sample_versions_ok(1) n a e this]
  show ?thesis by (simp add: sample_edge_def)
qed



section \<open>The status of a run\<close>

fun fits_status :: "wf_run_status \<Rightarrow> wf_node_status set \<Rightarrow> bool" where
  \<comment> \<open>the node statuses a run status may stand for\<close>
  "fits_status WR_SUCCEEDED S = (S \<subseteq> {WN_SUCCEEDED, WN_SKIPPED})"
| "fits_status WR_CANCELLED S = (S \<subseteq> {WN_CANCELLED, WN_SUCCEEDED, WN_SKIPPED})"
| "fits_status WR_CANCEL_REQUESTED S = (S \<inter> {WN_QUEUED, WN_RUNNING, WN_ACCEPTED} = {})"
| "fits_status WR_FAILED S = (WN_FAILED \<in> S)"
| "fits_status WR_QUEUED S = (S \<subseteq> {WN_QUEUED, WN_SKIPPED})"
| "fits_status _ S = True"

text \<open>
  C24: the run status summarises the nodes. A reachable run is succeeded exactly when every node is
  succeeded or skipped; a cancelled run has only cancelled, succeeded and skipped nodes, one whose
  cancellation was requested has no node left to start or run, a failed one has a failed node, and a
  queued one has not started any node.
\<close>

theorem run_status_summarises_nodes:
  assumes "wf_reachable strict v r" "version_ok v"
  shows "fits_status (wr_status r) (wn_status ` set (wr_nodes r))
    \<and> (wr_status r = WR_SUCCEEDED) = fits_status WR_SUCCEEDED (wn_status ` set (wr_nodes r))"
proof -
  have "summary_ok (wr_status r, map wn_status (wr_nodes r))"
    using reachable_ok [OF assms] by (simp add: run_ok_def summary_def)
  then show ?thesis unfolding summary_ok_def all_settled_def by (cases "wr_status r") auto
qed

theorem run_status_summarises_nodes_witness:
  "fits_status (wr_status fan_run) (wn_status ` set (wr_nodes fan_run))
    \<and> (wr_status fan_run = WR_SUCCEEDED) = fits_status WR_SUCCEEDED (wn_status ` set (wr_nodes fan_run))"
  by (rule run_status_summarises_nodes [OF fan_run_reachable sample_versions_ok(2)])

text \<open>
  C25: success and cancellation of a run are final. No operation that returns changes the status of a
  reachable run that has succeeded or been cancelled.
\<close>

theorem finished_run_is_final:
  assumes "wf_reachable strict v r" "version_ok v" "wr_status r \<in> {WR_SUCCEEDED, WR_CANCELLED}"
    "wf_exec v opr ids r = (r', Inr ())"
  shows "wr_status r' = wr_status r"
  using summary_step_final [of "wr_status r" "map wn_status (wr_nodes r)"]
    wf_exec_summary_step [OF assms(4)] reachable_ok [OF assms(1,2)] assms(3)
  by (simp add: run_ok_def summary_def)

definition cancelled_chain :: wf_run where
  "cancelled_chain = after sample_chain [WO_cancel (Aware 5) ''c5''] (run_of sample_chain)"

theorem finished_run_is_final_witness:
  "wr_status (fst (wf_exec sample_chain (WO_confirm ''a'' (Aware 6) ''c6'') sample_ids cancelled_chain)) = WR_CANCELLED"
proof -
  let ?p = "wf_exec sample_chain (WO_confirm ''a'' (Aware 6) ''c6'') sample_ids cancelled_chain"
  have "steps_return sample_chain [WO_cancel (Aware 5) ''c5''] (run_of sample_chain)" by code_simp
  then have r: "wf_reachable False sample_chain cancelled_chain"
    unfolding cancelled_chain_def by (rule after_reachable [OF run_of_reachable(1)])
  have st: "wr_status cancelled_chain = WR_CANCELLED" by code_simp
  have "snd ?p = Inr ()" by code_simp
  then have p: "?p = (fst ?p, Inr ())" by (metis prod.collapse)
  from finished_run_is_final [OF r sample_versions_ok(1) _ p] st show ?thesis by simp
qed




end
