(* ===== verification/Workflow_Records.thy ===== *)
theory Workflow_Records
  imports Workflow_Invariants Tables
begin

text \<open>
  The PostgreSQL rows of a workflow run (\<open>app/infrastructure/persistence/models/workflow.py\<close>) and the
  mapper between rows and the aggregate (\<open>app/infrastructure/persistence/workflow_mapper.py\<close>). A row is
  a record with one field per column; enumerations are stored as text, and a JSON object as its items.

  The lemmas show that the mapper is lossless on runs whose parts are well formed, and that every
  operation of a run keeps them well formed.
\<close>

section \<open>Enumerations as text\<close>

fun run_status_value :: "wf_run_status \<Rightarrow> string" where
  "run_status_value WR_QUEUED = ''queued''"
| "run_status_value WR_RUNNING = ''running''"
| "run_status_value WR_ACCEPTED = ''accepted''"
| "run_status_value WR_SUCCEEDED = ''succeeded''"
| "run_status_value WR_FAILED = ''failed''"
| "run_status_value WR_CANCEL_REQUESTED = ''cancel_requested''"
| "run_status_value WR_CANCELLED = ''cancelled''"

fun node_status_value :: "wf_node_status \<Rightarrow> string" where
  "node_status_value WN_QUEUED = ''queued''"
| "node_status_value WN_RUNNING = ''running''"
| "node_status_value WN_ACCEPTED = ''accepted''"
| "node_status_value WN_SUCCEEDED = ''succeeded''"
| "node_status_value WN_FAILED = ''failed''"
| "node_status_value WN_CANCEL_REQUESTED = ''cancel_requested''"
| "node_status_value WN_CANCELLED = ''cancelled''"
| "node_status_value WN_SKIPPED = ''skipped''"

fun node_type_value :: "wf_node_type \<Rightarrow> string" where
  "node_type_value CAPABILITY = ''capability''"

fun wf_event_type_value :: "wf_event_type \<Rightarrow> string" where
  "wf_event_type_value RUN_CREATED = ''RUN_CREATED''"
| "wf_event_type_value RUN_STARTED = ''RUN_STARTED''"
| "wf_event_type_value RUN_ACCEPTED = ''RUN_ACCEPTED''"
| "wf_event_type_value RUN_SUCCEEDED = ''RUN_SUCCEEDED''"
| "wf_event_type_value RUN_FAILED = ''RUN_FAILED''"
| "wf_event_type_value RUN_CANCEL_REQUESTED = ''RUN_CANCEL_REQUESTED''"
| "wf_event_type_value RUN_CANCELLED = ''RUN_CANCELLED''"
| "wf_event_type_value NODE_STARTED = ''NODE_STARTED''"
| "wf_event_type_value NODE_ACCEPTED = ''NODE_ACCEPTED''"
| "wf_event_type_value NODE_SUCCEEDED = ''NODE_SUCCEEDED''"
| "wf_event_type_value NODE_INPUT_REJECTED = ''NODE_INPUT_REJECTED''"
| "wf_event_type_value NODE_FAILED = ''NODE_FAILED''"
| "wf_event_type_value NODE_RETRY_SCHEDULED = ''NODE_RETRY_SCHEDULED''"
| "wf_event_type_value NODE_SKIPPED = ''NODE_SKIPPED''"
| "wf_event_type_value NODE_CANCEL_REQUESTED = ''NODE_CANCEL_REQUESTED''"
| "wf_event_type_value NODE_CANCELLED = ''NODE_CANCELLED''"

definition run_status_of :: "string \<Rightarrow> wf_error + wf_run_status" where
  "run_status_of s = (case find (\<lambda>x. run_status_value x = s)
     [WR_QUEUED, WR_RUNNING, WR_ACCEPTED, WR_SUCCEEDED, WR_FAILED, WR_CANCEL_REQUESTED, WR_CANCELLED]
     of Some x \<Rightarrow> Inr x | None \<Rightarrow> Inl WfValueError)"

definition node_status_of :: "string \<Rightarrow> wf_error + wf_node_status" where
  "node_status_of s = (case find (\<lambda>x. node_status_value x = s)
     [WN_QUEUED, WN_RUNNING, WN_ACCEPTED, WN_SUCCEEDED, WN_FAILED, WN_CANCEL_REQUESTED, WN_CANCELLED,
      WN_SKIPPED] of Some x \<Rightarrow> Inr x | None \<Rightarrow> Inl WfValueError)"

definition wf_event_type_of :: "string \<Rightarrow> wf_error + wf_event_type" where
  "wf_event_type_of s = (case find (\<lambda>x. wf_event_type_value x = s)
     [RUN_CREATED, RUN_STARTED, RUN_ACCEPTED, RUN_SUCCEEDED, RUN_FAILED, RUN_CANCEL_REQUESTED,
      RUN_CANCELLED, NODE_STARTED, NODE_ACCEPTED, NODE_SUCCEEDED, NODE_INPUT_REJECTED, NODE_FAILED,
      NODE_RETRY_SCHEDULED, NODE_SKIPPED, NODE_CANCEL_REQUESTED, NODE_CANCELLED]
     of Some x \<Rightarrow> Inr x | None \<Rightarrow> Inl WfValueError)"

definition node_type_of :: "string \<Rightarrow> wf_error + wf_node_type" where
  "node_type_of s = (if s = ''capability'' then Inr CAPABILITY else Inl WfValueError)"

lemma wf_enum_roundtrip [simp]:
  "run_status_of (run_status_value s) = Inr s" "node_status_of (node_status_value n) = Inr n"
  "wf_event_type_of (wf_event_type_value e) = Inr e"
proof -
  show "run_status_of (run_status_value s) = Inr s" by (cases s) (simp_all add: run_status_of_def)
  show "node_status_of (node_status_value n) = Inr n" by (cases n) (simp_all add: node_status_of_def)
  show "wf_event_type_of (wf_event_type_value e) = Inr e"
    by (cases e) (simp_all add: wf_event_type_of_def)
qed

section \<open>Rows\<close>

record run_record =
  rn_id :: uuid
  rn_workflow_code :: string
  rn_workflow_version :: string
  rn_owner_subject :: string
  rn_idempotency_key :: string
  rn_input_fingerprint :: string
  rn_status :: string
  rn_result_summary :: "string option"
  rn_failure_code :: "string option"
  rn_cancel_requested_at :: "int option"
  rn_created_at :: "int option" \<comment> \<open>\<open>None\<close> is SQL \<open>NULL\<close>, which the constraints refuse\<close>
  rn_updated_at :: "int option"

record node_record =
  no_id :: uuid
  no_run_id :: uuid
  no_node_id :: string
  no_node_type :: string
  no_capability_code :: string
  no_max_attempts :: int
  no_status :: string
  no_attempt_count :: int
  no_execution_reference :: "string option"
  no_result_summary :: "string option"
  no_output_fingerprint :: "string option"
  no_failure_code :: "string option"
  no_created_at :: "int option"
  no_updated_at :: "int option"

record wf_event_record =
  ev_id :: uuid
  ev_run_id :: uuid
  ev_sequence :: int
  ev_transition_id :: string
  ev_event_type :: string
  ev_metadata :: json_dict
  ev_created_at :: int

record wf_receipt_record =
  wc_id :: uuid
  wc_run_id :: uuid
  wc_command_type :: string
  wc_command_id :: string
  wc_created_at :: int

section \<open>The mapper\<close>

definition run_to_record :: "wf_run \<Rightarrow> run_record" where
  "run_to_record r =
     \<lparr>rn_id = wr_id r, rn_workflow_code = wr_workflow_code r,
      rn_workflow_version = wr_workflow_version r, rn_owner_subject = wr_owner_subject r,
      rn_idempotency_key = wr_idempotency_key r, rn_input_fingerprint = wr_input_fingerprint r,
      rn_status = run_status_value (wr_status r), rn_result_summary = wr_result_summary r,
      rn_failure_code = wr_failure_code r, rn_cancel_requested_at = wr_cancel_requested_at r,
      rn_created_at = wr_created_at r, rn_updated_at = wr_updated_at r\<rparr>"

definition update_run_record :: "run_record \<Rightarrow> wf_run \<Rightarrow> run_record" where
  "update_run_record rec r =
     rec\<lparr>rn_status := run_status_value (wr_status r), rn_result_summary := wr_result_summary r,
         rn_failure_code := wr_failure_code r, rn_cancel_requested_at := wr_cancel_requested_at r,
         rn_updated_at := wr_updated_at r\<rparr>"

definition node_to_record :: "uuid \<Rightarrow> wf_node \<Rightarrow> node_record" where
  "node_to_record rid n =
     \<lparr>no_id = wn_id n, no_run_id = rid, no_node_id = wn_node_id n, no_node_type = node_type_value (wn_node_type n),
      no_capability_code = wn_capability_code n, no_max_attempts = wn_max_attempts n,
      no_status = node_status_value (wn_status n), no_attempt_count = wn_attempt_count n,
      no_execution_reference = wn_execution_reference n, no_result_summary = wn_result_summary n,
      no_output_fingerprint = wn_output_fingerprint n, no_failure_code = wn_failure_code n,
      no_created_at = wn_created_at n, no_updated_at = wn_updated_at n\<rparr>"

definition update_node_record :: "node_record \<Rightarrow> wf_node \<Rightarrow> node_record" where
  "update_node_record rec n =
     rec\<lparr>no_status := node_status_value (wn_status n), no_attempt_count := wn_attempt_count n,
         no_execution_reference := wn_execution_reference n, no_result_summary := wn_result_summary n,
         no_output_fingerprint := wn_output_fingerprint n, no_failure_code := wn_failure_code n,
         no_updated_at := wn_updated_at n\<rparr>"

definition wf_event_to_record :: "wf_event \<Rightarrow> wf_event_record" where
  "wf_event_to_record ev =
     \<lparr>ev_id = we_id ev, ev_run_id = we_run_id ev, ev_sequence = we_sequence ev,
      ev_transition_id = we_transition_id ev, ev_event_type = wf_event_type_value (we_event_type ev),
      ev_metadata = we_metadata ev, ev_created_at = we_created_at ev\<rparr>"

definition node_from_record :: "node_record \<Rightarrow> wf_error + wf_node" where
  "node_from_record rec =
     bindE (node_type_of (no_node_type rec)) (\<lambda>ty.
     bindE (node_status_of (no_status rec)) (\<lambda>st.
       mk_node (no_node_id rec) ty (no_capability_code rec) (no_max_attempts rec) st
         (no_attempt_count rec) (no_execution_reference rec) (no_result_summary rec)
         (no_output_fingerprint rec) (no_failure_code rec) (no_created_at rec) (no_updated_at rec)
         (no_id rec)))"

definition wf_event_from_record :: "wf_event_record \<Rightarrow> wf_error + wf_event" where
  "wf_event_from_record rec =
     bindE (wf_event_type_of (ev_event_type rec)) (\<lambda>ty.
       mk_wf_event (ev_run_id rec) (ev_sequence rec) (ev_transition_id rec) ty (ev_metadata rec)
         (Aware (ev_created_at rec)) (ev_id rec))"

definition run_from_records ::
  "run_record \<Rightarrow> node_record list \<Rightarrow> wf_event_record list \<Rightarrow> wf_error + wf_run" where
  "run_from_records rec nodes events =
     bindE (run_status_of (rn_status rec)) (\<lambda>st.
     bindE (mapE node_from_record nodes) (\<lambda>ns.
     bindE (mapE wf_event_from_record events) (\<lambda>es.
       Inr \<lparr>wr_workflow_code = rn_workflow_code rec, wr_workflow_version = rn_workflow_version rec,
            wr_owner_subject = rn_owner_subject rec, wr_idempotency_key = rn_idempotency_key rec,
            wr_input_fingerprint = rn_input_fingerprint rec, wr_nodes = ns, wr_status = st,
            wr_result_summary = rn_result_summary rec, wr_failure_code = rn_failure_code rec,
            wr_cancel_requested_at = rn_cancel_requested_at rec, wr_created_at = rn_created_at rec,
            wr_updated_at = rn_updated_at rec, wr_events = es, wr_id = rn_id rec\<rparr>)))"

section \<open>Runs that can be stored\<close>

definition run_storable :: "wf_run \<Rightarrow> bool" where
  "run_storable r \<longleftrightarrow>
     is_identifier (wr_workflow_code r) \<and> is_identifier (wr_workflow_version r)
     \<and> trimmed (wr_owner_subject r) \<and> trimmed (wr_idempotency_key r) \<and> trimmed (wr_input_fingerprint r)
     \<and> wr_created_at r \<noteq> None \<and> wr_updated_at r \<noteq> None
     \<and> (\<forall>n \<in> set (wr_nodes r). node_wf n \<and> node_ok n)
     \<and> distinct (map wn_node_id (wr_nodes r)) \<and> distinct (map wn_id (wr_nodes r))
     \<and> log_ok r"

lemma is_safe_reference_trimmed: "is_safe_reference s \<Longrightarrow> trimmed s"
proof -
  assume s: "is_safe_reference s"
  have ns: "is_alnum c \<or> c \<in> set ''._:-'' \<Longrightarrow> \<not> py_space c" for c
    by (auto simp: is_alnum_def is_upper_def is_lower_def is_digit_def py_space_def)
  from s obtain c cs where c: "s = c # cs" "is_alnum c" "list_all (\<lambda>c. is_alnum c \<or> c \<in> set ''._:-'') cs"
    unfolding is_safe_reference_def by (cases s) auto
  then have "list_all (\<lambda>c. \<not> py_space c) s" using ns by (auto simp: list_all_iff)
  then show "trimmed s" unfolding trimmed_def using c(1) by (auto simp: list_all_iff)
qed

lemma wf_opaque_reference_id: "is_safe_reference s \<Longrightarrow> wf_opaque_reference s = Inr s"
  using is_safe_reference_trimmed [of s]
  by (simp add: wf_opaque_reference_def wf_text_def py_strip_trimmed trimmed_nonempty)

lemma mk_node_self:
  assumes "node_wf n" "node_ok n"
  shows "mk_node (wn_node_id n) (wn_node_type n) (wn_capability_code n) (wn_max_attempts n) (wn_status n)
    (wn_attempt_count n) (wn_execution_reference n) (wn_result_summary n) (wn_output_fingerprint n)
    (wn_failure_code n) (wn_created_at n) (wn_updated_at n) (wn_id n) = Inr n"
proof -
  have "optE wf_opaque_reference (wn_execution_reference n) = Inr (wn_execution_reference n)"
    using assms(1) by (cases "wn_execution_reference n") (simp_all add: node_wf_def wf_opaque_reference_id)
  moreover have "wf_fingerprint (wn_output_fingerprint n) = Inr (wn_output_fingerprint n)"
    using assms(1) is_safe_reference_trimmed
    by (cases "wn_output_fingerprint n")
      (simp_all add: node_wf_def wf_fingerprint_def wf_text_def py_strip_trimmed trimmed_nonempty)
  moreover have "\<not> (case wn_failure_code n of None \<Rightarrow> False | Some c \<Rightarrow> \<not> is_safe_error c)"
    using assms(1) by (auto simp: node_wf_def split: option.split)
  ultimately show ?thesis
    using assms by (cases n; cases "wn_node_type n")
      (simp add: mk_node_def node_wf_def node_ok_def wf_identifier_id)
qed

lemma node_roundtrip: "node_wf n \<Longrightarrow> node_ok n \<Longrightarrow> node_from_record (node_to_record rid n) = Inr n"
  using mk_node_self [of n]
  by (cases "wn_node_type n") (simp add: node_from_record_def node_to_record_def node_type_of_def)

lemma wf_event_roundtrip:
  assumes "log_ok r" "ev \<in> set (wr_events r)"
  shows "wf_event_from_record (wf_event_to_record ev) = Inr ev"
proof -
  from assms(2) obtain i where i: "i < length (wr_events r)" "wr_events r ! i = ev"
    by (auto simp: in_set_conv_nth)
  with assms(1) numbered_from_1_nth [of "map we_sequence (wr_events r)" i]
  have "we_sequence ev = int i + 1" by (simp add: log_ok_def)
  moreover have "py_strip (we_transition_id ev) \<noteq> []"
    "check_event_metadata (we_event_type ev) (we_metadata ev) = Inr (we_metadata ev)"
    using assms by (auto simp: log_ok_def)
  ultimately show ?thesis
    by (simp add: wf_event_from_record_def wf_event_to_record_def mk_wf_event_returns)
qed

lemma run_roundtrip:
  assumes "run_storable r"
  shows "run_from_records (run_to_record r) (map (node_to_record (wr_id r)) (wr_nodes r))
     (map wf_event_to_record (wr_events r)) = Inr r"
proof -
  have "mapE node_from_record (map (node_to_record (wr_id r)) (wr_nodes r)) = Inr (wr_nodes r)"
    using assms by (auto intro!: mapE_map_id node_roundtrip simp: run_storable_def)
  moreover have "mapE wf_event_from_record (map wf_event_to_record (wr_events r)) = Inr (wr_events r)"
    using assms wf_event_roundtrip by (auto intro!: mapE_map_id simp: run_storable_def)
  ultimately show ?thesis by (simp add: run_from_records_def) (simp add: run_to_record_def)
qed

section \<open>Reachable runs can be stored\<close>

lemma run_storable_reorder:
  "run_storable r \<Longrightarrow> mset ns = mset (wr_nodes r) \<Longrightarrow> run_storable (r\<lparr>wr_nodes := ns\<rparr>)"
proof -
  assume r: "run_storable r" and m: "mset ns = mset (wr_nodes r)"
  have "set ns = set (wr_nodes r)" using m by (metis set_mset_mset)
  with r show ?thesis
    by (simp add: run_storable_def log_ok_def distinct_map_mset [OF m, of wn_node_id]
        distinct_map_mset [OF m, of wn_id])
qed

lemma nodes_evolve_keys:
  "list_all2 node_evolves ns ns' \<Longrightarrow> map wn_node_id ns' = map wn_node_id ns \<and> map wn_id ns' = map wn_id ns"
  by (induction rule: list_all2_induct) (simp_all add: node_evolves_def)

lemma node_evolves_wf: "node_evolves n n' \<Longrightarrow> node_wf n \<and> node_ok n \<Longrightarrow> node_wf n' \<and> node_ok n'"
  unfolding node_evolves_def by blast

lemma nodes_evolve_wf:
  "list_all2 node_evolves ns ns' \<Longrightarrow> \<forall>n \<in> set ns. node_wf n \<and> node_ok n \<Longrightarrow>
   \<forall>n \<in> set ns'. node_wf n \<and> node_ok n"
  by (induction rule: list_all2_induct) (auto dest: node_evolves_wf)

lemma run_storable_evolves:
  assumes "run_evolves r r'" "run_storable r"
  shows "run_storable r'"
proof -
  have nodes: "list_all2 node_evolves (wr_nodes r) (wr_nodes r')" and log: "log_ok r \<longrightarrow> log_ok r'"
    using assms(1) unfolding run_evolves_def by blast+
  have same: "wr_workflow_code r' = wr_workflow_code r" "wr_workflow_version r' = wr_workflow_version r"
    "wr_owner_subject r' = wr_owner_subject r" "wr_idempotency_key r' = wr_idempotency_key r"
    "wr_input_fingerprint r' = wr_input_fingerprint r" "wr_created_at r' = wr_created_at r"
    "wr_updated_at r \<noteq> None \<longrightarrow> wr_updated_at r' \<noteq> None"
    using assms(1) unfolding run_evolves_def by blast+
  have "\<forall>n \<in> set (wr_nodes r). node_wf n \<and> node_ok n" "log_ok r"
    using assms(2) unfolding run_storable_def by blast+
  with nodes_evolve_wf [OF nodes] log have "\<forall>n \<in> set (wr_nodes r'). node_wf n \<and> node_ok n" "log_ok r'"
    by blast+
  with assms(2) same nodes_evolve_keys [OF nodes] show ?thesis
    unfolding run_storable_def by simp
qed

end
