(* ===== verification/Workflow_Growth.thy ===== *)
theory Workflow_Growth
  imports Workflow_Dependencies Workflow_Records
begin

text \<open>
  How much an operation of a run writes to the event log: at most one event per node and two more, with
  the UUIDs it was given for those positions; and an operation that returns with a fresh command id has
  either changed nothing or logged something. So a run that is stored with the same log has not changed.
\<close>

section \<open>Counting the events\<close>

named_theorems grows_intros \<open>rules that count the events an action logs\<close>

definition grows :: "event_ids \<Rightarrow> nat \<Rightarrow> 'a wf_run_action \<Rightarrow> bool" where
  \<comment> \<open>an action that returns logs at most \<open>k\<close> events\<close>
  "grows ids k m \<longleftrightarrow> (\<forall>r r' x. m r = (r', Inr x) \<longrightarrow>
     (\<exists>es. wr_events r' = wr_events r @ es \<and> length es \<le> k
        \<and> (\<forall>i < length es. we_id (es ! i) = ids (length (wr_events r) + i + 1))))"

lemma growsD:
  assumes "grows ids k m" "m r = (r', Inr x)"
  obtains es where "wr_events r' = wr_events r @ es" "length es \<le> k"
    "\<And>i. i < length es \<Longrightarrow> we_id (es ! i) = ids (length (wr_events r) + i + 1)"
  using assms unfolding grows_def by blast

lemma grows_mono: "grows ids k m \<Longrightarrow> k \<le> l \<Longrightarrow> grows ids l m"
  unfolding grows_def by (meson order_trans)

lemma grows_silent: "(\<And>r r' x. m r = (r', Inr x) \<Longrightarrow> wr_events r' = wr_events r) \<Longrightarrow> grows ids 0 m"
  unfolding grows_def by (metis append_Nil2 le_refl length_0_conv list.size(3) not_less0)

lemma grows_bindA [grows_intros]:
  assumes "grows ids k m" "\<And>x. grows ids l (f x)"
  shows "grows ids (k + l) (bindA m f)"
  unfolding grows_def
proof (intro allI impI)
  fix r r' y assume "bindA m f r = (r', Inr y)"
  then obtain r1 x where 1: "m r = (r1, Inr x)" "f x r1 = (r', Inr y)" by (auto simp: errE_simps)
  from growsD [OF assms(1) 1(1)] obtain es where es: "wr_events r1 = wr_events r @ es" "length es \<le> k"
    "\<And>i. i < length es \<Longrightarrow> we_id (es ! i) = ids (length (wr_events r) + i + 1)" by metis
  from growsD [OF assms(2) 1(2)] obtain fs where fs: "wr_events r' = wr_events r1 @ fs" "length fs \<le> l"
    "\<And>i. i < length fs \<Longrightarrow> we_id (fs ! i) = ids (length (wr_events r1) + i + 1)" by metis
  have "we_id ((es @ fs) ! i) = ids (length (wr_events r) + i + 1)" if "i < length (es @ fs)" for i
    using that es fs by (cases "i < length es") (auto simp: nth_append)
  with es(1,2) fs(1,2)
  show "\<exists>es. wr_events r' = wr_events r @ es \<and> length es \<le> k + l
      \<and> (\<forall>i < length es. we_id (es ! i) = ids (length (wr_events r) + i + 1))"
    by (intro exI [of _ "es @ fs"]) auto
qed

lemma grows_thenA [grows_intros]: "grows ids k m \<Longrightarrow> grows ids l f \<Longrightarrow> grows ids (k + l) (thenA m f)"
  by (simp add: thenA_def grows_bindA)

lemma grows_whenA [grows_intros]: "grows ids k m \<Longrightarrow> grows ids k (whenA P m)"
  unfolding grows_def
proof (intro allI impI)
  fix r r' x
  assume m: "\<forall>r r' x. m r = (r', Inr x) \<longrightarrow> (\<exists>es. wr_events r' = wr_events r @ es \<and> length es \<le> k
      \<and> (\<forall>i < length es. we_id (es ! i) = ids (length (wr_events r) + i + 1)))"
    and w: "whenA P m r = (r', Inr x)"
  show "\<exists>es. wr_events r' = wr_events r @ es \<and> length es \<le> k
      \<and> (\<forall>i < length es. we_id (es ! i) = ids (length (wr_events r) + i + 1))"
  proof (cases "P r")
    case True
    with m w show ?thesis by (simp add: whenA_Inr_iff)
  next
    case False
    with w have "r' = r" by (simp add: whenA_Inr_iff)
    then show ?thesis by (intro exI [of _ "[]"]) simp
  qed
qed

lemma grows_if [grows_intros]:
  "grows ids k m \<Longrightarrow> grows ids l f \<Longrightarrow> grows ids (max k l) (if b then m else f)"
  by (auto intro: grows_mono)

lemma grows_if_state [grows_intros]:
  "grows ids k m \<Longrightarrow> grows ids l f \<Longrightarrow> grows ids (max k l) (\<lambda>r. if b r then m r else f r)"
  unfolding grows_def by (metis max.coboundedI1 max.coboundedI2)

lemma grows_case_option [grows_intros]:
  assumes "grows ids k m" "\<And>x. grows ids l (f x)"
  shows "grows ids (max k l) (case z of None \<Rightarrow> m | Some x \<Rightarrow> f x)"
proof (cases z)
  case None
  with grows_mono [OF assms(1), of "max k l"] show ?thesis by simp
next
  case (Some x)
  with grows_mono [OF assms(2), of "max k l" x] show ?thesis by simp
qed

lemma grows_returnA [grows_intros]: "grows ids 0 (returnA y)"
  by (rule grows_silent) (simp add: returnA_Inr_iff)

lemma grows_forA: "(\<And>x. grows ids k (f x)) \<Longrightarrow> grows ids (k * length xs) (forA f xs)"
proof (induction xs)
  case Nil
  show ?case unfolding forA.simps list.size mult_0_right by (rule grows_returnA)
next
  case (Cons x xs)
  from grows_thenA [OF Cons.prems Cons.IH [OF Cons.prems], of x] show ?case by simp
qed

lemma grows_quiet [grows_intros]:
  "grows ids 0 (liftA m)" "grows ids 0 (readA f)"
  "grows ids 0 (set_updated now)" "grows ids 0 check_open" "grows ids 0 (on_node i n)"
  "grows ids 0 (modifyA (\<lambda>r. r\<lparr>wr_status := st\<rparr>))"
  "grows ids 0 (modifyA (\<lambda>r. r\<lparr>wr_status := st, wr_result_summary := s\<rparr>))"
  "grows ids 0 (modifyA (\<lambda>r. r\<lparr>wr_status := st, wr_failure_code := s\<rparr>))"
  "grows ids 0 (modifyA (\<lambda>r. r\<lparr>wr_cancel_requested_at := d\<rparr>))"
  by (auto intro!: grows_silent simp: errE_simps set_updated_def)

lemma grows_nothing [grows_intros]: "grows ids 0 (\<lambda>r. (r, Inr ()))"
  by (rule grows_silent) simp

lemma grows_one:
  assumes "\<And>r r' x. m r = (r', Inr x) \<Longrightarrow> r' = r
     \<or> (\<exists>ev. r' = r\<lparr>wr_events := wr_events r @ [ev]\<rparr> \<and> we_id ev = ids (length (wr_events r) + 1))"
  shows "grows ids 1 m"
  unfolding grows_def
proof (intro allI impI)
  fix r r' x assume "m r = (r', Inr x)"
  from assms [OF this] show "\<exists>es. wr_events r' = wr_events r @ es \<and> length es \<le> 1
      \<and> (\<forall>i < length es. we_id (es ! i) = ids (length (wr_events r) + i + 1))"
  proof (elim disjE exE conjE)
    assume "r' = r"
    then show ?thesis by (intro exI [of _ "[]"]) simp
  next
    fix ev assume "r' = r\<lparr>wr_events := wr_events r @ [ev]\<rparr>" "we_id ev = ids (length (wr_events r) + 1)"
    then show ?thesis by (intro exI [of _ "[ev]"]) simp
  qed
qed

lemma mk_wf_event_id: "mk_wf_event rid k c ty md now eid = Inr ev \<Longrightarrow> we_id ev = eid"
  unfolding mk_wf_event_returns by auto

lemma grows_log_event [grows_intros]: "grows ids 1 (log_event ids c ty now md)"
proof (rule grows_one)
  fix r r' x assume a: "log_event ids c ty now md r = (r', Inr x)"
  show "r' = r \<or> (\<exists>ev. r' = r\<lparr>wr_events := wr_events r @ [ev]\<rparr> \<and> we_id ev = ids (length (wr_events r) + 1))"
  proof (cases "find (\<lambda>ev. we_transition_id ev = c) (wr_events r)")
    case (Some e)
    from a [unfolded log_event_def Some option.case] show ?thesis by simp
  next
    case None
    from a [unfolded log_event_def None option.case Let_def bindA_Inr_iff liftA_Inr_iff bindE_Inr_iff]
    obtain ev t where "mk_wf_event (wr_id r) (int (length (wr_events r) + 1)) c ty md now
        (ids (length (wr_events r) + 1)) = Inr ev" "r' = r\<lparr>wr_events := wr_events r @ [ev]\<rparr>"
      by (elim exE conjE) simp
    with mk_wf_event_id show ?thesis by blast
  qed
qed

lemma grows_log_existing [grows_intros]: "grows ids 1 (log_existing ids e)"
proof (rule grows_one)
  fix r r' x assume a: "log_existing ids e r = (r', Inr x)"
  show "r' = r \<or> (\<exists>ev. r' = r\<lparr>wr_events := wr_events r @ [ev]\<rparr> \<and> we_id ev = ids (length (wr_events r) + 1))"
  proof (cases "list_ex (\<lambda>ev. we_transition_id ev = we_transition_id e) (wr_events r)")
    case True
    from a [unfolded log_existing_def if_P [OF True]] show ?thesis by simp
  next
    case False
    from a [unfolded log_existing_def if_not_P [OF False] Let_def bindA_Inr_iff liftA_Inr_iff]
    obtain ev where "mk_wf_event (wr_id r) (int (length (wr_events r) + 1)) (we_transition_id e) (we_event_type e)
        (we_metadata e) (Aware (we_created_at e)) (ids (length (wr_events r) + 1)) = Inr ev"
      "r' = r\<lparr>wr_events := wr_events r @ [ev]\<rparr>"
      by (elim exE conjE) simp
    with mk_wf_event_id show ?thesis by blast
  qed
qed

lemma grows_refresh_status [grows_intros]: "grows ids 1 (refresh_status now c ids)"
  unfolding refresh_status_def [abs_def] by (rule grows_mono, (rule grows_intros)+) simp

lemma grows_fail_run [grows_intros]: "grows ids 1 (fail_run i nid now c ids)"
  unfolding grows_def
proof (intro allI impI)
  fix r r' x assume a: "fail_run i nid now c ids r = (r', Inr x)"
  let ?code = "wn_failure_code (wr_nodes r ! i)"
  have "grows ids 1 (thenA (modifyA (\<lambda>r. r\<lparr>wr_status := WR_FAILED, wr_failure_code := ?code\<rparr>))
      (thenA (log_event ids (c @ '':run-failed'') RUN_FAILED now
                [(''node_id'', JStr nid),
                 (''error_code'', case ?code of None \<Rightarrow> JNull | Some c \<Rightarrow> JStr c)])
             (returnA ())))"
    by (rule grows_mono, (rule grows_intros)+) simp
  from growsD [OF this a [unfolded fail_run_def Let_def]]
  show "\<exists>es. wr_events r' = wr_events r @ es \<and> length es \<le> 1
      \<and> (\<forall>i < length es. we_id (es ! i) = ids (length (wr_events r) + i + 1))" by blast
qed

lemma grows_cancel_node: "grows ids 1 (cancel_node now c ids i)"
  unfolding cancel_node_def by (rule grows_mono, (rule grows_intros)+) simp

lemma request_run_cancel_grows:
  assumes "request_run_cancel now c ids r = (r', Inr u)"
  obtains es where "wr_events r' = wr_events r @ es" "length es \<le> length (wr_nodes r) + 2"
    "\<And>i. i < length es \<Longrightarrow> we_id (es ! i) = ids (length (wr_events r) + i + 1)"
proof (cases "wr_status r = WR_CANCEL_REQUESTED")
  case True
  with assms have "r' = r" by (simp add: request_run_cancel_def)
  with that [of "[]"] show ?thesis by simp
next
  case False
  have c: "wr_status r \<notin> {WR_SUCCEEDED, WR_FAILED, WR_CANCELLED}"
    using assms by (auto simp: request_run_cancel_def split: if_splits)
  note g = grows_forA [where f = "cancel_node now c ids" and xs = "[0..<length (wr_nodes r)]", OF grows_cancel_node]
  let ?m = "(thenA (modifyA (\<lambda>r. r\<lparr>wr_status := WR_CANCEL_REQUESTED\<rparr>))
        (bindA (liftA (wf_utc now)) (\<lambda>t.
        thenA (modifyA (\<lambda>r. r\<lparr>wr_cancel_requested_at := Some t\<rparr>))
        (thenA (log_event ids (c @ '':run-cancel-requested'') RUN_CANCEL_REQUESTED now [])
        (thenA (forA (cancel_node now c ids) [0..<length (wr_nodes r)])
        (thenA (whenA nodes_settled
                  (thenA (modifyA (\<lambda>r. r\<lparr>wr_status := WR_CANCELLED\<rparr>))
                  (thenA (log_event ids (c @ '':complete'') RUN_CANCELLED now []) (returnA ()))))
        (set_updated now)))))))"
  have "grows ids (length (wr_nodes r) + 2) ?m"
    by (rule grows_mono, (rule grows_intros g)+) simp
  moreover have "?m r = (r', Inr u)"
    using assms unfolding request_run_cancel_def if_not_P [OF c] if_not_P [OF False] .
  ultimately obtain es where "wr_events r' = wr_events r @ es" "length es \<le> length (wr_nodes r) + 2"
    "\<And>i. i < length es \<Longrightarrow> we_id (es ! i) = ids (length (wr_events r) + i + 1)"
    by (rule growsD) blast
  then show ?thesis by (rule that)
qed

lemma wf_exec_grows:
  assumes "wf_exec v opr ids r = (r', Inr u)"
  obtains es where "wr_events r' = wr_events r @ es" "length es \<le> length (wr_nodes r) + 2"
    "\<And>i. i < length es \<Longrightarrow> we_id (es ! i) = ids (length (wr_events r) + i + 1)"
proof (cases "\<exists>now c. opr = WO_cancel now c")
  case True
  then obtain now c where "opr = WO_cancel now c" by blast
  with assms have "request_run_cancel now c ids r = (r', Inr u)" by simp
  from request_run_cancel_grows [OF this] that show ?thesis by blast
next
  case False
  have "grows ids 2 (wf_exec v opr ids)"
  proof (cases opr)
    case (WO_start nid now c)
    show ?thesis unfolding WO_start wf_exec.simps start_node_def
      by (rule grows_mono, (rule grows_intros)+) simp
  next
    case (WO_accept nid ref now c)
    show ?thesis unfolding WO_accept wf_exec.simps accept_node_def
      by (rule grows_mono, (rule grows_intros)+) simp
  next
    case (WO_succeed nid s fp outs now c)
    show ?thesis unfolding WO_succeed wf_exec.simps succeed_node_def
      by (rule grows_mono, (rule grows_intros)+) simp
  next
    case (WO_reject nid code now c)
    show ?thesis unfolding WO_reject wf_exec.simps reject_node_input_def
      by (rule grows_mono, (rule grows_intros)+) simp
  next
    case (WO_fail nid code re now c)
    show ?thesis unfolding WO_fail wf_exec.simps fail_node_def
      by (rule grows_mono, (rule grows_intros)+) simp
  next
    case (WO_skip nid reason now c)
    show ?thesis unfolding WO_skip wf_exec.simps skip_node_def
      by (rule grows_mono, (rule grows_intros)+) simp
  next
    case (WO_confirm nid now c)
    show ?thesis unfolding WO_confirm wf_exec.simps confirm_node_cancel_def
      by (rule grows_mono, (rule grows_intros)+) simp
  qed (use False in blast)
  from growsD [OF this assms] that show ?thesis by (metis add.commute trans_le_add1)
qed

section \<open>A fresh command leaves a trace\<close>

lemma node_method_tag:
  "node_start now c rid eid n = (n', Inr ev) \<Longrightarrow> we_transition_id ev = c"
  "node_accept ref now c rid eid n = (n', Inr ev) \<Longrightarrow> we_transition_id ev = c"
  "node_succeed s fp outs now c rid eid n = (n', Inr ev) \<Longrightarrow> we_transition_id ev = c"
  "node_reject_input code now c rid eid n = (n', Inr ev) \<Longrightarrow> we_transition_id ev = c"
  "node_fail code re now c rid eid n = (n', Inr ev) \<Longrightarrow> we_transition_id ev = c"
  "node_skip reason now c rid eid n = (n', Inr ev) \<Longrightarrow> we_transition_id ev = c"
  "node_confirm_cancel now c rid eid n = (n', Inr ev) \<Longrightarrow> we_transition_id ev = c"
  by (auto simp: node_methods Let_def errE_simps accepted_event_def succeeded_event_def node_event_def
      mk_wf_event_returns split: if_splits)

definition logged_tags :: "wf_run \<Rightarrow> string set" where
  "logged_tags r = we_transition_id ` set (wr_events r)"

lemma log_event_tag: "log_event ids c ty now md r = (r', Inr x) \<Longrightarrow> c \<in> logged_tags r'"
  by (auto simp: log_event_def Let_def errE_simps logged_tags_def mk_wf_event_returns find_Some_iff
      split: option.splits)

lemma log_existing_tag: "log_existing ids e r = (r', Inr u) \<Longrightarrow> we_transition_id e \<in> logged_tags r'"
  by (auto simp: log_existing_def Let_def errE_simps logged_tags_def mk_wf_event_returns list_ex_iff split: if_splits)
    (metis image_eqI)

lemma logged_tags_mono: "leads run_evolves m \<Longrightarrow> m r = (r', x) \<Longrightarrow> logged_tags r \<subseteq> logged_tags r'"
  using leadsD [of run_evolves m r r' x] by (auto simp: run_evolves_def logged_tags_def prefix_def)

fun main_tag :: "wf_op \<Rightarrow> string" where
  "main_tag (WO_start i now c) = c @ '':start''"
| "main_tag (WO_accept i ref now c) = c @ '':accept''"
| "main_tag (WO_succeed i s fp outs now c) = c @ '':succeed''"
| "main_tag (WO_reject i code now c) = c @ '':reject-input''"
| "main_tag (WO_fail i code re now c) = c @ '':fail''"
| "main_tag (WO_skip i reason now c) = c @ '':skip''"
| "main_tag (WO_cancel now c) = c @ '':run-cancel-requested''"
| "main_tag (WO_confirm i now c) = c @ '':confirm''"

lemma main_tag_op: "main_tag opr \<in> set (op_tags opr r)"
  by (cases opr) simp_all

lemma accept_node_tag:
  assumes "accept_node nid ref now c ids r = (r', Inr ev)"
  shows "r' = r \<and> (\<exists>i. node_index nid r = Inr i \<and> wn_status (wr_nodes r ! i) = WN_ACCEPTED)
    \<or> c @ '':accept'' \<in> logged_tags r'"
proof -
  let ?existing = "find_latest_node_event nid NODE_ACCEPTED"
  from assms obtain i n ev1 where i: "node_index nid r = Inr i"
    and n: "node_accept ref now (c @ '':accept'') (Some (wr_id r)) (ids 0) (wr_nodes r ! i) = (n, Inr ev1)"
    and k: "(if wn_status (wr_nodes r ! i) = WN_ACCEPTED \<and> ?existing (r\<lparr>wr_nodes := (wr_nodes r)[i := n]\<rparr>) \<noteq> None
       then returnA (the (?existing (r\<lparr>wr_nodes := (wr_nodes r)[i := n]\<rparr>)))
       else
         bindA (modifyA (\<lambda>r. r\<lparr>wr_status := WR_ACCEPTED\<rparr>)) (\<lambda>_.
         bindA (log_existing ids ev1) (\<lambda>_.
         bindA (log_event ids (c @ '':run-accepted'') RUN_ACCEPTED now [(''node_id'', JStr nid)]) (\<lambda>_.
         bindA (set_updated now) (\<lambda>_. returnA ev1))))) (r\<lparr>wr_nodes := (wr_nodes r)[i := n]\<rparr>) = (r', Inr ev)"
    unfolding accept_node_def bindA_Inr_iff readA_Inr_iff liftA_Inr_iff on_node_Inr_iff check_open_Inr by auto
  show ?thesis
  proof (cases "wn_status (wr_nodes r ! i) = WN_ACCEPTED \<and> ?existing (r\<lparr>wr_nodes := (wr_nodes r)[i := n]\<rparr>) \<noteq> None")
    case True
    have "n = wr_nodes r ! i" using n True by (auto simp: node_accept_def errE_simps)
    with k True have "r' = r" by simp
    with i True show ?thesis by blast
  next
    case False
    from k [unfolded if_not_P [OF False]] obtain r1 r2 ev2 u2 u3 where
      1: "log_existing ids ev1 (r\<lparr>wr_nodes := (wr_nodes r)[i := n], wr_status := WR_ACCEPTED\<rparr>) = (r1, Inr u2)"
      and 2: "log_event ids (c @ '':run-accepted'') RUN_ACCEPTED now [(''node_id'', JStr nid)] r1 = (r2, Inr ev2)"
      and 3: "set_updated now r2 = (r', Inr u3)"
      unfolding bindA_Inr_iff modifyA_Inr_iff returnA_Inr_iff by auto
    have "c @ '':accept'' \<in> logged_tags r1" using log_existing_tag [OF 1] node_method_tag(2) [OF n] by simp
    with logged_tags_mono [OF leads_log_event, OF 2] logged_tags_mono [OF leads_set_updated, OF 3] show ?thesis by blast
  qed
qed

lemma succeed_node_tag:
  assumes "succeed_node v nid s fp outs now c ids r = (r', Inr ev)"
  shows "r' = r \<and> (\<exists>i. node_index nid r = Inr i \<and> wn_status (wr_nodes r ! i) = WN_SUCCEEDED)
    \<or> c @ '':succeed'' \<in> logged_tags r'"
proof -
  from assms consider i where "r' = r" "node_index nid r = Inr i" "wn_status (wr_nodes r ! i) = WN_SUCCEEDED"
    | i n ev1 r1 where "node_index nid r = Inr i"
      "node_succeed s fp outs now (c @ '':succeed'') (Some (wr_id r)) (ids 0) (wr_nodes r ! i) = (n, Inr ev1)"
      "log_existing ids ev1 (r\<lparr>wr_nodes := (wr_nodes r)[i := n]\<rparr>) = (r1, Inr ())"
      "refresh_status now c ids r1 = (r', Inr ())"
    by (auto simp: succeed_node_def errE_simps Let_def split: option.splits if_splits)
  then show ?thesis
  proof cases
    case 2
    with log_existing_tag [OF 2(3)] node_method_tag(3) [OF 2(2)] logged_tags_mono [OF leads_refresh_status, OF 2(4)]
    show ?thesis by auto
  qed auto
qed

lemma fail_node_tag:
  assumes "fail_node nid code re now c ids r = (r', Inr ev)"
  shows "c @ '':fail'' \<in> logged_tags r'"
proof -
  from assms obtain i n r0 r1 r2 u1 u2 u3 ev where
    n: "node_fail code re now (c @ '':fail'') (Some (wr_id r)) (ids 0) (wr_nodes r ! i) = (n, Inr ev)"
    and r2: "log_existing ids ev r0 = (r1, Inr u1)"
      "whenA (\<lambda>r. wn_status (wr_nodes r ! i) = WN_FAILED) (fail_run i nid now c ids) r1 = (r2, Inr u2)"
      "set_updated now r2 = (r', Inr u3)"
    by (auto simp: fail_node_def errE_simps)
  have "c @ '':fail'' \<in> logged_tags r1" using log_existing_tag [OF r2(1)] node_method_tag(5) [OF n] by simp
  with logged_tags_mono [OF leads_whenA [OF run_evolves_refl leads_fail_run] r2(2)]
    logged_tags_mono [OF leads_set_updated, OF r2(3)] show ?thesis by auto
qed

lemma cancel_tag:
  assumes "request_run_cancel now c ids r = (r', Inr u)"
  shows "r' = r \<or> c @ '':run-cancel-requested'' \<in> logged_tags r'"
proof (cases "wr_status r = WR_CANCEL_REQUESTED")
  case True
  with assms show ?thesis by (simp add: request_run_cancel_def)
next
  case False
  have st: "wr_status r \<notin> {WR_SUCCEEDED, WR_FAILED, WR_CANCELLED}"
    using assms by (auto simp: request_run_cancel_def split: if_splits)
  let ?rest = "thenA (forA (cancel_node now c ids) [0..<length (wr_nodes r)])
        (thenA (whenA nodes_settled
                  (thenA (modifyA (\<lambda>r. r\<lparr>wr_status := WR_CANCELLED\<rparr>))
                  (thenA (log_event ids (c @ '':complete'') RUN_CANCELLED now []) (returnA ()))))
        (set_updated now))"
  from assms obtain t r1 ev u1 where
    r1: "log_event ids (c @ '':run-cancel-requested'') RUN_CANCEL_REQUESTED now []
        (r\<lparr>wr_status := WR_CANCEL_REQUESTED, wr_cancel_requested_at := Some t\<rparr>) = (r1, Inr ev)"
    and rest: "?rest r1 = (r', Inr u1)"
    unfolding request_run_cancel_def if_not_P [OF st] if_not_P [OF False]
      bindA_Inr_iff thenA_Inr_iff [of "log_event _ _ _ _ _"] thenA_Inr_iff [of "modifyA _"]
      liftA_Inr_iff modifyA_Inr_iff by blast
  have "leads run_evolves ?rest" by (intro leads_intros)
  from logged_tags_mono [OF this rest] log_event_tag [OF r1] show ?thesis by blast
qed

lemma wf_exec_tag:
  assumes "wf_exec v opr ids r = (r', Inr u)"
  shows "r' = r \<or> main_tag opr \<in> logged_tags r'"
proof (cases opr)
  case (WO_start nid now c)
  with assms obtain i n r1 r2 u1 u2 ev where
    n: "node_start now (c @ '':start'') (Some (wr_id r)) (ids 0) (wr_nodes r ! i) = (n, Inr ev)"
    and r2: "log_existing ids ev r1 = (r2, Inr u1)" "set_updated now r2 = (r', Inr u2)"
    by (auto simp: start_node_def errE_simps)
  have "c @ '':start'' \<in> logged_tags r2" using log_existing_tag [OF r2(1)] node_method_tag(1) [OF n] by simp
  with logged_tags_mono [OF leads_set_updated, OF r2(2)] WO_start show ?thesis by auto
next
  case (WO_accept nid ref now c)
  with assms accept_node_tag show ?thesis by (fastforce simp: errE_simps)
next
  case (WO_succeed nid s fp outs now c)
  with assms succeed_node_tag show ?thesis by (fastforce simp: errE_simps)
next
  case (WO_reject nid code now c)
  with assms obtain i n r0 r1 r2 u1 u2 u3 ev where
    n: "node_reject_input code now (c @ '':reject-input'') (Some (wr_id r)) (ids 0) (wr_nodes r ! i) = (n, Inr ev)"
    and r2: "log_existing ids ev r0 = (r1, Inr u1)" "fail_run i nid now c ids r1 = (r2, Inr u2)"
      "set_updated now r2 = (r', Inr u3)"
    by (auto simp: reject_node_input_def errE_simps)
  have "c @ '':reject-input'' \<in> logged_tags r1" using log_existing_tag [OF r2(1)] node_method_tag(4) [OF n] by simp
  with logged_tags_mono [OF leads_fail_run, OF r2(2)] logged_tags_mono [OF leads_set_updated, OF r2(3)] WO_reject
  show ?thesis by auto
next
  case (WO_fail nid code re now c)
  with assms fail_node_tag show ?thesis by (fastforce simp: errE_simps)
next
  case (WO_skip nid reason now c)
  with assms obtain i n r0 r1 u1 u2 ev where
    n: "node_skip reason now (c @ '':skip'') (Some (wr_id r)) (ids 0) (wr_nodes r ! i) = (n, Inr ev)"
    and r2: "log_existing ids ev r0 = (r1, Inr u1)" "refresh_status now c ids r1 = (r', Inr u2)"
    by (auto simp: skip_node_def errE_simps)
  have "c @ '':skip'' \<in> logged_tags r1" using log_existing_tag [OF r2(1)] node_method_tag(6) [OF n] by simp
  with logged_tags_mono [OF leads_refresh_status, OF r2(2)] WO_skip show ?thesis by auto
next
  case (WO_cancel now c)
  with assms cancel_tag show ?thesis by fastforce
next
  case (WO_confirm nid now c)
  with assms obtain i n r0 r1 r2 u1 u2 u3 ev where
    n: "node_confirm_cancel now (c @ '':confirm'') (Some (wr_id r)) (ids 0) (wr_nodes r ! i) = (n, Inr ev)"
    and r2: "log_existing ids ev r0 = (r1, Inr u1)"
      "whenA (\<lambda>r. wr_status r = WR_CANCEL_REQUESTED \<and> nodes_settled r)
        (thenA (modifyA (\<lambda>r. r\<lparr>wr_status := WR_CANCELLED\<rparr>))
        (thenA (log_event ids c RUN_CANCELLED now []) (returnA ()))) r1 = (r2, Inr u2)"
      "set_updated now r2 = (r', Inr u3)"
    unfolding WO_confirm wf_exec.simps confirm_node_cancel_def bindA_Inr_iff readA_Inr_iff on_node_Inr_iff
      returnA_Inr_iff by blast
  have "c @ '':confirm'' \<in> logged_tags r1" using log_existing_tag [OF r2(1)] node_method_tag(7) [OF n] by simp
  moreover have "leads run_evolves (whenA (\<lambda>r. wr_status r = WR_CANCEL_REQUESTED \<and> nodes_settled r)
        (thenA (modifyA (\<lambda>r. r\<lparr>wr_status := WR_CANCELLED\<rparr>))
        (thenA (log_event ids c RUN_CANCELLED now []) (returnA ()))))" by (intro leads_intros)
  ultimately show ?thesis
    using logged_tags_mono [of "whenA _ _", OF _ r2(2)] logged_tags_mono [OF leads_set_updated, OF r2(3)]
      WO_confirm by fastforce
qed

lemma fresh_exec_logs:
  \<comment> \<open>a fresh operation that returns has changed nothing or logged something\<close>
  assumes "wf_exec v opr ids r = (r', Inr u)" "wf_op_fresh opr r" "wr_events r' = wr_events r"
  shows "r' = r"
proof -
  have "main_tag opr \<notin> logged_tags r"
    using assms(2) main_tag_op [of opr r] unfolding wf_op_fresh_def logged_tags_def by blast
  with wf_exec_tag [OF assms(1)] assms(3) show ?thesis by (simp add: logged_tags_def)
qed

end
