(* ===== verification/Workflow_Port.thy ===== *)
theory Workflow_Port
  imports Workflow_Records
begin

text \<open>
  The persistence port of the workflow application (\<open>app/platform/workflow/ports/repository.py\<close>) as a
  record of operations over an abstract store \<open>'s\<close>, and the contract the application relies on as a
  locale. A save that would overwrite a run somebody else has changed meets the unique keys of the event
  log and is refused (\<open>save_stale\<close>).
\<close>

record wf_receipt =
  wq_run_id :: uuid
  wq_command_type :: string
  wq_command_id :: string

record 's workflow_port =
  wp_get :: "uuid \<Rightarrow> 's \<Rightarrow> wf_error + wf_run option"
  wp_get_for_update :: "uuid \<Rightarrow> 's \<Rightarrow> wf_error + wf_run option"
  wp_get_owned :: "uuid \<Rightarrow> string \<Rightarrow> 's \<Rightarrow> wf_error + wf_run option"
  wp_create_or_get :: "wf_run \<Rightarrow> 's \<Rightarrow> wf_error + 's \<times> wf_run"
  wp_save :: "wf_run \<Rightarrow> wf_receipt option \<Rightarrow> 's \<Rightarrow> wf_error + 's"
  wp_has_processed_command :: "uuid \<Rightarrow> string \<Rightarrow> string \<Rightarrow> 's \<Rightarrow> wf_error + bool"

section \<open>The contract\<close>

definition run_key :: "wf_run \<Rightarrow> string \<times> string \<times> string \<times> string" where
  "run_key r = (wr_owner_subject r, wr_workflow_code r, wr_workflow_version r, wr_idempotency_key r)"

definition event_id_set :: "wf_run \<Rightarrow> uuid set" where
  "event_id_set r = we_id ` set (wr_events r)"

definition node_id_set :: "wf_run \<Rightarrow> uuid set" where
  "node_id_set r = wn_id ` set (wr_nodes r)"

definition receipt_key :: "wf_receipt option \<Rightarrow> (uuid \<times> string \<times> string) set" where
  "receipt_key rc = (case rc of None \<Rightarrow> {} | Some q \<Rightarrow> {(wq_run_id q, wq_command_type q, wq_command_id q)})"

definition receipt_for :: "uuid \<Rightarrow> wf_receipt option \<Rightarrow> bool" where
  "receipt_for rid rc \<longleftrightarrow> pred_option (\<lambda>q. wq_run_id q = rid \<and> trimmed (wq_command_type q)
     \<and> pg_btrim (wq_command_id q) \<noteq> []) rc"

definition same_but_order :: "wf_run \<Rightarrow> wf_run \<Rightarrow> bool" where
  \<comment> \<open>the same run up to the order of its nodes\<close>
  "same_but_order r r' \<longleftrightarrow> (\<exists>ns. mset ns = mset (wr_nodes r) \<and> r' = r\<lparr>wr_nodes := ns\<rparr>)"

locale workflow_repository =
  fixes port :: "'s workflow_port"
    and ok :: "'s \<Rightarrow> bool"
    and view :: "'s \<Rightarrow> uuid \<Rightarrow> wf_run option"
    and handled :: "'s \<Rightarrow> (uuid \<times> string \<times> string) set"
    and used :: "'s \<Rightarrow> uuid set"
    and supplied :: "'s \<Rightarrow> bool"
  assumes get: "ok s \<Longrightarrow> wp_get port rid s = Inr (view s rid)"
    and get_for_update: "ok s \<Longrightarrow> wp_get_for_update port rid s = Inr (view s rid)"
    and get_owned: "ok s \<Longrightarrow> wp_get_owned port rid owner s = Inr (case view s rid of
        Some r \<Rightarrow> if wr_owner_subject r = owner then Some r else None | None \<Rightarrow> None)"
    and view_ok: "ok s \<Longrightarrow> view s rid = Some r \<Longrightarrow> wr_id r = rid \<and> run_storable r
        \<and> distinct (map we_id (wr_events r)) \<and> event_id_set r \<union> node_id_set r \<subseteq> used s"
    and view_key: "ok s \<Longrightarrow> view s i = Some r \<Longrightarrow> view s j = Some q \<Longrightarrow> run_key r = run_key q \<Longrightarrow> i = j"
    and has_processed: "ok s \<Longrightarrow>
      wp_has_processed_command port rid ct cid s = Inr ((rid, ct, cid) \<in> handled s)"
    and save: "ok s \<Longrightarrow> view s (wr_id u) = Some r \<Longrightarrow> run_evolves r u \<Longrightarrow>
      distinct (map we_id (wr_events u)) \<Longrightarrow> (event_id_set u - event_id_set r) \<inter> used s = {} \<Longrightarrow>
      receipt_for (wr_id u) rc \<Longrightarrow> rc = None \<or> supplied s \<Longrightarrow>
      \<exists>s'. wp_save port u rc s = Inr s' \<and> ok s' \<and> view s' = (view s)(wr_id u \<mapsto> u)
        \<and> handled s' = handled s \<union> receipt_key rc \<and> used s' = used s \<union> event_id_set u"
    and save_stale: "ok s \<Longrightarrow> view s (wr_id u) = Some r \<Longrightarrow>
      ev \<in> set (wr_events r) \<Longrightarrow> ev' \<in> set (wr_events u) \<Longrightarrow> we_run_id ev' = wr_id u \<Longrightarrow>
      we_sequence ev = we_sequence ev' \<Longrightarrow> we_id ev' \<notin> used s \<Longrightarrow>
      wp_save port u rc s = Inl WfIntegrityError"
    and create_new: "ok s \<Longrightarrow> run_storable r \<Longrightarrow> view s (wr_id r) = None \<Longrightarrow>
      wr_events r = [ev] \<Longrightarrow> (event_id_set r \<union> node_id_set r) \<inter> used s = {} \<Longrightarrow>
      (\<And>i q. view s i = Some q \<Longrightarrow> run_key q \<noteq> run_key r) \<Longrightarrow>
      \<exists>s' r'. wp_create_or_get port r s = Inr (s', r) \<and> ok s' \<and> same_but_order r r'
        \<and> view s' = (view s)(wr_id r \<mapsto> r') \<and> handled s' = handled s
        \<and> used s' = used s \<union> event_id_set r \<union> node_id_set r"
    and create_existing: "ok s \<Longrightarrow> view s i = Some q \<Longrightarrow> run_key q = run_key r \<Longrightarrow>
      wp_create_or_get port r s = Inr (s, q)"

end
