(* ===== verification/Workflow_Executor.thy ===== *)
theory Workflow_Executor
  imports Workflow_Run Principal
begin

text \<open>
  Whom the workflow application calls: the commands and outcomes of the node executor
  (\<open>app/platform/workflow/ports/executor.py\<close>) with the checks of their constructors. The executor itself
  is a parameter of the application.
\<close>

section \<open>Commands\<close>

record wf_exec_command =
  xe_principal :: principal
  xe_version :: wf_version
  xe_node :: wf_node_def
  xe_inputs :: json_dict

definition mk_exec_command ::
  "principal \<Rightarrow> wf_version \<Rightarrow> wf_node_def \<Rightarrow> json_dict \<Rightarrow> wf_error + wf_exec_command" where
  "mk_exec_command p v d inputs =
     (if nd_node_id d \<notin> nd_node_id ` set (wv_nodes v) then Inl WfValueError
      else Inr \<lparr>xe_principal = p, xe_version = v, xe_node = d, xe_inputs = inputs\<rparr>)"

record wf_cancel_command =
  xc_principal :: principal
  xc_version :: wf_version
  xc_node :: wf_node_def
  xc_execution_reference :: "string option"
  xc_command_id :: string

definition mk_cancel_command ::
  "principal \<Rightarrow> wf_version \<Rightarrow> wf_node_def \<Rightarrow> string option \<Rightarrow> string \<Rightarrow> wf_error + wf_cancel_command" where
  "mk_cancel_command p v d reference command_id =
     (if nd_node_id d \<notin> nd_node_id ` set (wv_nodes v) then Inl WfValueError
      else if \<not> pred_option (\<lambda>r. py_strip r \<noteq> []) reference then Inl WfValueError
      else if py_strip command_id = [] then Inl WfValueError
      else Inr \<lparr>xc_principal = p, xc_version = v, xc_node = d, xc_execution_reference = reference,
                xc_command_id = command_id\<rparr>)"

section \<open>Outcomes\<close>

record wf_outcome =
  oc_status :: string
  oc_result_summary :: "string option"
  oc_output_fingerprint :: "string option"
  oc_output_references :: json_dict
  oc_execution_reference :: "string option"
  oc_error_code :: "string option"
  oc_message :: "string option"
  oc_retryable :: bool

definition is_text :: "string option \<Rightarrow> bool" where
  \<comment> \<open>truth of an optional text: neither \<open>None\<close> nor empty\<close>
  "is_text t \<longleftrightarrow> t \<noteq> None \<and> t \<noteq> Some []"

definition outcome_ok :: "wf_outcome \<Rightarrow> bool" where
  "outcome_ok c \<longleftrightarrow>
     (if oc_status c = ''completed'' then
        is_text (oc_result_summary c) \<and> \<not> is_text (oc_execution_reference c)
        \<and> \<not> is_text (oc_error_code c) \<and> \<not> is_text (oc_message c)
      else if oc_status c = ''accepted'' then
        is_text (oc_execution_reference c) \<and> \<not> is_text (oc_result_summary c)
        \<and> \<not> is_text (oc_error_code c) \<and> \<not> is_text (oc_message c) \<and> oc_output_references c = []
      else if oc_status c = ''failed'' then
        \<not> is_text (oc_result_summary c) \<and> \<not> is_text (oc_execution_reference c)
        \<and> is_text (oc_error_code c) \<and> is_text (oc_message c) \<and> oc_output_references c = []
      else False)"

definition mk_outcome :: "wf_outcome \<Rightarrow> wf_error + wf_outcome" where
  "mk_outcome c = (if outcome_ok c then Inr c else Inl WfValueError)"

definition no_outcome :: wf_outcome where
  \<comment> \<open>the default values of the fields\<close>
  "no_outcome = \<lparr>oc_status = [], oc_result_summary = None, oc_output_fingerprint = None,
     oc_output_references = [], oc_execution_reference = None, oc_error_code = None,
     oc_message = None, oc_retryable = False\<rparr>"

definition completed_outcome :: "string \<Rightarrow> string option \<Rightarrow> json_dict option \<Rightarrow> wf_error + wf_outcome" where
  "completed_outcome result_summary output_fingerprint references =
     mk_outcome (no_outcome\<lparr>oc_status := ''completed'', oc_result_summary := Some (py_strip result_summary),
       oc_output_fingerprint := output_fingerprint,
       oc_output_references := (case references of None \<Rightarrow> [] | Some d \<Rightarrow> d)\<rparr>)"

definition accepted_outcome :: "string \<Rightarrow> wf_error + wf_outcome" where
  "accepted_outcome execution_reference =
     mk_outcome (no_outcome\<lparr>oc_status := ''accepted'',
       oc_execution_reference := Some (py_strip execution_reference)\<rparr>)"

definition failed_outcome :: "string \<Rightarrow> string \<Rightarrow> bool \<Rightarrow> wf_error + wf_outcome" where
  "failed_outcome error_code message retryable =
     mk_outcome (no_outcome\<lparr>oc_status := ''failed'', oc_error_code := Some (py_strip error_code),
       oc_message := Some (py_strip message), oc_retryable := retryable\<rparr>)"

end
