(* ===== verification/Workflow_Application.thy ===== *)
theory Workflow_Application
  imports Workflow_Port Workflow_Executor "HOL-Library.AList"
begin

text \<open>
  The workflow application service (\<open>app/platform/workflow/application/service.py\<close>) over the repository
  port. Every use case is an action on the store; the executor is a function of its previous calls and
  the command (\<open>None\<close> when it raises), and the calls it gets are logged.

  \<open>execute_node\<close> commits twice, before and after the executor runs, and holds no lock in between: it is
  the composition of \<open>app_begin_execution\<close>, the executor and \<open>app_finish_execution\<close>, so that other
  commands can be interleaved. The clock, the UUIDs, the registry and the digest behind the input
  fingerprint are arguments.
\<close>

section \<open>Views\<close>

record wf_node_view =
  wnv_node_id :: string
  wnv_capability_code :: string
  wnv_status :: wf_node_status
  wnv_attempt_count :: int
  wnv_execution_reference :: "string option"
  wnv_result_summary :: "string option"
  wnv_failure_code :: "string option"

record wf_run_view =
  wrv_id :: uuid
  wrv_workflow_code :: string
  wrv_workflow_version :: string
  wrv_owner_subject :: string
  wrv_status :: wf_run_status
  wrv_nodes :: "wf_node_view list"
  wrv_result_summary :: "string option"
  wrv_failure_code :: "string option"
  wrv_created_at :: "int option"
  wrv_updated_at :: "int option"

definition view_from_run :: "wf_run \<Rightarrow> wf_run_view" where
  "view_from_run r =
     \<lparr>wrv_id = wr_id r, wrv_workflow_code = wr_workflow_code r,
      wrv_workflow_version = wr_workflow_version r, wrv_owner_subject = wr_owner_subject r,
      wrv_status = wr_status r,
      wrv_nodes = map (\<lambda>n. \<lparr>wnv_node_id = wn_node_id n, wnv_capability_code = wn_capability_code n,
          wnv_status = wn_status n, wnv_attempt_count = wn_attempt_count n,
          wnv_execution_reference = wn_execution_reference n,
          wnv_result_summary = wn_result_summary n, wnv_failure_code = wn_failure_code n\<rparr>) (wr_nodes r),
      wrv_result_summary = wr_result_summary r, wrv_failure_code = wr_failure_code r,
      wrv_created_at = wr_created_at r, wrv_updated_at = wr_updated_at r\<rparr>"

section \<open>The registry port\<close>

record wf_registry =
  rg_get :: "string \<Rightarrow> string \<Rightarrow> wf_version option"
  rg_validate_access :: "wf_version \<Rightarrow> string list \<Rightarrow> wf_error + unit"

section \<open>Principals and inputs\<close>

definition require_principal :: "principal \<Rightarrow> wf_error + principal" where
  "require_principal p =
     (if \<not> pr_authenticated p then Inl WfPermissionError
      else case pr_subject p of
          None \<Rightarrow> Inl WfPermissionError
        | Some s \<Rightarrow> if py_strip s = [] then Inl WfPermissionError else Inr p)"

definition subject_of :: "principal \<Rightarrow> string" where
  "subject_of p = (case pr_subject p of None \<Rightarrow> [] | Some s \<Rightarrow> py_strip s)"

definition validate_inputs :: "string list \<Rightarrow> json \<Rightarrow> wf_error + json_dict" where
  "validate_inputs names inputs =
     (case inputs of
        JObj d \<Rightarrow>
          if \<not> set names \<subseteq> dict_keys d then Inl WorkflowValidationError
          else if \<not> dict_keys d \<subseteq> set names then Inl WorkflowValidationError
          else if \<not> json_ok (JObj d) then Inl WorkflowValidationError
          else Inr d
      | _ \<Rightarrow> Inl WorkflowValidationError)"

definition picked :: "json_dict \<Rightarrow> string list \<Rightarrow> wf_error + json_dict" where
  \<comment> \<open>\<open>{field: references[field] for field in names}\<close>\<close>
  "picked references names =
     mapE (\<lambda>f. case map_of references f of None \<Rightarrow> Inl WfKeyError | Some v \<Rightarrow> Inr (f, v)) names"

definition dict_update :: "json_dict \<Rightarrow> json_dict \<Rightarrow> json_dict" where
  "dict_update d d' = foldl (\<lambda>d (k, v). AList.update k v d) d d'"

definition build_node_inputs :: "wf_run \<Rightarrow> wf_version \<Rightarrow> string \<Rightarrow> json \<Rightarrow> wf_error + json_dict" where
  "build_node_inputs r v node_id inputs =
     bindE (version_node v node_id) (\<lambda>d.
     bindE (incoming_edges v node_id) (\<lambda>incoming.
       let bound = concat (map ed_output_fields incoming) in
       bindE (validate_inputs (filter (\<lambda>f. f \<notin> set bound) (nd_input_fields d))
          (case inputs of JObj kvs \<Rightarrow> JObj (filter (\<lambda>kv. fst kv \<notin> set bound) kvs) | x \<Rightarrow> x)) (\<lambda>supplied.
       bindE (foldE (\<lambda>e merged. bindE (picked (output_references (ed_source e) r) (ed_output_fields e))
                (\<lambda>new. Inr (dict_update merged new))) incoming supplied) (\<lambda>merged.
         validate_inputs (nd_input_fields d) (JObj merged)))))"

definition input_fingerprint :: "(string \<Rightarrow> string) \<Rightarrow> json_dict \<Rightarrow> string" where
  \<comment> \<open>\<open>digest\<close> is the hexadecimal SHA-256 of the UTF-8 bytes of a text\<close>
  "input_fingerprint digest inputs = digest (json_dumps (JObj inputs))"

section \<open>Reading use cases\<close>

definition found_owned :: "string \<Rightarrow> wf_run option \<Rightarrow> wf_error + wf_run" where
  "found_owned subject found =
     (case found of
        None \<Rightarrow> Inl WfLookupError
      | Some r \<Rightarrow> if wr_owner_subject r \<noteq> subject then Inl WfLookupError else Inr r)"

definition find_version :: "wf_registry \<Rightarrow> wf_run \<Rightarrow> wf_error + wf_version" where
  "find_version reg r =
     (case rg_get reg (wr_workflow_code r) (wr_workflow_version r) of
        None \<Rightarrow> Inl WorkflowValidationError | Some v \<Rightarrow> Inr v)"

definition locked_run :: "'s workflow_port \<Rightarrow> principal \<Rightarrow> uuid \<Rightarrow> ('s, wf_error, wf_run) action" where
  \<comment> \<open>the caller's run, locked\<close>
  "locked_run port p run_id =
     bindA (liftA (require_principal p)) (\<lambda>trusted.
     bindA (readA (wp_get_for_update port run_id)) (\<lambda>found.
     liftA (found_owned (subject_of trusted) found)))"

definition owned_run ::
  "'s workflow_port \<Rightarrow> wf_registry \<Rightarrow> principal \<Rightarrow> uuid \<Rightarrow> ('s, wf_error, wf_run \<times> wf_version) action" where
  "owned_run port reg p run_id =
     bindA (locked_run port p run_id) (\<lambda>r.
     bindA (liftA (find_version reg r)) (\<lambda>v. returnA (r, v)))"

definition app_get_owned ::
  "'s workflow_port \<Rightarrow> principal \<Rightarrow> uuid \<Rightarrow> ('s, wf_error, wf_run_view) action" where
  "app_get_owned port p run_id =
     bindA (liftA (require_principal p)) (\<lambda>trusted.
     bindA (readA (wp_get_owned port run_id (subject_of trusted))) (\<lambda>found.
     case found of None \<Rightarrow> liftA (Inl WfLookupError) | Some r \<Rightarrow> returnA (view_from_run r)))"

section \<open>Writing use cases\<close>

definition saveA :: "'s workflow_port \<Rightarrow> wf_run \<Rightarrow> wf_receipt option \<Rightarrow> ('s, wf_error, unit) action" where
  "saveA port r rc = writeA (\<lambda>s. bindE (wp_save port r rc s) (\<lambda>s'. Inr (s', ())))"

definition root_fields :: "wf_version \<Rightarrow> wf_error + string list" where
  "root_fields v =
     bindE (mapE (\<lambda>d. bindE (predecessors v (nd_node_id d)) (\<lambda>ps.
         Inr (if ps = [] then nd_input_fields d else []))) (wv_nodes v)) (\<lambda>fss. Inr (concat fss))"

record create_run_command =
  cw_principal :: principal
  cw_workflow_code :: string
  cw_workflow_version :: string
  cw_idempotency_key :: string
  cw_inputs :: json

definition app_create_run ::
  "'s workflow_port \<Rightarrow> wf_registry \<Rightarrow> (string \<Rightarrow> string) \<Rightarrow> create_run_command \<Rightarrow> datetime \<Rightarrow> uuid \<Rightarrow>
   event_ids \<Rightarrow> event_ids \<Rightarrow> ('s, wf_error, wf_run_view) action" where
  "app_create_run port reg digest c now rid nids ids =
     bindA (liftA (require_principal (cw_principal c))) (\<lambda>p.
     case rg_get reg (cw_workflow_code c) (cw_workflow_version c) of
       None \<Rightarrow> liftA (Inl WorkflowValidationError)
     | Some v \<Rightarrow>
         if \<not> wv_enabled v then liftA (Inl WorkflowValidationError)
         else
           bindA (liftA (rg_validate_access reg v (pr_permissions p))) (\<lambda>_.
           bindA (liftA (root_fields v)) (\<lambda>names.
           bindA (liftA (validate_inputs names (cw_inputs c))) (\<lambda>inputs.
           bindA (liftA (create_run v (subject_of p) (cw_idempotency_key c)
                    (input_fingerprint digest inputs) now rid nids ids)) (\<lambda>r.
           bindA (writeA (wp_create_or_get port r)) (\<lambda>existing.
             if wr_input_fingerprint existing \<noteq> wr_input_fingerprint r
             then liftA (Inl WorkflowIdempotencyConflictError)
             else returnA (view_from_run existing)))))))"

definition run_result :: "'a wf_run_action \<Rightarrow> wf_run \<Rightarrow> wf_error + wf_run" where
  \<comment> \<open>the run a method leaves when it returns\<close>
  "run_result m r = (case m r of (r', Inl e) \<Rightarrow> Inl e | (r', Inr _) \<Rightarrow> Inr r')"

definition receipt :: "uuid \<Rightarrow> string \<Rightarrow> string \<Rightarrow> wf_receipt" where
  "receipt run_id ct cid = \<lparr>wq_run_id = run_id, wq_command_type = ct, wq_command_id = cid\<rparr>"

definition node_command ::
  "'s workflow_port \<Rightarrow> wf_registry \<Rightarrow> principal \<Rightarrow> uuid \<Rightarrow> string \<Rightarrow> string \<Rightarrow>
   (wf_version \<Rightarrow> 'a wf_run_action) \<Rightarrow> ('s, wf_error, wf_run_view) action" where
  \<comment> \<open>what the four commands below have in common\<close>
  "node_command port reg p run_id command_type command_id m =
     bindA (owned_run port reg p run_id) (\<lambda>(r, v).
     bindA (readA (wp_has_processed_command port run_id command_type command_id)) (\<lambda>processed.
       if processed then returnA (view_from_run r)
       else
         bindA (liftA (run_result (m v) r)) (\<lambda>r'.
         bindA (saveA port r' (Some (receipt run_id command_type command_id))) (\<lambda>_.
         returnA (view_from_run r')))))"

definition app_complete_node ::
  "'s workflow_port \<Rightarrow> wf_registry \<Rightarrow> principal \<Rightarrow> uuid \<Rightarrow> string \<Rightarrow> string \<Rightarrow> string option \<Rightarrow> json_dict \<Rightarrow>
   string \<Rightarrow> datetime \<Rightarrow> event_ids \<Rightarrow> ('s, wf_error, wf_run_view) action" where
  "app_complete_node port reg p run_id node_id result_summary output_fingerprint outputs command_id now ids =
     node_command port reg p run_id ''complete-node'' command_id
       (\<lambda>v. succeed_node v node_id result_summary output_fingerprint outputs now command_id ids)"

definition app_fail_node ::
  "'s workflow_port \<Rightarrow> wf_registry \<Rightarrow> principal \<Rightarrow> uuid \<Rightarrow> string \<Rightarrow> string \<Rightarrow> bool \<Rightarrow> string \<Rightarrow> datetime \<Rightarrow>
   event_ids \<Rightarrow> ('s, wf_error, wf_run_view) action" where
  "app_fail_node port reg p run_id node_id error_code retryable command_id now ids =
     node_command port reg p run_id ''fail-node'' command_id
       (\<lambda>_. fail_node node_id error_code retryable now command_id ids)"

definition app_skip_node ::
  "'s workflow_port \<Rightarrow> wf_registry \<Rightarrow> principal \<Rightarrow> uuid \<Rightarrow> string \<Rightarrow> string \<Rightarrow> string \<Rightarrow> datetime \<Rightarrow>
   event_ids \<Rightarrow> ('s, wf_error, wf_run_view) action" where
  "app_skip_node port reg p run_id node_id reason command_id now ids =
     node_command port reg p run_id ''skip-node'' command_id
       (\<lambda>_. skip_node node_id reason now command_id ids)"

definition app_confirm_node_cancel ::
  "'s workflow_port \<Rightarrow> wf_registry \<Rightarrow> principal \<Rightarrow> uuid \<Rightarrow> string \<Rightarrow> string \<Rightarrow> datetime \<Rightarrow>
   event_ids \<Rightarrow> ('s, wf_error, wf_run_view) action" where
  "app_confirm_node_cancel port reg p run_id node_id command_id now ids =
     node_command port reg p run_id ''confirm-cancel'' command_id
       (\<lambda>_. confirm_node_cancel node_id now command_id ids)"

section \<open>Executing a node\<close>

datatype wf_started =
    Answered wf_run_view \<comment> \<open>the executor is not needed\<close>
  | Started wf_run wf_version "wf_error + wf_exec_command"

definition app_begin_execution ::
  "'s workflow_port \<Rightarrow> wf_registry \<Rightarrow> principal \<Rightarrow> uuid \<Rightarrow> string \<Rightarrow> json \<Rightarrow> string \<Rightarrow> datetime \<Rightarrow> event_ids \<Rightarrow>
   ('s, wf_error, wf_started) action" where
  \<comment> \<open>\<open>execute_node\<close> up to the first commit\<close>
  "app_begin_execution port reg p run_id node_id inputs command_id now ids =
     bindA (locked_run port p run_id) (\<lambda>r.
     bindA (readA (wp_has_processed_command port run_id ''execute-node'' command_id)) (\<lambda>processed.
       if processed then returnA (Answered (view_from_run r))
       else
         bindA (liftA (find_version reg r)) (\<lambda>v.
         bindA (liftA (ready_nodes v r)) (\<lambda>ready.
         bindA (liftA (guardE (node_id \<in> set ready) WorkflowStateError)) (\<lambda>_.
         bindA (liftA (version_node v node_id)) (\<lambda>d.
           case build_node_inputs r v node_id inputs of
             Inr normalized_inputs \<Rightarrow>
               bindA (liftA (run_result (start_node v node_id now command_id ids) r)) (\<lambda>r'.
               bindA (saveA port r' None) (\<lambda>_.
               returnA (Started r' v (mk_exec_command p v d normalized_inputs))))
           | Inl WorkflowValidationError \<Rightarrow>
               bindA (liftA (run_result (reject_node_input node_id ''INPUT_INVALID'' now command_id ids) r)) (\<lambda>r'.
               bindA (saveA port r' (Some (receipt run_id ''execute-node'' command_id))) (\<lambda>_.
               returnA (Answered (view_from_run r'))))
           | Inl e \<Rightarrow> liftA (Inl e)))))))"

definition unavailable_message :: string where
  \<comment> \<open>in UTF-8\<close>
  "unavailable_message = ''Workflow '' @
     [CHR 0xE8, CHR 0x8A, CHR 0x82, CHR 0xE7, CHR 0x82, CHR 0xB9, CHR 0xE6, CHR 0x89, CHR 0xA7,
      CHR 0xE8, CHR 0xA1, CHR 0x8C, CHR 0xE5, CHR 0x99, CHR 0xA8, CHR 0xE6, CHR 0x9A, CHR 0x82,
      CHR 0xE6, CHR 0x97, CHR 0xB6, CHR 0xE4, CHR 0xB8, CHR 0x8D, CHR 0xE5, CHR 0x8F, CHR 0xAF,
      CHR 0xE7, CHR 0x94, CHR 0xA8, CHR 0xE3, CHR 0x80, CHR 0x82]"

definition executor_unavailable :: wf_outcome where
  "executor_unavailable = no_outcome\<lparr>oc_status := ''failed'', oc_error_code := Some ''EXECUTOR_UNAVAILABLE'',
     oc_message := Some unavailable_message, oc_retryable := True\<rparr>"

definition text_or :: "string \<Rightarrow> string option \<Rightarrow> string" where
  \<comment> \<open>\<open>value or default\<close>\<close>
  "text_or dflt t = (if is_text t then the t else dflt)"

definition node_done :: string where
  \<comment> \<open>the summary of a node that reports none, in UTF-8\<close>
  "node_done = [CHR 0xE8, CHR 0x8A, CHR 0x82, CHR 0xE7, CHR 0x82, CHR 0xB9, CHR 0xE5, CHR 0xB7, CHR 0xB2,
      CHR 0xE5, CHR 0xAE, CHR 0x8C, CHR 0xE6, CHR 0x88, CHR 0x90, CHR 0xE3, CHR 0x80, CHR 0x82]"

definition settle_outcome ::
  "wf_version \<Rightarrow> string \<Rightarrow> wf_outcome \<Rightarrow> datetime \<Rightarrow> string \<Rightarrow> event_ids \<Rightarrow> unit wf_run_action" where
  \<comment> \<open>what the outcome of the executor does to the run\<close>
  "settle_outcome v node_id c now command_id ids =
     (if oc_status c = ''completed'' then
        tryA (succeed_node v node_id (text_or node_done (oc_result_summary c)) (oc_output_fingerprint c)
                (oc_output_references c) now command_id ids)
          (\<lambda>e. if e = WorkflowValidationError
               then bindA (fail_node node_id ''OUTPUT_INVALID'' False now command_id ids) (\<lambda>_. returnA ())
               else liftA (Inl e))
          (\<lambda>_. returnA ())
      else if oc_status c = ''accepted'' then
        bindA (accept_node node_id (text_or [] (oc_execution_reference c)) now command_id ids) (\<lambda>_. returnA ())
      else
        bindA (fail_node node_id (text_or ''WORKFLOW_EXECUTION_FAILED'' (oc_error_code c)) (oc_retryable c)
                now command_id ids) (\<lambda>_. returnA ()))"

definition app_finish_execution ::
  "'s workflow_port \<Rightarrow> wf_run \<Rightarrow> wf_version \<Rightarrow> string \<Rightarrow> wf_outcome option \<Rightarrow> string \<Rightarrow> datetime \<Rightarrow> event_ids \<Rightarrow>
   ('s, wf_error, wf_run_view) action" where
  \<comment> \<open>\<open>execute_node\<close> after the executor has answered or raised\<close>
  "app_finish_execution port r v node_id answer command_id now ids =
     bindA (liftA (run_result (settle_outcome v node_id
         (case answer of None \<Rightarrow> executor_unavailable | Some c \<Rightarrow> c) now command_id ids) r)) (\<lambda>r'.
     bindA (saveA port r' (Some (receipt (wr_id r) ''execute-node'' command_id))) (\<lambda>_.
     returnA (view_from_run r')))"

section \<open>The world of a request: the store and the executor\<close>

datatype wf_call = Execute wf_exec_command | Request_cancel wf_cancel_command

record 's wf_world =
  ww_store :: 's
  ww_calls :: "wf_call list" \<comment> \<open>what the executor was asked, latest last\<close>

type_synonym wf_executor = "wf_call list \<Rightarrow> wf_exec_command \<Rightarrow> wf_outcome option"

definition on_store :: "('s, 'e, 'a) action \<Rightarrow> ('s wf_world, 'e, 'a) action" where
  "on_store m w = (case m (ww_store w) of (s, x) \<Rightarrow> (w\<lparr>ww_store := s\<rparr>, x))"

definition call_executor :: "wf_executor \<Rightarrow> wf_error + wf_exec_command \<Rightarrow> ('s wf_world, wf_error, wf_outcome option) action" where
  \<comment> \<open>an exception of the command's constructor or of the executor is answered by \<open>None\<close>\<close>
  "call_executor exec command w =
     (case command of
        Inl e \<Rightarrow> (w, Inr None)
      | Inr c \<Rightarrow> (w\<lparr>ww_calls := ww_calls w @ [Execute c]\<rparr>, Inr (exec (ww_calls w) c)))"

definition app_execute_node ::
  "'s workflow_port \<Rightarrow> wf_registry \<Rightarrow> wf_executor \<Rightarrow> principal \<Rightarrow> uuid \<Rightarrow> string \<Rightarrow> json \<Rightarrow> string \<Rightarrow>
   datetime \<Rightarrow> event_ids \<Rightarrow> datetime \<Rightarrow> event_ids \<Rightarrow> ('s wf_world, wf_error, wf_run_view) action" where
  "app_execute_node port reg exec p run_id node_id inputs command_id now ids now2 ids2 =
     bindA (on_store (app_begin_execution port reg p run_id node_id inputs command_id now ids)) (\<lambda>started.
     case started of
       Answered view \<Rightarrow> returnA view
     | Started r v command \<Rightarrow>
         bindA (call_executor exec command) (\<lambda>answer.
         on_store (app_finish_execution port r v node_id answer command_id now2 ids2)))"

definition cancel_calls :: "principal \<Rightarrow> wf_version \<Rightarrow> string \<Rightarrow> wf_node list \<Rightarrow> wf_call list" where
  \<comment> \<open>the commands \<open>cancel\<close> sends; one that cannot be built is passed over\<close>
  "cancel_calls p v command_id ns =
     concat (map (\<lambda>n. case bindE (version_node v (wn_node_id n)) (\<lambda>d.
         mk_cancel_command p v d (wn_execution_reference n) command_id) of
           Inl e \<Rightarrow> [] | Inr c \<Rightarrow> [Request_cancel c]) ns)"

definition app_cancel ::
  "'s workflow_port \<Rightarrow> wf_registry \<Rightarrow> principal \<Rightarrow> uuid \<Rightarrow> string \<Rightarrow> datetime \<Rightarrow> event_ids \<Rightarrow>
   ('s wf_world, wf_error, wf_run_view) action" where
  "app_cancel port reg p run_id command_id now ids =
     bindA (on_store (locked_run port p run_id)) (\<lambda>r.
     bindA (on_store (readA (wp_has_processed_command port run_id ''cancel'' command_id))) (\<lambda>processed.
       if processed then returnA (view_from_run r)
       else
         bindA (liftA (find_version reg r)) (\<lambda>v.
         let active = filter (\<lambda>i. wn_status (wr_nodes r ! i) \<in> {WN_RUNNING, WN_ACCEPTED}) [0..<length (wr_nodes r)] in
         bindA (liftA (run_result (request_run_cancel now command_id ids) r)) (\<lambda>r'.
         bindA (on_store (saveA port r' (Some (receipt run_id ''cancel'' command_id)))) (\<lambda>_.
         bindA (modifyA (\<lambda>w. w\<lparr>ww_calls := ww_calls w
             @ cancel_calls p v command_id (map ((!) (wr_nodes r')) active)\<rparr>)) (\<lambda>_.
         returnA (view_from_run r')))))))"

end
