(* ===== verification/Capability.thy ===== *)
theory Capability
  imports Json
begin

text \<open>
  The entries of the capability catalog (\<open>app/platform/interaction/domain/capability.py\<close>) with every check of
  \<open>validate_capability\<close>, the attachment declarations of their input schemas
  (\<open>domain/attachment.py\<close>), and the registry of dispatch keys (\<open>application/dispatch.py\<close>).
\<close>

section \<open>Exceptions\<close>

datatype cap_error =
    CapabilityValidationError
  | AttachmentDeclarationError
  | CapabilityDispatchConfigurationError

section \<open>Attachment declarations\<close>

record attachment_field =
  af_field_name :: string
  af_allowed_media_types :: "string list"
  af_max_size_bytes :: int
  af_max_count :: int

definition dict_get :: "json \<Rightarrow> string \<Rightarrow> json option" where
  \<comment> \<open>\<open>value.get(key)\<close> of a mapping; a missing key and \<open>None\<close> are the same\<close>
  "dict_get value key = (case value of
     JObj d \<Rightarrow> (case map_of d key of None \<Rightarrow> None | Some JNull \<Rightarrow> None | Some v \<Rightarrow> Some v)
   | _ \<Rightarrow> None)"

fun positive_integer :: "json option \<Rightarrow> int option" where
  \<comment> \<open>the value when \<open>_is_positive_integer\<close> holds; a \<open>bool\<close> is none\<close>
  "positive_integer (Some (JInt n)) = (if 0 < n then Some n else None)"
| "positive_integer _ = None"

fun media_type_of :: "json \<Rightarrow> string option" where
  "media_type_of (JStr s) = (if py_strip s \<noteq> [] then Some (py_lower (py_strip s)) else None)"
| "media_type_of _ = None"

definition media_types_of :: "json option \<Rightarrow> cap_error + string list" where
  "media_types_of value = (case value of
     Some (JList ts) \<Rightarrow>
       let normalized = List.map_filter media_type_of ts in
       if ts = [] then Inl AttachmentDeclarationError
       else if length normalized \<noteq> length ts \<or> card (set normalized) \<noteq> length normalized
       then Inl AttachmentDeclarationError
       else Inr normalized
   | _ \<Rightarrow> Inl AttachmentDeclarationError)"

definition fits_count :: "json \<Rightarrow> int \<Rightarrow> bool" where
  \<comment> \<open>the schema type a declaration for that many attachments needs\<close>
  "fits_count field_schema max_count =
     (if max_count = 1 then dict_get field_schema ''type'' = Some (JStr ''string'')
      else dict_get field_schema ''type'' = Some (JStr ''array'')
        \<and> (case dict_get field_schema ''items'' of
             Some (JObj items) \<Rightarrow> dict_get (JObj items) ''type'' = Some (JStr ''string'')
           | _ \<Rightarrow> False))"

definition declared_attachment :: "string \<Rightarrow> json \<Rightarrow> cap_error + attachment_field option" where
  \<comment> \<open>one turn of the loop over the properties\<close>
  "declared_attachment name field_schema = (case field_schema of
     JObj _ \<Rightarrow> (case dict_get field_schema ''x-attachment'' of
         None \<Rightarrow> Inr None
       | Some (JObj ext) \<Rightarrow>
           bindE (media_types_of (dict_get (JObj ext) ''allowed_media_types'')) (\<lambda>types.
           case positive_integer (dict_get (JObj ext) ''max_size_bytes'') of
             None \<Rightarrow> Inl AttachmentDeclarationError
           | Some limit \<Rightarrow>
               (case positive_integer (dict_get (JObj ext) ''max_count'') of
                  None \<Rightarrow> Inl AttachmentDeclarationError
                | Some n \<Rightarrow>
                    if \<not> fits_count field_schema n then Inl AttachmentDeclarationError
                    else Inr (Some \<lparr>af_field_name = name, af_allowed_media_types = types,
                                    af_max_size_bytes = limit, af_max_count = n\<rparr>)))
       | Some _ \<Rightarrow> Inl AttachmentDeclarationError)
   | _ \<Rightarrow> Inr None)"

definition attachment_fields :: "json \<Rightarrow> cap_error + attachment_field list" where
  "attachment_fields input_schema = (case dict_get input_schema ''properties'' of
     Some (JObj properties) \<Rightarrow>
       bindE (mapE (\<lambda>(name, schema). declared_attachment name schema) properties) (\<lambda>ds.
         Inr (List.map_filter id ds))
   | _ \<Rightarrow> Inr [])"

fun is_lower_hex :: "char \<Rightarrow> bool" where
  "is_lower_hex c = (is_digit c \<or> 97 \<le> (of_char c :: nat) \<and> (of_char c :: nat) \<le> 102)"

definition is_opaque_id :: "string \<Rightarrow> bool" where
  "is_opaque_id s \<longleftrightarrow> length s = 32 \<and> list_all is_lower_hex s"

fun is_opaque_attachment_id :: "json \<Rightarrow> bool" where
  "is_opaque_attachment_id (JStr s) = is_opaque_id s"
| "is_opaque_attachment_id _ = False"

section \<open>Capabilities\<close>

definition is_safe_identifier :: "string \<Rightarrow> bool" where
  "is_safe_identifier s \<longleftrightarrow> is_identifier s"

definition capability_types :: "string set" where
  "capability_types = {''agent'', ''chat'', ''knowledge_qa'', ''policy_decision''}"

definition confirmation_policies :: "string set" where
  "confirmation_policies = {''always'', ''conditional'', ''never''}"

type_synonym permissions = "string set"

definition principal_permissions :: "string list \<Rightarrow> permissions" where
  \<comment> \<open>\<open>CapabilityPrincipal.from_permissions\<close>\<close>
  "principal_permissions ps = py_strip ` {p \<in> set ps. py_strip p \<noteq> []}"

record capability =
  pc_code :: string
  pc_type :: string
  pc_description :: string
  pc_input_schema :: json
  pc_output_schema :: json
  pc_required_fields :: "string list"
  pc_confirmation_policy :: string
  pc_permission :: "string list"
  pc_enabled :: bool
  pc_timeout_seconds :: int
  pc_error_boundary :: string
  pc_dispatch_key :: string
  pc_retrieval_metadata :: json
  pc_id :: "int option"
  pc_created_at :: "datetime option"
  pc_updated_at :: "datetime option"

fun is_object :: "json \<Rightarrow> bool" where
  "is_object (JObj _) = True"
| "is_object _ = False"

definition validate_dispatch_key :: "string \<Rightarrow> cap_error + unit" where
  "validate_dispatch_key key =
     (if \<not> is_safe_identifier key then Inl CapabilityValidationError else Inr ())"

definition check_required :: "json \<Rightarrow> string list \<Rightarrow> bool" where
  \<comment> \<open>every required field is a property, when properties are declared\<close>
  "check_required input_schema required = (case dict_get input_schema ''properties'' of
     Some (JObj properties) \<Rightarrow> set required \<subseteq> dict_keys properties
   | _ \<Rightarrow> True)"

definition validate_capability :: "capability \<Rightarrow> cap_error + unit" where
  "validate_capability c =
     (if \<not> is_safe_identifier (pc_code c) then Inl CapabilityValidationError
      else if pc_type c \<notin> capability_types then Inl CapabilityValidationError
      else if py_strip (pc_description c) = [] then Inl CapabilityValidationError
      else if \<not> is_object (pc_input_schema c) then Inl CapabilityValidationError
      else case attachment_fields (pc_input_schema c) of
        Inl _ \<Rightarrow> Inl CapabilityValidationError
      | Inr _ \<Rightarrow>
          if \<not> is_object (pc_output_schema c) then Inl CapabilityValidationError
          else if card (set (pc_required_fields c)) \<noteq> length (pc_required_fields c)
          then Inl CapabilityValidationError
          else if list_ex (\<lambda>f. py_strip f = []) (pc_required_fields c) then Inl CapabilityValidationError
          else if \<not> check_required (pc_input_schema c) (pc_required_fields c)
          then Inl CapabilityValidationError
          else if pc_confirmation_policy c \<notin> confirmation_policies then Inl CapabilityValidationError
          else if list_ex (\<lambda>p. py_strip p = []) (pc_permission c) then Inl CapabilityValidationError
          else if pc_timeout_seconds c < 1 \<or> 3600 < pc_timeout_seconds c then Inl CapabilityValidationError
          else if py_strip (pc_error_boundary c) = [] then Inl CapabilityValidationError
          else bindE (validate_dispatch_key (pc_dispatch_key c)) (\<lambda>_.
            if \<not> is_object (pc_retrieval_metadata c) then Inl CapabilityValidationError else Inr ()))"

definition mk_capability :: "capability \<Rightarrow> cap_error + capability" where
  "mk_capability c = bindE (validate_capability c) (\<lambda>_. Inr c)"

definition is_allowed :: "capability \<Rightarrow> permissions option \<Rightarrow> bool" where
  "is_allowed c p =
     (if pc_permission c = [] then True
      else case p of None \<Rightarrow> False | Some ps \<Rightarrow> set (pc_permission c) \<subseteq> ps)"

section \<open>Dispatch keys\<close>

record dispatch_binding =
  db_dispatch_key :: string
  db_type :: string
  db_is_class :: bool \<comment> \<open>whether \<open>use_case_type\<close> is a class\<close>

type_synonym dispatch_registry = "string \<rightharpoonup> dispatch_binding"

definition register :: "dispatch_registry \<Rightarrow> dispatch_binding \<Rightarrow> cap_error + dispatch_registry" where
  "register bindings b =
     (if bindings (db_dispatch_key b) \<noteq> None then Inl CapabilityDispatchConfigurationError
      else case validate_dispatch_key (db_dispatch_key b) of
        Inl _ \<Rightarrow> Inl CapabilityDispatchConfigurationError
      | Inr _ \<Rightarrow>
          if \<not> db_is_class b then Inl CapabilityDispatchConfigurationError
          else Inr (bindings(db_dispatch_key b \<mapsto> b)))"

fun register_all :: "dispatch_registry \<Rightarrow> dispatch_binding list \<Rightarrow> cap_error + dispatch_registry" where
  "register_all bindings [] = Inr bindings"
| "register_all bindings (b # bs) = bindE (register bindings b) (\<lambda>bindings. register_all bindings bs)"

definition new_dispatch_registry :: "dispatch_binding list \<Rightarrow> cap_error + dispatch_registry" where
  "new_dispatch_registry bs = register_all (\<lambda>_. None) bs"

definition validate_dispatch :: "dispatch_registry \<Rightarrow> capability \<Rightarrow> cap_error + dispatch_binding" where
  "validate_dispatch bindings c =
     bindE (validate_capability c) (\<lambda>_.
     case bindings (pc_dispatch_key c) of
       None \<Rightarrow> Inl CapabilityDispatchConfigurationError
     | Some b \<Rightarrow>
         if db_type b \<noteq> pc_type c then Inl CapabilityDispatchConfigurationError else Inr b)"

definition dispatch_contains :: "dispatch_registry \<Rightarrow> string \<Rightarrow> bool" where
  "dispatch_contains bindings key \<longleftrightarrow> bindings key \<noteq> None"

lemma validate_capability_iff [errE_simps]:
  "validate_capability c = Inr u \<longleftrightarrow>
     is_identifier (pc_code c) \<and> pc_type c \<in> capability_types \<and> py_strip (pc_description c) \<noteq> []
     \<and> is_object (pc_input_schema c) \<and> (\<exists>ds. attachment_fields (pc_input_schema c) = Inr ds)
     \<and> is_object (pc_output_schema c) \<and> distinct (pc_required_fields c)
     \<and> list_all (\<lambda>f. py_strip f \<noteq> []) (pc_required_fields c)
     \<and> check_required (pc_input_schema c) (pc_required_fields c)
     \<and> pc_confirmation_policy c \<in> confirmation_policies
     \<and> list_all (\<lambda>p. py_strip p \<noteq> []) (pc_permission c)
     \<and> 1 \<le> pc_timeout_seconds c \<and> pc_timeout_seconds c \<le> 3600 \<and> py_strip (pc_error_boundary c) \<noteq> []
     \<and> is_identifier (pc_dispatch_key c) \<and> is_object (pc_retrieval_metadata c)"
proof (cases "attachment_fields (pc_input_schema c)")
  case (Inl e)
  then show ?thesis by (simp add: validate_capability_def)
next
  case (Inr ds)
  have card: "card (set xs) = length xs \<longleftrightarrow> distinct xs" for xs :: "string list"
    using card_distinct distinct_card by blast
  show ?thesis
    unfolding validate_capability_def Inr sum.case validate_dispatch_key_def is_safe_identifier_def card
      list.pred_set list_ex_iff
    by (auto simp: errE_simps not_less)
qed

lemma validate_dispatch_iff [errE_simps]:
  "validate_dispatch bs c = Inr b \<longleftrightarrow>
     validate_capability c = Inr () \<and> bs (pc_dispatch_key c) = Some b \<and> db_type b = pc_type c"
  by (auto simp: validate_dispatch_def bindE_Inr_iff split: option.splits)

lemma register_Inr:
  "register m b = Inr m' \<Longrightarrow> m' = m(db_dispatch_key b \<mapsto> b) \<and> m (db_dispatch_key b) = None
     \<and> is_identifier (db_dispatch_key b) \<and> db_is_class b"
  by (auto simp: register_def validate_dispatch_key_def is_safe_identifier_def split: if_splits sum.splits)

lemma register_all_new:
  "register_all m bs = Inr m' \<Longrightarrow> dom m \<inter> db_dispatch_key ` set bs = {} \<and> distinct (map db_dispatch_key bs)"
proof (induction bs arbitrary: m)
  case (Cons b bs)
  from Cons.prems obtain m1 where 1: "register m b = Inr m1" "register_all m1 bs = Inr m'"
    by (auto simp: errE_simps)
  have "dom m1 = insert (db_dispatch_key b) (dom m)" "db_dispatch_key b \<notin> dom m"
    using register_Inr [OF 1(1)] by auto
  with Cons.IH [OF 1(2)] show ?case by auto
qed simp

lemma register_all_lookup:
  "register_all m bs = Inr m' \<Longrightarrow> m' k = Some b \<Longrightarrow> m k = Some b
     \<or> b \<in> set bs \<and> db_dispatch_key b = k \<and> is_identifier k \<and> db_is_class b"
proof (induction bs arbitrary: m)
  case (Cons c bs)
  from Cons.prems obtain m1 where 1: "register m c = Inr m1" "register_all m1 bs = Inr m'"
    by (auto simp: errE_simps)
  from register_Inr [OF 1(1)] Cons.IH [OF 1(2) Cons.prems(2)] show ?case by (auto split: if_splits)
qed simp

end
