(* ===== verification/Catalog.thy ===== *)
theory Catalog
  imports Capability Tables
begin

text \<open>
  The stored capability catalog: rows and constraints of \<open>platform_capability\<close>
  (\<open>app/infrastructure/persistence/models/platform_capability.py\<close>), the queries of its repository
  (\<open>repositories/platform_capability_repository.py\<close>), and the catalog service that refuses to answer
  while some row cannot be dispatched (\<open>app/platform/interaction/application/catalog.py\<close>).
\<close>

section \<open>The table\<close>

record capability_record =
  cr_id :: int
  cr_code :: string
  cr_type :: string
  cr_description :: string
  cr_input_schema :: json_dict
  cr_output_schema :: json_dict
  cr_required_fields :: "string list"
  cr_confirmation_policy :: string
  cr_permission :: "string list"
  cr_enabled :: bool
  cr_timeout_seconds :: int
  cr_error_boundary :: string
  cr_dispatch_key :: string
  cr_retrieval_metadata :: json_dict
  cr_created_at :: int
  cr_updated_at :: int

definition capability_row_ok :: "capability_record \<Rightarrow> bool" where
  "capability_row_ok r \<longleftrightarrow>
     cr_type r \<in> {''agent'', ''chat'', ''knowledge_qa'', ''policy_decision''}
     \<and> cr_confirmation_policy r \<in> {''always'', ''conditional'', ''never''}
     \<and> 1 \<le> cr_timeout_seconds r \<and> cr_timeout_seconds r \<le> 3600
     \<and> pg_btrim (cr_code r) \<noteq> [] \<and> pg_btrim (cr_description r) \<noteq> []
     \<and> is_identifier (cr_code r) \<and> pg_btrim (cr_dispatch_key r) \<noteq> []
     \<and> is_identifier (cr_dispatch_key r) \<and> pg_btrim (cr_error_boundary r) \<noteq> []"

definition capability_table_ok :: "capability_record list \<Rightarrow> bool" where
  "capability_table_ok rows \<longleftrightarrow>
     distinct (map cr_id rows) \<and> distinct (map cr_code rows) \<and> list_all capability_row_ok rows"

record capability_db =
  cdb_rows :: "capability_record list"
  cdb_collate :: "string \<Rightarrow> string" \<comment> \<open>the sort key of the collation\<close>

section \<open>The repository\<close>

definition to_capability :: "capability_record \<Rightarrow> cap_error + capability" where
  "to_capability r = mk_capability
     \<lparr>pc_code = cr_code r, pc_type = cr_type r, pc_description = cr_description r,
      pc_input_schema = JObj (cr_input_schema r), pc_output_schema = JObj (cr_output_schema r),
      pc_required_fields = cr_required_fields r, pc_confirmation_policy = cr_confirmation_policy r,
      pc_permission = cr_permission r, pc_enabled = cr_enabled r,
      pc_timeout_seconds = cr_timeout_seconds r, pc_error_boundary = cr_error_boundary r,
      pc_dispatch_key = cr_dispatch_key r, pc_retrieval_metadata = JObj (cr_retrieval_metadata r),
      pc_id = Some (cr_id r), pc_created_at = Some (Aware (cr_created_at r)),
      pc_updated_at = Some (Aware (cr_updated_at r))\<rparr>"

definition by_code :: "capability_db \<Rightarrow> capability_record list \<Rightarrow> capability_record list" where
  "by_code db = sort_key (\<lambda>r. cdb_collate db (cr_code r))"

definition repo_list_registered :: "capability_db \<Rightarrow> cap_error + capability list" where
  "repo_list_registered db = mapE to_capability (by_code db (cdb_rows db))"

definition repo_list_available ::
  "capability_db \<Rightarrow> string option \<Rightarrow> permissions option \<Rightarrow> cap_error + capability list" where
  "repo_list_available db type p =
     bindE (mapE to_capability (by_code db (filter (\<lambda>r. cr_enabled r
         \<and> (case type of None \<Rightarrow> True | Some t \<Rightarrow> cr_type r = t)) (cdb_rows db)))) (\<lambda>cs.
       Inr (filter (\<lambda>c. is_allowed c p) cs))"

definition repo_get_available ::
  "capability_db \<Rightarrow> string \<Rightarrow> permissions option \<Rightarrow> cap_error + capability option" where
  "repo_get_available db code p =
     (case filter (\<lambda>r. cr_code r = code \<and> cr_enabled r) (cdb_rows db) of
        [] \<Rightarrow> Inr None
      | r # _ \<Rightarrow> bindE (to_capability r) (\<lambda>c. Inr (if is_allowed c p then Some c else None)))"

section \<open>The catalog\<close>

definition is_dispatchable :: "dispatch_registry \<Rightarrow> capability \<Rightarrow> bool" where
  "is_dispatchable bindings c = (case validate_dispatch bindings c of Inl _ \<Rightarrow> False | Inr _ \<Rightarrow> True)"

definition validate_registered :: "dispatch_registry \<Rightarrow> capability_db \<Rightarrow> cap_error + unit" where
  "validate_registered bindings db =
     bindE (repo_list_registered db) (\<lambda>cs.
       if filter (\<lambda>c. \<not> is_dispatchable bindings c) cs \<noteq> []
       then Inl CapabilityDispatchConfigurationError else Inr ())"

definition list_available ::
  "dispatch_registry \<Rightarrow> capability_db \<Rightarrow> string option \<Rightarrow> string list \<Rightarrow> cap_error + capability list" where
  "list_available bindings db type ps =
     bindE (validate_registered bindings db) (\<lambda>_.
       repo_list_available db type (Some (principal_permissions ps)))"

definition get_available ::
  "dispatch_registry \<Rightarrow> capability_db \<Rightarrow> string \<Rightarrow> string list \<Rightarrow> cap_error + capability option" where
  "get_available bindings db code ps =
     bindE (validate_registered bindings db) (\<lambda>_.
       repo_get_available db code (Some (principal_permissions ps)))"

section \<open>What the catalog hands out\<close>

definition usable :: "dispatch_registry \<Rightarrow> string list \<Rightarrow> capability \<Rightarrow> bool" where
  \<comment> \<open>a valid, enabled capability, bound to a use case of its type, for which the permissions suffice\<close>
  "usable bindings ps c \<longleftrightarrow>
     validate_capability c = Inr () \<and> pc_enabled c \<and> set (pc_permission c) \<subseteq> principal_permissions ps
     \<and> (\<exists>b. bindings (pc_dispatch_key c) = Some b \<and> db_type b = pc_type c)"

lemma to_capability_Inr:
  "to_capability r = Inr c \<Longrightarrow> validate_capability c = Inr () \<and> pc_code c = cr_code r
     \<and> pc_enabled c = cr_enabled r \<and> pc_type c = cr_type r"
  by (auto simp: to_capability_def mk_capability_def bindE_Inr_iff)

lemma is_dispatchable_iff:
  "is_dispatchable bindings c \<longleftrightarrow> validate_capability c = Inr ()
     \<and> (\<exists>b. bindings (pc_dispatch_key c) = Some b \<and> db_type b = pc_type c)"
  using validate_dispatch_iff [of bindings c] unfolding is_dispatchable_def
  by (metis old.sum.exhaust sum.case(1) sum.case(2))

lemma mapE_Inr_image: "mapE f xs = Inr ys \<Longrightarrow> x \<in> set xs \<Longrightarrow> \<exists>y \<in> set ys. f x = Inr y"
  by (induction xs arbitrary: ys) (auto simp: errE_simps)

lemma validate_registered_rows:
  assumes "validate_registered bindings db = Inr u" "r \<in> set (cdb_rows db)" "to_capability r = Inr c"
  shows "is_dispatchable bindings c"
proof -
  from assms(1) obtain cs where cs: "mapE to_capability (by_code db (cdb_rows db)) = Inr cs"
    "filter (\<lambda>c. \<not> is_dispatchable bindings c) cs = []"
    by (auto simp: validate_registered_def repo_list_registered_def errE_simps split: if_splits)
  have "r \<in> set (by_code db (cdb_rows db))" using assms(2) by (simp add: by_code_def)
  from mapE_Inr_image [OF cs(1) this] assms(3) have "c \<in> set cs" by auto
  with cs(2) show ?thesis by (auto simp: filter_empty_conv)
qed

lemma is_allowed_Some: "is_allowed c (Some ps) \<longleftrightarrow> set (pc_permission c) \<subseteq> ps"
  by (auto simp: is_allowed_def)

lemma usableI:
  assumes "validate_registered bindings db = Inr u" "r \<in> set (cdb_rows db)" "to_capability r = Inr c"
    "cr_enabled r" "is_allowed c (Some (principal_permissions ps))"
  shows "usable bindings ps c"
  using validate_registered_rows [OF assms(1-3)] to_capability_Inr [OF assms(3)] assms(4,5)
  by (simp add: usable_def is_dispatchable_iff is_allowed_Some)

lemma get_available_usable:
  assumes "get_available bindings db code ps = Inr (Some c)"
  shows "usable bindings ps c" "pc_code c = code"
proof -
  from assms obtain u where u: "validate_registered bindings db = Inr u"
    and g: "repo_get_available db code (Some (principal_permissions ps)) = Inr (Some c)"
    by (auto simp: get_available_def errE_simps)
  from g obtain r rs where r: "filter (\<lambda>r. cr_code r = code \<and> cr_enabled r) (cdb_rows db) = r # rs"
    "to_capability r = Inr c" "is_allowed c (Some (principal_permissions ps))"
    by (auto simp: repo_get_available_def errE_simps split: list.splits if_splits)
  have "r \<in> set (filter (\<lambda>r. cr_code r = code \<and> cr_enabled r) (cdb_rows db))" by (simp add: r(1))
  then have row: "r \<in> set (cdb_rows db)" "cr_enabled r" "cr_code r = code" by auto
  show "usable bindings ps c" by (rule usableI [OF u row(1) r(2) row(2) r(3)])
  show "pc_code c = code" using to_capability_Inr [OF r(2)] row(3) by simp
qed

lemma list_available_usable:
  assumes "list_available bindings db type ps = Inr cs" "c \<in> set cs"
  shows "usable bindings ps c" "case type of None \<Rightarrow> True | Some t \<Rightarrow> pc_type c = t"
proof -
  let ?wanted = "\<lambda>r. cr_enabled r \<and> (case type of None \<Rightarrow> True | Some t \<Rightarrow> cr_type r = t)"
  from assms(1) obtain u cs0 where u: "validate_registered bindings db = Inr u"
    and cs0: "mapE to_capability (by_code db (filter ?wanted (cdb_rows db))) = Inr cs0"
    and cs: "cs = filter (\<lambda>c. is_allowed c (Some (principal_permissions ps))) cs0"
    by (auto simp: list_available_def repo_list_available_def errE_simps)
  from assms(2) cs have c: "c \<in> set cs0" "is_allowed c (Some (principal_permissions ps))" by auto
  from mapE_Inr_set [OF cs0 c(1)] obtain r where r: "r \<in> set (cdb_rows db)" "?wanted r" "to_capability r = Inr c"
    by (auto simp: by_code_def)
  show "usable bindings ps c" by (rule usableI [OF u r(1,3) _ c(2)]) (use r(2) in simp)
  show "case type of None \<Rightarrow> True | Some t \<Rightarrow> pc_type c = t"
    using r(2) to_capability_Inr [OF r(3)] by (auto split: option.splits)
qed

end
