(* ===== verification/Workflow_Registry.thy ===== *)
theory Workflow_Registry
  imports Workflow_Application Catalog
begin

text \<open>
  The registry of workflow versions (\<open>app/platform/workflow/application/registry.py\<close>): a dictionary from
  \<open>code:version\<close> to versions, filled once, each version checked against the capability catalog. The
  catalog is its answer to \<open>get_available\<close>, so that it may change between calls; its errors are
  \<open>ValueError\<close>s. Versions are compared by value where the code compares objects.

  The contract the application relies on is a locale, interpreted here.
\<close>

type_synonym catalog_port = "string \<Rightarrow> string list \<Rightarrow> cap_error + capability option"

record definition_registry =
  dr_versions :: "(string \<times> wf_version) list"
  dr_permissions :: "string list"

definition look_up :: "catalog_port \<Rightarrow> string \<Rightarrow> string list \<Rightarrow> wf_error + capability option" where
  "look_up catalog code ps = (case catalog code ps of Inl _ \<Rightarrow> Inl WfValueError | Inr c \<Rightarrow> Inr c)"

definition declared_in :: "string list \<Rightarrow> json \<Rightarrow> bool" where
  \<comment> \<open>\<open>set(names).issubset(schema["properties"])\<close>, where properties are declared\<close>
  "declared_in names schema = (case dict_get schema ''properties'' of
     Some (JObj properties) \<Rightarrow> set names \<subseteq> dict_keys properties | _ \<Rightarrow> True)"

definition validate_node :: "catalog_port \<Rightarrow> string list \<Rightarrow> wf_node_def \<Rightarrow> unit \<Rightarrow> wf_error + unit" where
  "validate_node catalog ps d u =
     bindE (look_up catalog (nd_capability_code d) ps) (\<lambda>found.
     case found of
       None \<Rightarrow> Inl WorkflowValidationError
     | Some c \<Rightarrow>
         if \<not> pc_enabled c then Inl WorkflowValidationError
         else if pc_code c \<noteq> nd_capability_code d then Inl WorkflowValidationError
         else if \<not> declared_in (nd_input_fields d) (pc_input_schema c) then Inl WorkflowValidationError
         else if \<not> set (pc_required_fields c) \<subseteq> set (nd_input_fields d) then Inl WorkflowValidationError
         else if \<not> declared_in (nd_output_fields d) (pc_output_schema c) then Inl WorkflowValidationError
         else Inr ())"

definition validate_version :: "catalog_port \<Rightarrow> string list \<Rightarrow> wf_version \<Rightarrow> wf_error + unit" where
  "validate_version catalog ps v = foldE (validate_node catalog ps) (wv_nodes v) ()"

definition add_version ::
  "catalog_port \<Rightarrow> string list \<Rightarrow> wf_version \<Rightarrow> (string \<times> wf_version) list \<Rightarrow> wf_error + (string \<times> wf_version) list" where
  "add_version catalog ps v vs =
     (if map_of vs (version_key v) \<noteq> None then Inl WorkflowValidationError
      else bindE (validate_version catalog ps v) (\<lambda>_. Inr (vs @ [(version_key v, v)])))"

definition new_registry :: "catalog_port \<Rightarrow> string list \<Rightarrow> wf_version list \<Rightarrow> wf_error + definition_registry" where
  "new_registry catalog ps versions =
     bindE (foldE (add_version catalog ps) versions []) (\<lambda>vs. Inr \<lparr>dr_versions = vs, dr_permissions = ps\<rparr>)"

definition registry_get :: "definition_registry \<Rightarrow> string \<Rightarrow> string \<Rightarrow> wf_version option" where
  "registry_get R code version = map_of (dr_versions R) (code @ '':'' @ version)"

definition registry_validate :: "catalog_port \<Rightarrow> definition_registry \<Rightarrow> wf_error + unit" where
  "registry_validate catalog R =
     foldE (\<lambda>kv _. validate_version catalog (dr_permissions R) (snd kv)) (dr_versions R) ()"

definition validate_access ::
  "catalog_port \<Rightarrow> definition_registry \<Rightarrow> wf_version \<Rightarrow> string list \<Rightarrow> wf_error + unit" where
  "validate_access catalog R v ps =
     (if map_of (dr_versions R) (version_key v) \<noteq> Some v then Inl WorkflowValidationError
      else foldE (\<lambda>d _. bindE (look_up catalog (nd_capability_code d) ps) (\<lambda>found.
             if found = None then Inl WfPermissionError else Inr ())) (wv_nodes v) ())"

definition registry_port :: "catalog_port \<times> definition_registry \<Rightarrow> wf_registry" where
  "registry_port R = \<lparr>rg_get = registry_get (snd R), rg_validate_access = validate_access (fst R) (snd R)\<rparr>"

section \<open>The contract\<close>

locale workflow_registry =
  fixes registry :: "'t \<Rightarrow> wf_registry"
    and sound :: "'t \<Rightarrow> bool"
  assumes get_version: "sound R \<Longrightarrow> rg_get (registry R) code version = Some v \<Longrightarrow>
      version_ok v \<and> wv_workflow_code v = code \<and> wv_version v = version"

definition registry_ok :: "catalog_port \<times> definition_registry \<Rightarrow> bool" where
  "registry_ok R \<longleftrightarrow> distinct (map fst (dr_versions (snd R)))
     \<and> (\<forall>(k, v) \<in> set (dr_versions (snd R)). k = version_key v \<and> version_ok v)"

lemma identifier_no_colon: "is_identifier s \<Longrightarrow> CHR '':'' \<notin> set s"
  using is_identifier_chars [of s "CHR '':''"] by (auto simp: is_lower_def is_digit_def)

lemma split_at:
  "a @ x # b = c @ x # d \<Longrightarrow> x \<notin> set c \<Longrightarrow> x \<notin> set d \<Longrightarrow> a = c \<and> b = d"
proof (induction a arbitrary: c)
  case Nil
  then show ?case by (cases c) auto
next
  case (Cons y a)
  then show ?case by (cases c) auto
qed

lemma version_ok_identifiers: "version_ok v \<Longrightarrow> is_identifier (wv_workflow_code v) \<and> is_identifier (wv_version v)"
  by (auto simp: version_ok_def mk_version_def errE_simps Let_def split: if_splits)
    (metis wf_version.select_convs(1,2))+

lemma version_key_unique:
  assumes "version_ok v" "code @ '':'' @ version = version_key v"
  shows "wv_workflow_code v = code" "wv_version v = version"
proof -
  have "CHR '':'' \<notin> set (wv_workflow_code v)" "CHR '':'' \<notin> set (wv_version v)"
    using version_ok_identifiers [OF assms(1)] identifier_no_colon by blast+
  moreover have "code @ CHR '':'' # version = wv_workflow_code v @ CHR '':'' # wv_version v"
    using assms(2) by (simp add: version_key_def)
  ultimately show "wv_workflow_code v = code" "wv_version v = version"
    using split_at by metis+
qed

interpretation wr: workflow_registry registry_port registry_ok
proof
  fix R code version v
  assume R: "registry_ok R" and get: "rg_get (registry_port R) code version = Some v"
  from get have "(code @ '':'' @ version, v) \<in> set (dr_versions (snd R))"
    by (auto simp: registry_port_def registry_get_def dest: map_of_SomeD)
  with R have v: "code @ '':'' @ version = version_key v" "version_ok v" by (auto simp: registry_ok_def)
  then show "version_ok v \<and> wv_workflow_code v = code \<and> wv_version v = version"
    using version_key_unique [OF v(2,1)] by simp
qed

section \<open>A registry that was built is sound\<close>

lemma add_version_Inr:
  "add_version catalog ps v vs = Inr vs' \<Longrightarrow>
     vs' = vs @ [(version_key v, v)] \<and> version_key v \<notin> fst ` set vs \<and> validate_version catalog ps v = Inr ()"
  by (auto simp: add_version_def errE_simps map_of_eq_None_iff split: if_splits)

lemma add_versions_Inr:
  "foldE (add_version catalog ps) versions vs = Inr vs' \<Longrightarrow> distinct (map fst vs) \<Longrightarrow>
     vs' = vs @ map (\<lambda>v. (version_key v, v)) versions \<and> distinct (map fst vs')
     \<and> (\<forall>v \<in> set versions. validate_version catalog ps v = Inr ())"
proof (induction versions arbitrary: vs)
  case (Cons v versions)
  then obtain vs1 where 1: "add_version catalog ps v vs = Inr vs1"
    "foldE (add_version catalog ps) versions vs1 = Inr vs'" by (auto simp: errE_simps)
  note add = add_version_Inr [OF 1(1)]
  have "distinct (map fst vs1)" using add Cons.prems(2) by auto
  note ih = Cons.IH [OF 1(2) this]
  show ?case
  proof (intro conjI)
    show "distinct (map fst vs')" using ih by blast
  qed (use add ih in simp_all)
qed simp

lemma new_registry_ok:
  assumes "new_registry catalog ps versions = Inr R" "list_all version_ok versions"
  shows "registry_ok (catalog, R)"
    "\<And>v. v \<in> set versions \<Longrightarrow> registry_get R (wv_workflow_code v) (wv_version v) = Some v"
    "\<And>v. v \<in> set versions \<Longrightarrow> validate_version catalog ps v = Inr ()"
proof -
  from assms(1) obtain vs where vs: "foldE (add_version catalog ps) versions [] = Inr vs"
    "R = \<lparr>dr_versions = vs, dr_permissions = ps\<rparr>" by (auto simp: new_registry_def errE_simps)
  from add_versions_Inr [OF vs(1)] have facts: "vs = map (\<lambda>v. (version_key v, v)) versions"
    "distinct (map fst vs)" "\<forall>v \<in> set versions. validate_version catalog ps v = Inr ()" by auto
  then show "registry_ok (catalog, R)" using assms(2) vs(2) by (auto simp: registry_ok_def list_all_iff)
  from facts(3) show "\<And>v. v \<in> set versions \<Longrightarrow> validate_version catalog ps v = Inr ()" by blast
  fix v assume "v \<in> set versions"
  then have "(version_key v, v) \<in> set vs" by (auto simp: facts(1))
  with facts(2) have "map_of vs (version_key v) = Some v" by (rule map_of_is_SomeI)
  then show "registry_get R (wv_workflow_code v) (wv_version v) = Some v"
    by (simp add: registry_get_def version_key_def vs(2))
qed

end
