(* ===== verification/Results.thy ===== *)
theory Results
  imports Actions
begin

text \<open>
  What an action may result in: a predicate on the state it leaves and on the value or the error it ends
  with, with a rule per construct, so that a use case is taken apart along its text.
\<close>

named_theorems results_intros \<open>rules that follow an action to its results\<close>

definition results :: "('s \<Rightarrow> 'e + 'a \<Rightarrow> bool) \<Rightarrow> ('s, 'e, 'a) action \<Rightarrow> 's \<Rightarrow> bool" where
  "results Q m s \<longleftrightarrow> Q (fst (m s)) (snd (m s))"

lemma resultsD: "results Q m s \<Longrightarrow> m s = (s', x) \<Longrightarrow> Q s' x"
  by (simp add: results_def)

lemma resultsI: "(\<And>s' x. m s = (s', x) \<Longrightarrow> Q s' x) \<Longrightarrow> results Q m s"
  by (simp add: results_def)

lemma results_mono: "results P m s \<Longrightarrow> (\<And>s' x. P s' x \<Longrightarrow> Q s' x) \<Longrightarrow> results Q m s"
  by (simp add: results_def)

lemma results_returnA [results_intros]: "Q s (Inr x) \<Longrightarrow> results Q (returnA x) s"
  by (simp add: results_def)

lemma results_return_bind [results_intros]: "results Q (f x) s \<Longrightarrow> results Q (bindA (returnA x) f) s"
  by (simp add: results_def)

lemma results_raise [results_intros]: "Q s (Inl e) \<Longrightarrow> results Q (liftA (Inl e)) s"
  by (simp add: results_def)

lemma results_lift [results_intros]:
  "(\<And>e. m = Inl e \<Longrightarrow> Q s (Inl e)) \<Longrightarrow> (\<And>y. m = Inr y \<Longrightarrow> results Q (f y) s) \<Longrightarrow>
   results Q (bindA (liftA m) f) s"
  by (cases m) (simp_all add: results_def)

lemma results_read:
  "(\<And>e. g s = Inl e \<Longrightarrow> Q s (Inl e)) \<Longrightarrow> (\<And>y. g s = Inr y \<Longrightarrow> results Q (f y) s) \<Longrightarrow>
   results Q (bindA (readA g) f) s"
  by (cases "g s") (simp_all add: results_def bindA_def)

lemma results_modify [results_intros]:
  "results Q (f ()) (g s) \<Longrightarrow> results Q (bindA (modifyA g) f) s"
  by (simp add: results_def bindA_def)

lemma results_bind:
  "results (\<lambda>s' x. case x of Inl e \<Rightarrow> Q s' (Inl e) | Inr y \<Rightarrow> results Q (f y) s') m s \<Longrightarrow>
   results Q (bindA m f) s"
  by (auto simp: results_def bindA_def split: prod.splits sum.splits)

lemma results_step: "m s = (s1, Inr y) \<Longrightarrow> results Q (f y) s1 \<Longrightarrow> results Q (bindA m f) s"
  by (simp add: results_def bindA_def)

lemma results_if [results_intros]:
  "(b \<Longrightarrow> results Q m s) \<Longrightarrow> (\<not> b \<Longrightarrow> results Q k s) \<Longrightarrow> results Q (if b then m else k) s"
  by simp

lemma results_option [results_intros]:
  "(z = None \<Longrightarrow> results Q m s) \<Longrightarrow> (\<And>y. z = Some y \<Longrightarrow> results Q (k y) s) \<Longrightarrow>
   results Q (case z of None \<Rightarrow> m | Some y \<Rightarrow> k y) s"
  by (cases z) simp_all

end
