(* ===== verification/Workflow_Service.thy ===== *)
theory Workflow_Service
  imports Workflow_Growth Workflow_Port Workflow_Registry Results
begin

text \<open>
  What a workflow command does to the store, proved inside the contracts of the repository and of the
  registry: it changes at most the run it names, by one operation of that run, or nothing. The second
  half of an execution either finds the run as the first half left it, or is refused.
\<close>

section \<open>Fresh identifiers\<close>

definition new_positions :: "wf_run \<Rightarrow> nat set" where
  \<comment> \<open>the sequence numbers of the events one operation may log\<close>
  "new_positions r = {length (wr_events r) + 1..length (wr_events r) + length (wr_nodes r) + 2}"

definition new_ids_ok :: "uuid set \<Rightarrow> wf_run \<Rightarrow> event_ids \<Rightarrow> bool" where
  \<comment> \<open>the UUIDs given for them are different and unused\<close>
  "new_ids_ok U r ids \<longleftrightarrow> inj_on ids (new_positions r) \<and> ids ` new_positions r \<inter> U = {}"

definition command_tags :: "string \<Rightarrow> wf_run \<Rightarrow> string set" where
  \<comment> \<open>the transition ids a command may log\<close>
  "command_tags c r = {c, c @ '':start'', c @ '':run-start'', c @ '':accept'', c @ '':run-accepted'',
     c @ '':succeed'', c @ '':reject-input'', c @ '':run-failed'', c @ '':fail'', c @ '':skip'',
     c @ '':run-cancel-requested'', c @ '':complete'', c @ '':confirm''}
     \<union> (\<lambda>n. c @ '':'' @ wn_node_id n @ '':cancel'') ` set (wr_nodes r)"

definition command_fresh :: "string \<Rightarrow> wf_run \<Rightarrow> bool" where
  \<comment> \<open>the command id has not been used in the run\<close>
  "command_fresh c r \<longleftrightarrow> pg_btrim c \<noteq> [] \<and> command_tags c r \<inter> logged_tags r = {}"

fun op_command :: "wf_op \<Rightarrow> string" where
  "op_command (WO_start i now c) = c"
| "op_command (WO_accept i ref now c) = c"
| "op_command (WO_succeed i s fp outs now c) = c"
| "op_command (WO_reject i code now c) = c"
| "op_command (WO_fail i code re now c) = c"
| "op_command (WO_skip i reason now c) = c"
| "op_command (WO_cancel now c) = c"
| "op_command (WO_confirm i now c) = c"

lemma op_tags_command: "set (op_tags opr r) \<subseteq> command_tags (op_command opr) r"
  by (cases opr) (auto simp: command_tags_def)

lemma command_fresh_op: "command_fresh c r \<Longrightarrow> op_command opr = c \<Longrightarrow> wf_op_fresh opr r"
  using op_tags_command [of opr r] unfolding wf_op_fresh_def command_fresh_def logged_tags_def by blast

lemma exec_new_ids:
  assumes ex: "wf_exec v opr ids r = (r', Inr u)" and ok: "new_ids_ok U r ids"
    and dis: "distinct (map we_id (wr_events r))" and sub: "event_id_set r \<subseteq> U"
  shows "distinct (map we_id (wr_events r'))" "(event_id_set r' - event_id_set r) \<inter> U = {}"
    "\<And>e. e \<in> set (drop (length (wr_events r)) (wr_events r')) \<Longrightarrow> we_id e \<notin> U"
proof -
  from wf_exec_grows [OF ex] obtain es where es: "wr_events r' = wr_events r @ es"
    "length es \<le> length (wr_nodes r) + 2"
    "\<And>i. i < length es \<Longrightarrow> we_id (es ! i) = ids (length (wr_events r) + i + 1)" by blast
  have pos: "length (wr_events r) + i + 1 \<in> new_positions r" if "i < length es" for i
    using that es(2) by (simp add: new_positions_def)
  have inj: "inj_on ids (new_positions r)" and out: "ids ` new_positions r \<inter> U = {}"
    using ok by (simp_all add: new_ids_ok_def)
  have fresh: "we_id e \<notin> U" if "e \<in> set es" for e
  proof -
    from that obtain i where i: "i < length es" "es ! i = e" by (auto simp: in_set_conv_nth)
    with es(3) [OF i(1)] imageI [OF pos [OF i(1)], of ids] out show ?thesis by auto
  qed
  have "distinct (map we_id es)"
    unfolding distinct_conv_nth
  proof (intro allI impI)
    fix i j assume ij: "i < length (map we_id es)" "j < length (map we_id es)" "i \<noteq> j"
    then have "ids (length (wr_events r) + i + 1) \<noteq> ids (length (wr_events r) + j + 1)"
      using inj_on_eq_iff [OF inj pos pos, of i j] by simp
    with ij es(3) show "map we_id es ! i \<noteq> map we_id es ! j" by simp
  qed
  with dis fresh sub show "distinct (map we_id (wr_events r'))"
    by (auto simp: es(1) event_id_set_def)
  from fresh show "(event_id_set r' - event_id_set r) \<inter> U = {}"
    by (auto simp: event_id_set_def es(1))
  from fresh show "\<And>e. e \<in> set (drop (length (wr_events r)) (wr_events r')) \<Longrightarrow> we_id e \<notin> U"
    by (simp add: es(1))
qed

lemma exec_evolves: "wf_exec v opr ids r = (r', x) \<Longrightarrow> run_evolves r r'"
  by (rule leadsD [OF wf_exec_evolves])

lemma exec_keys:
  assumes "wf_exec v opr ids r = (r', x)"
  shows "wr_id r' = wr_id r" "wr_owner_subject r' = wr_owner_subject r"
    "wr_workflow_code r' = wr_workflow_code r" "wr_workflow_version r' = wr_workflow_version r"
  using exec_evolves [OF assms] unfolding run_evolves_def by blast+

lemma log_event_tags:
  "log_event ids t ty now md a = (b, Inr x) \<Longrightarrow> logged_tags b \<subseteq> logged_tags a \<union> {t}"
  by (auto simp: log_event_def Let_def errE_simps logged_tags_def mk_wf_event_returns split: option.splits)

lemma log_existing_tags:
  "log_existing ids ev a = (b, Inr x) \<Longrightarrow> logged_tags b \<subseteq> logged_tags a \<union> {we_transition_id ev}"
  by (auto simp: log_existing_def Let_def errE_simps logged_tags_def mk_wf_event_returns split: if_splits)

lemma wf_op_freshI: "(\<And>x. x \<in> set (op_tags opr r) \<Longrightarrow> x \<notin> logged_tags r) \<Longrightarrow> wf_op_fresh opr r"
  unfolding wf_op_fresh_def logged_tags_def by blast

lemma start_node_tags:
  assumes "start_node v nid now c ids r = (r', Inr ev)"
  shows "logged_tags r' \<subseteq> logged_tags r \<union> {c @ '':start'', c @ '':run-start''}"
proof -
  from assms obtain i n r1 r2 u1 u2 u3 where
    n: "node_start now (c @ '':start'') (Some (wr_id r)) (ids 0) (wr_nodes r ! i) = (n, Inr ev)"
    and r1: "whenA (\<lambda>r. wr_status r = WR_QUEUED)
       (thenA (modifyA (\<lambda>r. r\<lparr>wr_status := WR_RUNNING\<rparr>))
       (thenA (log_event ids (c @ '':run-start'') RUN_STARTED now []) (returnA ())))
       (r\<lparr>wr_nodes := (wr_nodes r)[i := n]\<rparr>) = (r1, Inr u1)"
    and r2: "log_existing ids ev r1 = (r2, Inr u2)" "set_updated now r2 = (r', Inr u3)"
    unfolding start_node_def bindA_Inr_iff readA_Inr_iff liftA_Inr_iff on_node_Inr_iff returnA_Inr_iff check_open_Inr by blast
  have ev: "we_transition_id ev = c @ '':start''" by (rule node_method_tag(1) [OF n])
  have "logged_tags r1 \<subseteq> logged_tags r \<union> {c @ '':run-start''}"
  proof (cases "wr_status r = WR_QUEUED")
    case True
    with r1 obtain e where "log_event ids (c @ '':run-start'') RUN_STARTED now []
        (r\<lparr>wr_nodes := (wr_nodes r)[i := n], wr_status := WR_RUNNING\<rparr>) = (r1, Inr e)"
      unfolding whenA_Inr_iff thenA_Inr_iff modifyA_Inr_iff returnA_Inr_iff by auto
    from log_event_tags [OF this] show ?thesis by (simp add: logged_tags_def)
  next
    case False
    with r1 have "r1 = r\<lparr>wr_nodes := (wr_nodes r)[i := n]\<rparr>" unfolding whenA_Inr_iff by simp
    then show ?thesis by (auto simp: logged_tags_def)
  qed
  moreover note log_existing_tags [OF r2(1)]
  moreover have "logged_tags r' = logged_tags r2"
    using r2(2) by (auto simp: set_updated_def errE_simps logged_tags_def)
  ultimately show ?thesis unfolding ev by blast
qed

lemma started_fresh:
  \<comment> \<open>starting a node leaves the transition ids of its outcome free\<close>
  assumes "command_fresh c r" "start_node v nid now c ids r = (r', Inr ev)"
  shows "wf_op_fresh (WO_succeed i s fp outs t c) r'" "wf_op_fresh (WO_accept i ref t c) r'"
    "wf_op_fresh (WO_fail i code re t c) r'"
proof -
  have free: "x \<notin> logged_tags r'" if "x \<in> command_tags c r" "x \<notin> {c @ '':start'', c @ '':run-start''}" for x
    using that assms(1) start_node_tags [OF assms(2)] unfolding command_fresh_def by blast
  note tags = command_tags_def
  show "wf_op_fresh (WO_succeed i s fp outs t c) r'" "wf_op_fresh (WO_accept i ref t c) r'"
    "wf_op_fresh (WO_fail i code re t c) r'"
    by (rule wf_op_freshI, rule free; force simp: tags)+
qed

section \<open>Outcomes\<close>

lemma run_result_Inr: "run_result m r = Inr r' \<longleftrightarrow> (\<exists>x. m r = (r', Inr x))"
  by (auto simp: run_result_def split: prod.splits sum.splits)

lemma bindA_Inl_iff:
  "bindA m f s = (t, Inl e) \<longleftrightarrow> m s = (t, Inl e) \<or> (\<exists>s' x. m s = (s', Inr x) \<and> f x s' = (t, Inl e))"
  by (auto simp: bindA_def split: prod.splits sum.splits)

lemma node_succeed_status:
  assumes n: "node_succeed s fp outs now c rid eid n0 = (n, x)"
  shows "n = n0 \<and> (\<exists>e. x = Inl e \<and> e \<noteq> WorkflowValidationError) \<or> wn_status n = WN_SUCCEEDED"
proof (cases "wn_status n0 \<in> {WN_RUNNING, WN_ACCEPTED}")
  case True
  then have "\<not> wn_status n0 \<notin> {WN_RUNNING, WN_ACCEPTED}" by simp
  then have "wn_status (fst (node_succeed s fp outs now c rid eid n0)) = WN_SUCCEEDED"
    unfolding node_succeed_def if_not_P [OF \<open>\<not> wn_status n0 \<notin> _\<close>] Let_def
    by (cases "wf_text s"; cases "wf_fingerprint fp"; cases "wf_utc now") (simp_all add: bindA_def liftA_def)
  with n show ?thesis by simp
next
  case False
  from n [unfolded node_succeed_def if_P [OF this]] show ?thesis by (auto split: if_splits)
qed

lemma succeed_raises_cases:
  \<comment> \<open>a refused success has left the run alone, or the node succeeded\<close>
  assumes "succeed_node v nid s fp outs now c ids r = (r', Inl e)" "e = WorkflowValidationError"
  shows "r' = r \<or> (\<exists>i. node_index nid r = Inr i \<and> wn_status (wr_nodes r' ! i) = WN_SUCCEEDED
    \<and> map wn_node_id (wr_nodes r') = map wn_node_id (wr_nodes r))"
proof -
  show ?thesis
  proof (cases "node_index nid r")
    case (Inl e1)
    with assms(1) show ?thesis by (simp add: succeed_node_def bindA_def)
  next
    case (Inr i)
    let ?body = "bindA (on_node i (\<lambda>rid. node_succeed s fp outs now (c @ '':succeed'') rid (ids 0))) (\<lambda>event.
         bindA (log_existing ids event) (\<lambda>_. bindA (refresh_status now c ids) (\<lambda>_. returnA event)))"
    have i: "i < length (wr_nodes r)" using node_index_Inr [OF Inr] by blast
    define body where "body = ?body"
    have "succeed_node v nid s fp outs now c ids =
       bindA (readA (node_index nid)) (\<lambda>i.
       bindA (liftA (version_node v nid)) (\<lambda>d.
       bindA (liftA (check_outputs d outs)) (\<lambda>_.
       bindA (readA (\<lambda>r. let n = wr_nodes r ! i in
         if wn_status n \<noteq> WN_SUCCEEDED then Inr None
         else if wn_result_summary n \<noteq> Some s \<or> wn_output_fingerprint n \<noteq> fp
         then Inl WorkflowIdempotencyConflictError
         else if \<not> same_dict (output_references nid r) outs then Inl WorkflowIdempotencyConflictError
         else Inr (find_latest_node_event nid NODE_SUCCEEDED r))) (\<lambda>existing.
       case existing of Some ev \<Rightarrow> returnA ev
       | None \<Rightarrow> bindA (on_node i (\<lambda>rid. node_succeed s fp outs now (c @ '':succeed'') rid (ids 0))) (\<lambda>event.
         bindA (log_existing ids event) (\<lambda>_. bindA (refresh_status now c ids) (\<lambda>_. returnA event)))))))"
      by (simp add: succeed_node_def)
    with assms(1) Inr have "r' = r \<or> body r = (r', Inl e)"
      unfolding body_def [symmetric]
      by (auto simp: bindA_Inl_iff body_def [symmetric] split: option.splits if_splits)
    then consider "r' = r" | "?body r = (r', Inl e)" unfolding body_def by blast
    then show ?thesis
    proof cases
      case 2
      obtain n x where n: "node_succeed s fp outs now (c @ '':succeed'') (Some (wr_id r)) (ids 0) (wr_nodes r ! i) = (n, x)"
        by fastforce
      let ?r1 = "r\<lparr>wr_nodes := (wr_nodes r)[i := n]\<rparr>"
      have on: "on_node i (\<lambda>rid. node_succeed s fp outs now (c @ '':succeed'') rid (ids 0)) r = (?r1, x)"
        by (simp add: on_node_def n)
      have st: "n = wr_nodes r ! i \<and> (\<exists>e'. x = Inl e' \<and> e' \<noteq> WorkflowValidationError) \<or> wn_status n = WN_SUCCEEDED"
        by (rule node_succeed_status [OF n])
      show ?thesis
      proof (cases x)
        case (Inl e')
        with 2 on have "r' = ?r1" "e' = e" by (auto simp: bindA_def)
        with st Inl assms(2) have "wn_status n = WN_SUCCEEDED" by auto
        moreover have "wn_node_id n = wn_node_id (wr_nodes r ! i)"
          using leadsD [OF node_methods_evolve(3) n] by (simp add: node_evolves_def)
        ultimately show ?thesis using \<open>r' = ?r1\<close> i Inr
          by (auto simp: map_update list_update_same_conv intro!: exI [of _ i])
      next
        case (Inr event)
        have sn: "wn_status n = WN_SUCCEEDED" using st Inr by auto
        have id: "wn_node_id n = wn_node_id (wr_nodes r ! i)"
          using leadsD [OF node_methods_evolve(3) n] by (simp add: node_evolves_def)
        have evol: "leads run_evolves (bindA (log_existing ids event) (\<lambda>_. bindA (refresh_status now c ids) (\<lambda>_. returnA event)))"
          by (intro leads_intros)
        have step: "bindA (on_node i (\<lambda>rid. node_succeed s fp outs now (c @ '':succeed'') rid (ids 0))) f r = f event ?r1"
          for f :: "wf_event \<Rightarrow> wf_event wf_run_action"
          using on Inr by (simp add: bindA_def)
        have "bindA (log_existing ids event) (\<lambda>_. bindA (refresh_status now c ids) (\<lambda>_. returnA event)) ?r1 = (r', Inl e)"
          using 2 unfolding step .
        then have "run_evolves ?r1 r'" by (rule leadsD [OF evol])
        then have all2: "list_all2 node_evolves ((wr_nodes r)[i := n]) (wr_nodes r')"
          unfolding run_evolves_def by simp
        then have "node_evolves n (wr_nodes r' ! i)" using i by (auto simp: list_all2_conv_all_nth dest: spec [of _ i])
        with sn have "wn_status (wr_nodes r' ! i) = WN_SUCCEEDED" by (auto simp: node_evolves_def settled_def)
        moreover have "map wn_node_id (wr_nodes r') = map wn_node_id (wr_nodes r)"
          using nodes_evolve_keys [OF all2] id i by (simp add: map_update list_update_same_conv)
        ultimately show ?thesis using \<open>node_index nid r = Inr i\<close> by blast
      qed
    qed simp
  qed
qed

lemma node_index_cong: "map wn_node_id (wr_nodes r') = map wn_node_id (wr_nodes r) \<Longrightarrow> node_index nid r' = node_index nid r"
  unfolding node_index_def using first_index_cong [of wn_node_id "wr_nodes r'" "wr_nodes r" "\<lambda>x. x = nid"] by simp

lemma fail_succeeded_refused:
  assumes "node_index nid r = Inr i" "wn_status (wr_nodes r ! i) = WN_SUCCEEDED"
  shows "\<exists>r'. fail_node nid code re now c ids r = (r', Inl WorkflowStateError)"
  using assms by (auto simp: fail_node_def bindA_def on_node_def node_fail_def require_active_def guardE_def)

definition outcome_ops :: "string \<Rightarrow> wf_outcome \<Rightarrow> datetime \<Rightarrow> string \<Rightarrow> wf_op list" where
  \<comment> \<open>the operations an outcome may amount to\<close>
  "outcome_ops nid oc now c =
     (if oc_status oc = ''completed'' then
        [WO_succeed nid (text_or node_done (oc_result_summary oc)) (oc_output_fingerprint oc)
           (oc_output_references oc) now c,
         WO_fail nid ''OUTPUT_INVALID'' False now c]
      else if oc_status oc = ''accepted'' then [WO_accept nid (text_or [] (oc_execution_reference oc)) now c]
      else [WO_fail nid (text_or ''WORKFLOW_EXECUTION_FAILED'' (oc_error_code oc)) (oc_retryable oc) now c])"

lemma settle_outcome_op:
  assumes "settle_outcome v nid oc now c ids r = (r', Inr u)"
  shows "\<exists>opr \<in> set (outcome_ops nid oc now c). wf_exec v opr ids r = (r', Inr ())"
proof (cases "oc_status oc = ''completed''")
  case True
  let ?s = "text_or node_done (oc_result_summary oc)" and ?fp = "oc_output_fingerprint oc"
  let ?outs = "oc_output_references oc"
  obtain r1 x where 1: "succeed_node v nid ?s ?fp ?outs now c ids r = (r1, x)" by fastforce
  show ?thesis
  proof (cases x)
    case (Inr ev)
    with assms 1 True have "wf_exec v (WO_succeed nid ?s ?fp ?outs now c) ids r = (r', Inr ())"
      by (simp add: settle_outcome_def tryA_def bindA_def)
    with True show ?thesis by (simp add: outcome_ops_def)
  next
    case (Inl e)
    from assms 1 True Inl have e: "e = WorkflowValidationError"
      by (auto simp: settle_outcome_def tryA_def split: if_splits)
    from assms 1 True Inl e obtain ev where
      f: "fail_node nid ''OUTPUT_INVALID'' False now c ids r1 = (r', Inr ev)"
      by (auto simp: settle_outcome_def tryA_def errE_simps)
    have "r1 = r"
    proof (rule ccontr)
      assume "r1 \<noteq> r"
      with succeed_raises_cases [OF 1 [unfolded Inl] e] obtain i where i: "node_index nid r = Inr i"
        "wn_status (wr_nodes r1 ! i) = WN_SUCCEEDED" "map wn_node_id (wr_nodes r1) = map wn_node_id (wr_nodes r)"
        by blast
      have "node_index nid r1 = Inr i" using node_index_cong [OF i(3)] i(1) by simp
      from fail_succeeded_refused [OF this i(2)] f show False by (metis Pair_inject sum.distinct(1))
    qed
    with f have "wf_exec v (WO_fail nid ''OUTPUT_INVALID'' False now c) ids r = (r', Inr ())"
      by (simp add: bindA_def)
    with True show ?thesis by (simp add: outcome_ops_def)
  qed
next
  case False
  with assms show ?thesis
    by (auto simp: settle_outcome_def outcome_ops_def errE_simps split: if_splits)
qed

lemma start_node_running:
  assumes "start_node v nid now c ids r = (r', Inr ev)"
  shows "\<exists>i. node_index nid r' = Inr i \<and> wn_status (wr_nodes r' ! i) = WN_RUNNING"
proof -
  from assms obtain i n r1 r2 where i: "node_index nid r = Inr i"
    and n: "node_start now (c @ '':start'') (Some (wr_id r)) (ids 0) (wr_nodes r ! i) = (n, Inr ev)"
    and r1: "whenA (\<lambda>r. wr_status r = WR_QUEUED)
       (thenA (modifyA (\<lambda>r. r\<lparr>wr_status := WR_RUNNING\<rparr>))
       (thenA (log_event ids (c @ '':run-start'') RUN_STARTED now []) (returnA ())))
       (r\<lparr>wr_nodes := (wr_nodes r)[i := n]\<rparr>) = (r1, Inr ())"
    and r2: "log_existing ids ev r1 = (r2, Inr ())" "set_updated now r2 = (r', Inr ())"
    by (auto simp: start_node_def errE_simps)
  have "wr_nodes r1 = (wr_nodes r)[i := n]"
    using r1 by (auto simp: errE_simps split: if_splits dest!: log_event_Inr)
  moreover have "wr_nodes r' = wr_nodes r2" using r2(2) by (auto simp: set_updated_def errE_simps)
  ultimately have nodes: "wr_nodes r' = (wr_nodes r)[i := n]" using log_existing_Inr [OF r2(1)] by auto
  have "wn_node_id n = wn_node_id (wr_nodes r ! i)"
    using leadsD [OF node_methods_evolve(1) n] by (simp add: node_evolves_def)
  then have "map wn_node_id (wr_nodes r') = map wn_node_id (wr_nodes r)"
    using node_index_Inr [OF i] by (simp add: nodes map_update list_update_same_conv)
  from node_index_cong [OF this] i node_index_Inr [OF i] node_status_moves(1) [OF n] show ?thesis
    by (auto simp: nodes)
qed

lemma outcome_logs:
  \<comment> \<open>whatever the executor answers about a running node is logged\<close>
  assumes "node_index nid r = Inr i" "wn_status (wr_nodes r ! i) = WN_RUNNING" "opr \<in> set (outcome_ops nid oc now c)"
    "wf_exec v opr ids r = (r', Inr ())" "wf_op_fresh opr r"
  shows "wr_events r' \<noteq> wr_events r"
proof
  assume same: "wr_events r' = wr_events r"
  have "main_tag opr \<in> logged_tags r'"
  proof (cases opr)
    case (WO_succeed nid' s fp outs now' c')
    with assms(3) have "nid' = nid" by (auto simp: outcome_ops_def split: if_splits)
    with assms(1,2,4) WO_succeed succeed_node_tag show ?thesis by (fastforce simp: errE_simps)
  next
    case (WO_accept nid' ref now' c')
    with assms(3) have "nid' = nid" by (auto simp: outcome_ops_def split: if_splits)
    with assms(1,2,4) WO_accept accept_node_tag show ?thesis by (fastforce simp: errE_simps)
  next
    case (WO_fail nid' code re now' c')
    with assms(4) fail_node_tag show ?thesis by (fastforce simp: errE_simps)
  qed (use assms(3) in \<open>auto simp: outcome_ops_def split: if_splits\<close>)
  moreover have "main_tag opr \<notin> logged_tags r"
    using assms(5) main_tag_op [of opr r] unfolding wf_op_fresh_def logged_tags_def by blast
  ultimately show False using same by (simp add: logged_tags_def)
qed

section \<open>What a use case does to the store\<close>

text \<open>
  In a store that satisfies the repository's contract a use case does one of four things: nothing, one
  operation of one run, the creation of a run, or it is refused.
\<close>

lemma created_run:
  assumes "create_run v owner key input now rid nids ids = Inr r" "version_ok v"
  shows "distinct (map wn_id (wr_nodes r)) \<Longrightarrow> run_storable r"
    "map wn_id (wr_nodes r) = map nids [0..<length (wv_nodes v)]" "event_id_set r = {ids 1}" "node_id_set r = nids ` {..<length (wv_nodes v)}"
    "\<exists>ev. wr_events r = [ev]"
proof -
  obtain t nodes r0 ev0 where nodes: "mapE (new_node t) (zip (wv_nodes v) (map nids [0..<length (wv_nodes v)])) = Inr nodes"
    and r0: "r0 = \<lparr>wr_workflow_code = wv_workflow_code v, wr_workflow_version = wv_version v,
                wr_owner_subject = py_strip owner, wr_idempotency_key = py_strip key,
                wr_input_fingerprint = py_strip input,
                wr_nodes = nodes, wr_status = WR_QUEUED, wr_result_summary = None,
                wr_failure_code = None, wr_cancel_requested_at = None,
                wr_created_at = Some t, wr_updated_at = Some t, wr_events = [], wr_id = rid\<rparr>"
    and ap: "log_event ids ''create'' RUN_CREATED (Aware t)
       [(''workflow_code'', JStr (wv_workflow_code v)), (''workflow_version'', JStr (wv_version v))] r0
     = (r, Inr ev0)"
    and ne: "py_strip owner \<noteq> []" "py_strip key \<noteq> []" "py_strip input \<noteq> []"
    by (rule create_run_steps [OF assms(1)])
  from ap obtain ev where r: "r = r0\<lparr>wr_events := [ev]\<rparr>" and ev: "we_id ev = ids 1"
    by (auto simp: log_event_def r0 Let_def errE_simps mk_wf_event_returns)
  note nth = mapE_zip_nth [OF nodes]
  have node: "node_wf n \<and> node_ok n \<and> wn_id n = u \<and> wn_node_id n = nd_node_id d"
    if "new_node t (d, u) = Inr n" "d \<in> set (wv_nodes v)" for d u n
    using that version_ok_nodes [OF assms(2) that(2)]
    by (auto simp: new_node_def mk_node_def errE_simps node_wf_def node_ok_def is_identifier_trimmed
        py_strip_trimmed wf_fingerprint_def split: if_splits)
  from nth node [OF _ nth_mem] have each: "node_wf (nodes ! i) \<and> node_ok (nodes ! i) \<and> wn_id (nodes ! i) = nids i
      \<and> wn_node_id (nodes ! i) = nd_node_id (wv_nodes v ! i)" if "i < length (wv_nodes v)" for i
    using that by blast
  have ids: "map wn_id nodes = map nids [0..<length (wv_nodes v)]" "map wn_node_id nodes = map nd_node_id (wv_nodes v)"
    using nth each by (auto intro!: nth_equalityI)
  have good: "\<forall>n \<in> set nodes. node_wf n \<and> node_ok n" using nth each by (auto simp: in_set_conv_nth)
  have l0: "log_ok r0" by (simp add: r0 log_ok_def)
  have "distinct (map nd_node_id (wv_nodes v))"
    using assms(2) version_okD(4) by (simp add: version_ok_def)
  moreover have "log_ok r" using leadsD [OF leads_log_event ap] l0 by (simp add: run_evolves_def)
  moreover note version_ok_identifiers [OF assms(2)]
  ultimately show "distinct (map wn_id (wr_nodes r)) \<Longrightarrow> run_storable r"
    using good ne ids unfolding run_storable_def by (simp add: r r0 trimmed_py_strip)
  show "map wn_id (wr_nodes r) = map nids [0..<length (wv_nodes v)]" by (simp add: r r0 ids)
  show "event_id_set r = {ids 1}" by (simp add: r r0 event_id_set_def ev)
  have "node_id_set r = set (map wn_id nodes)" by (simp add: node_id_set_def r r0)
  also have "\<dots> = nids ` {..<length (wv_nodes v)}" unfolding ids by auto
  finally show "node_id_set r = nids ` {..<length (wv_nodes v)}" .
  show "\<exists>ev. wr_events r = [ev]" by (simp add: r r0)
qed

lemma reached_storable:
  "wf_reachable strict v r \<Longrightarrow> version_ok v \<Longrightarrow> distinct (map wn_id (wr_nodes r)) \<Longrightarrow> run_storable r"
proof (induction rule: wf_reachable.induct)
  case (created owner key input now rid nids ids r)
  then show ?case using created_run(1) by blast
next
  case (stepped r opr ids r')
  have evol: "run_evolves r r'" by (rule exec_evolves [OF stepped.hyps(2)])
  then have "map wn_id (wr_nodes r') = map wn_id (wr_nodes r)"
    using nodes_evolve_keys unfolding run_evolves_def by blast
  with stepped have "run_storable r" by simp
  with evol show ?case by (rule run_storable_evolves)
next
  case (reordered r ns)
  then have "distinct (map wn_id (wr_nodes r))" using distinct_map_mset [OF reordered.hyps(2), of wn_id] by simp
  with reordered show ?case by (simp add: run_storable_reorder)
qed

section \<open>Use cases over the contracts\<close>

locale workflow_service =
  workflow_repository port ok view handled used supplied + workflow_registry registry sound
  for port :: "'s workflow_port" and ok and view and handled and used and supplied
    and registry :: "'t \<Rightarrow> wf_registry" and sound
begin

lemma locked_run_eq:
  "ok s \<Longrightarrow> locked_run port p rid s =
     (s, bindE (require_principal p) (\<lambda>t. found_owned (subject_of t) (view s rid)))"
  by (cases "require_principal p") (simp_all add: locked_run_def bindA_def get_for_update)

lemma locked_run_Inr:
  assumes "ok s" "locked_run port p rid s = (s1, Inr r)"
  shows "s1 = s" "view s rid = Some r" "wr_owner_subject r = subject_of p" "require_principal p = Inr p"
proof -
  have "require_principal p = Inr t \<Longrightarrow> t = p" for t
    by (auto simp: require_principal_def split: if_splits option.splits)
  then show "s1 = s" "view s rid = Some r" "wr_owner_subject r = subject_of p" "require_principal p = Inr p"
    using assms(2) unfolding locked_run_eq [OF assms(1)]
    by (auto simp: bindE_Inr_iff found_owned_def split: option.splits if_splits)
qed

lemma locked_run_Inl: "ok s \<Longrightarrow> locked_run port p rid s = (s1, Inl e) \<Longrightarrow> s1 = s"
  by (simp add: locked_run_eq)

lemma found_version:
  "sound R \<Longrightarrow> find_version (registry R) r = Inr v \<Longrightarrow> version_ok v
     \<and> rg_get (registry R) (wr_workflow_code r) (wr_workflow_version r) = Some v"
  using get_version by (auto simp: find_version_def split: option.splits)

lemma save_exec:
  assumes "ok s" "view s rid = Some r" "wf_exec v opr ids r = (u, Inr ())" "new_ids_ok (used s) r ids"
    "receipt_for rid rc" "rc = None \<or> supplied s"
  shows "\<exists>s'. saveA port u rc s = (s', Inr ()) \<and> ok s' \<and> view s' = (view s)(rid \<mapsto> u)
     \<and> handled s' = handled s \<union> receipt_key rc \<and> used s' = used s \<union> event_id_set u"
proof -
  note vok = view_ok [OF assms(1,2)]
  have key: "wr_id u = rid" using exec_keys(1) [OF assms(3)] vok by simp
  have ids: "distinct (map we_id (wr_events u))" "(event_id_set u - event_id_set r) \<inter> used s = {}"
    using exec_new_ids [OF assms(3,4)] vok by blast+
  from save [OF assms(1) _ exec_evolves [OF assms(3)] ids, of rc] assms(2,5,6)
  obtain s' where "wp_save port u rc s = Inr s'" "ok s'" "view s' = (view s)(rid \<mapsto> u)"
    "handled s' = handled s \<union> receipt_key rc" "used s' = used s \<union> event_id_set u"
    unfolding key by blast
  then show ?thesis by (auto simp: saveA_def writeA_def)
qed

definition stepped :: "'t \<Rightarrow> uuid \<Rightarrow> wf_op \<Rightarrow> event_ids \<Rightarrow> 's \<Rightarrow> 's \<Rightarrow> bool" where
  \<comment> \<open>the run has taken one step, and nothing else has changed\<close>
  "stepped R rid opr ids s s' \<longleftrightarrow> (\<exists>r u v. view s rid = Some r
     \<and> rg_get (registry R) (wr_workflow_code r) (wr_workflow_version r) = Some v \<and> version_ok v
     \<and> wf_exec v opr ids r = (u, Inr ()) \<and> ok s' \<and> view s' = (view s)(rid \<mapsto> u)
     \<and> used s' = used s \<union> event_id_set u \<and> handled s \<subseteq> handled s')"

lemma steppedI:
  assumes "ok s" "sound R" "view s rid = Some r" "find_version (registry R) r = Inr v"
    "wf_exec v opr ids r = (u, Inr ())" "new_ids_ok (used s) r ids"
    "receipt_for rid rc" "rc = None \<or> supplied s"
  shows "\<exists>s'. saveA port u rc s = (s', Inr ()) \<and> stepped R rid opr ids s s' \<and> view s' rid = Some u
    \<and> handled s' = handled s \<union> receipt_key rc"
proof -
  from save_exec [OF assms(1,3,5-8)] obtain s' where s': "saveA port u rc s = (s', Inr ())" "ok s'"
    "view s' = (view s)(rid \<mapsto> u)" "handled s' = handled s \<union> receipt_key rc" "used s' = used s \<union> event_id_set u"
    by blast
  with assms(3,5) found_version [OF assms(2,4)] have "stepped R rid opr ids s s'"
    unfolding stepped_def by blast
  with s' show ?thesis by auto
qed

lemma results_locked [results_intros]:
  assumes "ok s" "\<And>e. Q s (Inl e)"
    "\<And>r. view s rid = Some r \<Longrightarrow> wr_owner_subject r = subject_of p \<Longrightarrow> require_principal p = Inr p \<Longrightarrow>
      results Q (f r) s"
  shows "results Q (bindA (locked_run port p rid) f) s"
proof (rule results_bind, rule resultsI)
  fix s' x assume l: "locked_run port p rid s = (s', x)"
  show "case x of Inl e \<Rightarrow> Q s' (Inl e) | Inr r \<Rightarrow> results Q (f r) s'"
  proof (cases x)
    case (Inl e)
    with l locked_run_Inl [OF assms(1)] have "s' = s" by blast
    with Inl assms(2) show ?thesis by simp
  next
    case (Inr r)
    note r = locked_run_Inr [OF assms(1) l [unfolded Inr]]
    show ?thesis using assms(3) [OF r(2-4)] by (simp add: Inr r(1))
  qed
qed

lemma results_owned [results_intros]:
  assumes "ok s" "\<And>e. Q s (Inl e)"
    "\<And>r v. view s rid = Some r \<Longrightarrow> wr_owner_subject r = subject_of p \<Longrightarrow> require_principal p = Inr p \<Longrightarrow>
      find_version (registry R) r = Inr v \<Longrightarrow> results Q (f (r, v)) s"
  shows "results Q (bindA (owned_run port (registry R) p rid) f) s"
  unfolding owned_run_def bindA_assoc
  by (intro results_locked assms(1,2) results_lift results_return_bind) (rule assms(3))

lemma results_processed [results_intros]:
  assumes "ok s" "results Q (f ((rid, ct, cid) \<in> handled s)) s"
  shows "results Q (bindA (readA (wp_has_processed_command port rid ct cid)) f) s"
  using assms by (simp add: results_def bindA_readA has_processed)

lemma results_stepped:
  assumes "ok s" "sound R" "view s rid = Some r" "find_version (registry R) r = Inr v"
    "wf_exec v opr ids r = (u, Inr ())" "new_ids_ok (used s) r ids"
    "receipt_for rid rc" "rc = None \<or> supplied s"
    "\<And>s'. stepped R rid opr ids s s' \<Longrightarrow> view s' rid = Some u \<Longrightarrow> handled s' = handled s \<union> receipt_key rc \<Longrightarrow>
      results Q (f ()) s'"
  shows "results Q (bindA (saveA port u rc) f) s"
  using steppedI [OF assms(1-8)] assms(9) by (auto intro: results_step)

lemma node_command_effect:
  assumes "ok s" "sound R" "\<And>r. view s rid = Some r \<Longrightarrow> new_ids_ok (used s) r ids" "supplied s"
    "trimmed ct" "pg_btrim cid \<noteq> []"
    "\<And>v r r'. run_result (m v) r = Inr r' \<Longrightarrow> wf_exec v opr ids r = (r', Inr ())"
  shows "results (\<lambda>s' x. s' = s \<or> stepped R rid opr ids s s') (node_command port (registry R) p rid ct cid m) s"
proof -
  have rc: "receipt_for rid (Some (receipt rid ct cid))"
    using assms(5,6) by (simp add: receipt_for_def receipt_def)
  show ?thesis
    unfolding node_command_def
  proof (intro results_intros assms(1), goal_cases)
    case (2 r v)
    then show ?case
      unfolding split
    proof (intro results_intros assms(1), goal_cases)
      case (3 u)
      show ?case
        by (rule results_stepped [OF assms(1,2) _ _ assms(7) assms(3) rc])
          (use 3 assms(4) in \<open>auto intro: results_intros\<close>)
    qed simp_all
  qed simp
qed

lemma results_executed:
  \<comment> \<open>a method of the run and the save after it\<close>
  assumes "ok s" "sound R" "view s rid = Some r" "find_version (registry R) r = Inr v"
    "new_ids_ok (used s) r ids" "receipt_for rid rc" "rc = None \<or> supplied s"
    "\<And>u a. m r = (u, Inr a) \<Longrightarrow> wf_exec v opr ids r = (u, Inr ())" "\<And>e. Q s (Inl e)"
    "\<And>s' u a. m r = (u, Inr a) \<Longrightarrow> stepped R rid opr ids s s' \<Longrightarrow> view s' rid = Some u \<Longrightarrow>
      handled s' = handled s \<union> receipt_key rc \<Longrightarrow> results Q (f u) s'"
  shows "results Q (bindA (liftA (run_result m r)) (\<lambda>u. bindA (saveA port u rc) (\<lambda>_. f u))) s"
proof (rule results_lift)
  fix u assume "run_result m r = Inr u"
  then obtain a where a: "m r = (u, Inr a)" unfolding run_result_Inr by blast
  show "results Q (bindA (saveA port u rc) (\<lambda>_. f u)) s"
    by (rule results_stepped [OF assms(1-4) assms(8) [OF a] assms(5-7)]) (rule assms(10) [OF a])
qed (rule assms(9))

definition begun ::
  "'t \<Rightarrow> principal \<Rightarrow> uuid \<Rightarrow> string \<Rightarrow> json \<Rightarrow> string \<Rightarrow> datetime \<Rightarrow> event_ids \<Rightarrow> 's \<Rightarrow> 's \<Rightarrow> wf_error + wf_started \<Rightarrow> bool" where
  \<comment> \<open>what the first half of an execution may end in\<close>
  "begun R p rid nid inputs cid now ids s s' x = (case x of
     Inr (Started u v c) \<Rightarrow> stepped R rid (WO_start nid now cid) ids s s' \<and> view s' rid = Some u
       \<and> (\<exists>r ev d given ready. view s rid = Some r \<and> wr_owner_subject r = subject_of p
            \<and> find_version (registry R) r = Inr v \<and> start_node v nid now cid ids r = (u, Inr ev)
            \<and> ready_nodes v r = Inr ready \<and> nid \<in> set ready \<and> version_node v nid = Inr d
            \<and> build_node_inputs r v nid inputs = Inr given \<and> c = mk_exec_command p v d given
            \<and> (rid, ''execute-node'', cid) \<notin> handled s)
   | _ \<Rightarrow> s' = s \<or> stepped R rid (WO_reject nid ''INPUT_INVALID'' now cid) ids s s')"

lemma trimmed_execute: "trimmed ''execute-node''" "trimmed ''cancel''"
  by (simp_all add: trimmed_def py_space_def)

lemma begin_effect:
  assumes "ok s" "sound R" "\<And>r. view s rid = Some r \<Longrightarrow> new_ids_ok (used s) r ids" "supplied s"
    "pg_btrim cid \<noteq> []"
  shows "results (begun R p rid nid inputs cid now ids s) (app_begin_execution port (registry R) p rid nid inputs cid now ids) s"
proof -
  have rc: "receipt_for rid (Some (receipt rid ''execute-node'' cid))"
    using assms(5) trimmed_execute by (simp add: receipt_for_def receipt_def)
  show ?thesis
    unfolding app_begin_execution_def
  proof (intro results_intros assms(1), goal_cases)
    case (7 r v ready unit d)
    note r = 7
    show ?case
    proof (cases "build_node_inputs r v nid inputs")
      case (Inr given)
      show ?thesis
        unfolding Inr sum.case
      proof (rule results_executed [OF assms(1,2) r(1) r(5) assms(3) [OF r(1)]])
        show "wf_exec v (WO_start nid now cid) ids r = (u, Inr ())"
          if "start_node v nid now cid ids r = (u, Inr a)" for u a
          using that by (simp add: bindA_def)
        show "results (begun R p rid nid inputs cid now ids s) (returnA (Started u v (mk_exec_command p v d given))) s'"
          if "start_node v nid now cid ids r = (u, Inr a)" "stepped R rid (WO_start nid now cid) ids s s'"
            "view s' rid = Some u" for s' u a
          using r that Inr by (intro results_returnA) (auto simp: begun_def errE_simps)
      qed (auto simp: receipt_for_def begun_def)
    next
      case (Inl e)
      show ?thesis
      proof (cases "e = WorkflowValidationError")
        case True
        show ?thesis
          unfolding Inl True sum.case wf_error.case
        proof (rule results_executed [OF assms(1,2) r(1) r(5) assms(3) [OF r(1)] rc])
          show "wf_exec v (WO_reject nid ''INPUT_INVALID'' now cid) ids r = (u, Inr ())"
            if "reject_node_input nid ''INPUT_INVALID'' now cid ids r = (u, Inr a)" for u a
            using that by (simp add: bindA_def)
        qed (auto simp: begun_def assms(4) intro: results_returnA)
      next
        case False
        then show ?thesis unfolding Inl by (cases e) (auto simp: begun_def intro: results_raise)
      qed
    qed
  qed (simp_all add: begun_def)
qed

lemma finish_effect:
  assumes "ok s" "sound R" "supplied s" "pg_btrim cid \<noteq> []" "wr_id u = rid"
    "find_version (registry R) u = Inr v" "new_ids_ok (used s) u ids" "view s rid = Some u"
  shows "results (\<lambda>s' x. s' = s \<or> (\<exists>opr \<in> set (outcome_ops nid (case answer of None \<Rightarrow> executor_unavailable | Some c \<Rightarrow> c) now cid).
      stepped R rid opr ids s s')) (app_finish_execution port u v nid answer cid now ids) s"
    (is "results (\<lambda>s' x. s' = s \<or> (\<exists>opr \<in> ?ops. _ opr s')) _ s")
proof -
  have rc: "receipt_for rid (Some (receipt rid ''execute-node'' cid))"
    using assms(4) trimmed_execute by (simp add: receipt_for_def receipt_def)
  show ?thesis
    unfolding app_finish_execution_def assms(5)
  proof (rule results_lift)
    fix w assume "run_result (settle_outcome v nid (case answer of None \<Rightarrow> executor_unavailable | Some c \<Rightarrow> c) now cid ids) u = Inr w"
    then obtain opr where opr: "opr \<in> ?ops" "wf_exec v opr ids u = (w, Inr ())"
      using settle_outcome_op unfolding run_result_Inr by blast
    show "results (\<lambda>s' x. s' = s \<or> (\<exists>opr \<in> ?ops. stepped R rid opr ids s s'))
        (bindA (saveA port w (Some (receipt rid ''execute-node'' cid))) (\<lambda>_. returnA (view_from_run w))) s"
      by (rule results_stepped [OF assms(1,2,8,6) opr(2) assms(7) rc])
        (use opr assms(3) in \<open>auto intro!: results_returnA\<close>)
  qed simp
qed

lemma finish_stale:
  \<comment> \<open>somebody else has logged an event since the first half\<close>
  assumes "ok s" "view s (wr_id u) = Some r" "strict_prefix (wr_events u) (wr_events r)" "log_ok r" "log_ok u"
    "new_ids_ok (used s) u ids" "distinct (map we_id (wr_events u))" "event_id_set u \<subseteq> used s"
    "\<And>opr. opr \<in> set (outcome_ops nid (case answer of None \<Rightarrow> executor_unavailable | Some c \<Rightarrow> c) now cid) \<Longrightarrow>
       wf_op_fresh opr u"
    "node_index nid u = Inr i" "wn_status (wr_nodes u ! i) = WN_RUNNING"
  shows "results (\<lambda>s' x. s' = s \<and> (\<exists>e. x = Inl e)) (app_finish_execution port u v nid answer cid now ids) s"
    (is "results ?Q _ s")
  unfolding app_finish_execution_def
proof (rule results_lift)
  fix w assume "run_result (settle_outcome v nid (case answer of None \<Rightarrow> executor_unavailable | Some c \<Rightarrow> c) now cid ids) u = Inr w"
  then obtain opr where opr: "opr \<in> set (outcome_ops nid (case answer of None \<Rightarrow> executor_unavailable | Some c \<Rightarrow> c) now cid)"
    "wf_exec v opr ids u = (w, Inr ())"
    using settle_outcome_op unfolding run_result_Inr by blast
  note evol = exec_evolves [OF opr(2)]
  from evol obtain es where es: "wr_events w = wr_events u @ es" unfolding run_evolves_def prefix_def by blast
  have "es \<noteq> []" using outcome_logs [OF assms(10,11) opr assms(9) [OF opr(1)]] es by auto
  then obtain ev' rest where ev': "es = ev' # rest" by (cases es) auto
  obtain ev rest' where ev: "wr_events r = wr_events u @ ev # rest'"
    using assms(3) by (auto simp: strict_prefix_def prefix_def neq_Nil_conv)
  have w: "log_ok w" "wr_id w = wr_id u" using evol assms(5) unfolding run_evolves_def by blast+
  have seq: "we_sequence (wr_events x ! i) = int i + 1" if "log_ok x" "i < length (wr_events x)" for x i
    using that numbered_from_1_nth [of "map we_sequence (wr_events x)" i] by (simp add: log_ok_def)
  let ?k = "length (wr_events u)"
  have "we_sequence ev' = int ?k + 1" using seq [OF w(1), of ?k] by (simp add: es ev')
  moreover have "we_sequence ev = int ?k + 1" using seq [OF assms(4), of ?k] by (simp add: ev)
  moreover have "ev' \<in> set (wr_events w)" "ev \<in> set (wr_events r)" by (simp_all add: es ev' ev)
  moreover have "we_run_id ev' = wr_id w" using w(1) \<open>ev' \<in> _\<close> by (simp add: log_ok_def)
  moreover have "we_id ev' \<notin> used s"
    by (rule exec_new_ids(3) [OF opr(2) assms(6-8)]) (simp add: es ev')
  ultimately have "wp_save port w (Some (receipt (wr_id u) ''execute-node'' cid)) s = Inl WfIntegrityError"
    using save_stale [OF assms(1), of w r ev ev'] assms(2) w(2) by simp
  then have "saveA port w (Some (receipt (wr_id u) ''execute-node'' cid)) s = (s, Inl WfIntegrityError)"
    by (simp add: saveA_def writeA_def)
  then show "results ?Q (bindA (saveA port w (Some (receipt (wr_id u) ''execute-node'' cid))) (\<lambda>_. returnA (view_from_run w))) s"
    by (simp add: results_def bindA_def)
qed simp

lemma cancel_effect:
  assumes "ok s" "sound R" "\<And>r. view s rid = Some r \<Longrightarrow> new_ids_ok (used s) r ids" "supplied s"
    "pg_btrim cid \<noteq> []" "ww_store w = s"
  shows "results (\<lambda>w' x. ww_store w' = s \<or> stepped R rid (WO_cancel now cid) ids s (ww_store w'))
    (app_cancel port (registry R) p rid cid now ids) w"
proof -
  have rc: "receipt_for rid (Some (receipt rid ''cancel'' cid))"
    using assms(5) trimmed_execute by (simp add: receipt_for_def receipt_def)
  let ?Q = "\<lambda>s' x. s' = s \<or> stepped R rid (WO_cancel now cid) ids s s'"
  let ?locked = "\<lambda>k. bindA (locked_run port p rid) (\<lambda>r.
     bindA (readA (wp_has_processed_command port rid ''cancel'' cid)) (\<lambda>processed.
       if processed then returnA (view_from_run r)
       else bindA (liftA (find_version (registry R) r)) (\<lambda>v.
         bindA (liftA (run_result (request_run_cancel now cid ids) r)) (\<lambda>r'.
         bindA (saveA port r' (Some (receipt rid ''cancel'' cid))) (\<lambda>_. returnA (view_from_run r'))))))"
  have "results ?Q (?locked ()) s"
  proof (intro results_intros assms(1), goal_cases)
    case (5 r v u)
    then have "wf_exec v (WO_cancel now cid) ids r = (u, Inr ())" by (auto simp: run_result_Inr)
    show ?case
      by (rule results_stepped [OF assms(1,2) 5(1,5) \<open>wf_exec v _ ids r = _\<close> assms(3) [OF 5(1)] rc])
        (auto simp: assms(4) intro: results_returnA)
  qed simp_all
  moreover have "ww_store (fst (app_cancel port (registry R) p rid cid now ids w)) = fst (?locked () s)"
    using assms(6)
    by (auto simp: app_cancel_def bindA_def on_store_def Let_def split: prod.split sum.split)
  ultimately show ?thesis by (simp add: results_def)
qed

definition created :: "'t \<Rightarrow> uuid \<Rightarrow> datetime \<Rightarrow> event_ids \<Rightarrow> event_ids \<Rightarrow> 's \<Rightarrow> 's \<Rightarrow> bool" where
  \<comment> \<open>a new run is stored, its nodes in some order\<close>
  "created R rid now nids ids s s' \<longleftrightarrow> (\<exists>r r' v owner key input.
     create_run v owner key input now rid nids ids = Inr r \<and> version_ok v
     \<and> rg_get (registry R) (wr_workflow_code r) (wr_workflow_version r) = Some v
     \<and> same_but_order r r' \<and> ok s' \<and> view s rid = None \<and> view s' = (view s)(rid \<mapsto> r')
     \<and> handled s' = handled s \<and> used s' = used s \<union> event_id_set r \<union> node_id_set r)"

lemma create_effect:
  assumes "ok s" "sound R" "view s rid = None"
    "\<And>v. rg_get (registry R) (cw_workflow_code c) (cw_workflow_version c) = Some v \<Longrightarrow>
       distinct (map nids [0..<length (wv_nodes v)]) \<and> insert (ids 1) (nids ` {..<length (wv_nodes v)}) \<inter> used s = {}"
  shows "results (\<lambda>s' x. s' = s \<or> created R rid now nids ids s s')
     (app_create_run port (registry R) digest c now rid nids ids) s" (is "results ?Q _ s")
  unfolding app_create_run_def
proof (intro results_intros, goal_cases)
  case (8 p v unit names inputs r)
  note v = get_version [OF assms(2) 8(2)]
  note fresh = assms(4) [OF 8(2)]
  note new = created_run [OF 8(7) conjunct1 [OF v]]
  have storable: "run_storable r" using new(1,2) conjunct1 [OF fresh] by simp
  note keys = create_run_returns [OF 8(7) conjunct1 [OF v]]
  have id: "wr_id r = rid" "wr_workflow_code r = wv_workflow_code v" "wr_workflow_version r = wv_version v"
    by (rule keys; simp)+
  show ?case
  proof (cases "\<exists>i q. view s i = Some q \<and> run_key q = run_key r")
    case True
    then obtain i q where q: "view s i = Some q" "run_key q = run_key r" by blast
    have "writeA (wp_create_or_get port r) s = (s, Inr q)"
      using create_existing [OF assms(1) q] by (simp add: writeA_def)
    then show ?thesis by (rule results_step) (auto intro: results_intros)
  next
    case False
    from new(5) obtain ev where ev: "wr_events r = [ev]" by blast
    have "(event_id_set r \<union> node_id_set r) \<inter> used s = {}" using fresh new(3,4) by auto
    moreover have "view s (wr_id r) = None" "\<And>i q. view s i = Some q \<Longrightarrow> run_key q \<noteq> run_key r"
      using assms(3) False id(1) by auto
    ultimately obtain s' r' where
      s': "wp_create_or_get port r s = Inr (s', r)" "ok s'" "same_but_order r r'"
        "view s' = (view s)(wr_id r \<mapsto> r')" "handled s' = handled s" "used s' = used s \<union> event_id_set r \<union> node_id_set r"
      using create_new [OF assms(1) storable _ ev] by blast
    have "created R rid now nids ids s s'"
      unfolding created_def using s' 8(7) v 8(2) id assms(3) by metis
    moreover have "writeA (wp_create_or_get port r) s = (s', Inr r)" using s'(1) by (simp add: writeA_def)
    ultimately show ?thesis by (elim results_step) (intro results_intros; simp)
  qed
qed simp_all

end

end
