(* ===== verification/Workflow_Traffic.thy ===== *)
theory Workflow_Traffic
  imports Workflow_Service
begin

text \<open>
  Requests served one transaction at a time. \<open>execute_node\<close> is two transactions with the executor in
  between: after the first it is a flight that holds its run in memory until the executor answers, and
  other requests may be served meanwhile, for the same run too.

  The lemmas show, inside the contracts of the repository and of the registry, that every stored run is
  reachable by its own operations, that stored runs only evolve, and that a flight whose run somebody
  else has changed is refused.
\<close>

section \<open>The system\<close>

record wf_flight =
  fl_run :: wf_run
  fl_version :: wf_version
  fl_node :: string
  fl_command :: string

datatype wf_request =
    Rq_create create_run_command datetime uuid event_ids event_ids
  | Rq_begin principal uuid string json string datetime event_ids
  | Rq_finish nat "wf_outcome option" datetime event_ids
  | Rq_complete principal uuid string string "string option" json_dict string datetime event_ids
  | Rq_fail principal uuid string string bool string datetime event_ids
  | Rq_skip principal uuid string string string datetime event_ids
  | Rq_confirm principal uuid string string datetime event_ids
  | Rq_cancel principal uuid string datetime event_ids

definition take_off :: "string \<Rightarrow> string \<Rightarrow> wf_error + wf_started \<Rightarrow> wf_flight list" where
  \<comment> \<open>the flight a first half leaves\<close>
  "take_off nid cid x = (case x of
     Inr (Started u v c) \<Rightarrow> [\<lparr>fl_run = u, fl_version = v, fl_node = nid, fl_command = cid\<rparr>] | _ \<Rightarrow> [])"

fun serve :: "'s workflow_port \<Rightarrow> wf_registry \<Rightarrow> (string \<Rightarrow> string) \<Rightarrow> wf_request \<Rightarrow> 's \<times> wf_flight list \<Rightarrow>
  's \<times> wf_flight list" where
  "serve port reg digest (Rq_create c now rid nids ids) (s, fs) =
     (fst (app_create_run port reg digest c now rid nids ids s), fs)"
| "serve port reg digest (Rq_begin p rid nid inputs cid now ids) (s, fs) =
     (case app_begin_execution port reg p rid nid inputs cid now ids s of (s', x) \<Rightarrow> (s', take_off nid cid x @ fs))"
| "serve port reg digest (Rq_finish k answer now ids) (s, fs) =
     (if k < length fs then
        (fst (app_finish_execution port (fl_run (fs ! k)) (fl_version (fs ! k)) (fl_node (fs ! k)) answer
                (fl_command (fs ! k)) now ids s), take k fs @ drop (Suc k) fs)
      else (s, fs))"
| "serve port reg digest (Rq_complete p rid nid sm fp outs cid now ids) (s, fs) =
     (fst (app_complete_node port reg p rid nid sm fp outs cid now ids s), fs)"
| "serve port reg digest (Rq_fail p rid nid code re cid now ids) (s, fs) =
     (fst (app_fail_node port reg p rid nid code re cid now ids s), fs)"
| "serve port reg digest (Rq_skip p rid nid reason cid now ids) (s, fs) =
     (fst (app_skip_node port reg p rid nid reason cid now ids s), fs)"
| "serve port reg digest (Rq_confirm p rid nid cid now ids) (s, fs) =
     (fst (app_confirm_node_cancel port reg p rid nid cid now ids s), fs)"
| "serve port reg digest (Rq_cancel p rid cid now ids) (s, fs) =
     (ww_store (fst (app_cancel port reg p rid cid now ids \<lparr>ww_store = s, ww_calls = []\<rparr>)), fs)"

text \<open>
  What is assumed of a request: the UUIDs it is given are unused, and its command id has not been used in
  the run before.
\<close>

definition new_command :: "('s \<Rightarrow> uuid \<Rightarrow> wf_run option) \<Rightarrow> ('s \<Rightarrow> uuid set) \<Rightarrow> 's \<Rightarrow> uuid \<Rightarrow> string \<Rightarrow> event_ids \<Rightarrow> bool" where
  "new_command view used s rid cid ids \<longleftrightarrow> pg_btrim cid \<noteq> []
     \<and> (case view s rid of None \<Rightarrow> True | Some r \<Rightarrow> command_fresh cid r \<and> new_ids_ok (used s) r ids)"

fun request_fresh :: "wf_registry \<Rightarrow> ('s \<Rightarrow> uuid \<Rightarrow> wf_run option) \<Rightarrow> ('s \<Rightarrow> uuid set) \<Rightarrow> wf_request \<Rightarrow>
  's \<times> wf_flight list \<Rightarrow> bool" where
  "request_fresh reg view used (Rq_create c now rid nids ids) (s, fs) =
     (view s rid = None \<and> (case rg_get reg (cw_workflow_code c) (cw_workflow_version c) of None \<Rightarrow> True
      | Some v \<Rightarrow> distinct (map nids [0..<length (wv_nodes v)])
          \<and> insert (ids 1) (set (map nids [0..<length (wv_nodes v)])) \<inter> used s = {}))"
| "request_fresh reg view used (Rq_begin p rid nid inputs cid now ids) (s, fs) = new_command view used s rid cid ids"
| "request_fresh reg view used (Rq_finish k answer now ids) (s, fs) =
     (k < length fs \<longrightarrow> new_ids_ok (used s) (fl_run (fs ! k)) ids)"
| "request_fresh reg view used (Rq_complete p rid nid sm fp outs cid now ids) (s, fs) = new_command view used s rid cid ids"
| "request_fresh reg view used (Rq_fail p rid nid code re cid now ids) (s, fs) = new_command view used s rid cid ids"
| "request_fresh reg view used (Rq_skip p rid nid reason cid now ids) (s, fs) = new_command view used s rid cid ids"
| "request_fresh reg view used (Rq_confirm p rid nid cid now ids) (s, fs) = new_command view used s rid cid ids"
| "request_fresh reg view used (Rq_cancel p rid cid now ids) (s, fs) = new_command view used s rid cid ids"

inductive wf_served for port reg digest view used supplied s0 where
  idle: "wf_served port reg digest view used supplied s0 (s0, [])"
| served: "wf_served port reg digest view used supplied s0 (s, fs) \<Longrightarrow> supplied s \<Longrightarrow>
    request_fresh reg view used q (s, fs) \<Longrightarrow>
    wf_served port reg digest view used supplied s0 (serve port reg digest q (s, fs))"

section \<open>What every request keeps\<close>

context workflow_service
begin

definition tracked :: "'t \<Rightarrow> 's \<Rightarrow> bool" where
  \<comment> \<open>every stored run is one its version can reach with fresh commands\<close>
  "tracked R s \<longleftrightarrow> (\<forall>rid r. view s rid = Some r \<longrightarrow> (\<exists>v. version_ok v \<and> wf_reachable True v r
     \<and> rg_get (registry R) (wr_workflow_code r) (wr_workflow_version r) = Some v))"

definition airborne :: "'t \<Rightarrow> 's \<Rightarrow> wf_flight \<Rightarrow> bool" where
  \<comment> \<open>a flight holds the run as it was stored, or the stored run has moved on; its node is running\<close>
  "airborne R s f \<longleftrightarrow> (\<exists>r i. view s (wr_id (fl_run f)) = Some r
     \<and> (r = fl_run f \<or> strict_prefix (wr_events (fl_run f)) (wr_events r))
     \<and> find_version (registry R) (fl_run f) = Inr (fl_version f)
     \<and> log_ok (fl_run f) \<and> distinct (map we_id (wr_events (fl_run f))) \<and> event_id_set (fl_run f) \<subseteq> used s
     \<and> node_index (fl_node f) (fl_run f) = Inr i \<and> wn_status (wr_nodes (fl_run f) ! i) = WN_RUNNING
     \<and> pg_btrim (fl_command f) \<noteq> []
     \<and> (\<forall>oc now opr. opr \<in> set (outcome_ops (fl_node f) oc now (fl_command f)) \<longrightarrow> wf_op_fresh opr (fl_run f)))"

definition moved :: "'t \<Rightarrow> 's \<Rightarrow> 's \<Rightarrow> bool" where
  \<comment> \<open>what one request does to the stored runs\<close>
  "moved R s s' \<longleftrightarrow> ok s' \<and> used s \<subseteq> used s' \<and> (tracked R s \<longrightarrow> tracked R s')
     \<and> (\<forall>rid r. view s rid = Some r \<longrightarrow> (\<exists>r'. view s' rid = Some r' \<and> run_evolves r r'
          \<and> (r' = r \<or> strict_prefix (wr_events r) (wr_events r'))))"

lemma moved_refl: "ok s \<Longrightarrow> moved R s s"
  using run_evolves_refl by (auto simp: moved_def reflp_def)

lemma moved_step:
  assumes "stepped R rid opr ids s s'" "\<And>r. view s rid = Some r \<Longrightarrow> wf_op_fresh opr r"
  shows "moved R s s'"
proof -
  from assms(1) obtain r u v where st: "view s rid = Some r"
    "rg_get (registry R) (wr_workflow_code r) (wr_workflow_version r) = Some v" "version_ok v"
    "wf_exec v opr ids r = (u, Inr ())" "ok s'" "view s' = (view s)(rid \<mapsto> u)"
    "used s' = used s \<union> event_id_set u" unfolding stepped_def by blast
  note evol = exec_evolves [OF st(4)] and keys = exec_keys [OF st(4)]
  have "prefix (wr_events r) (wr_events u)" using evol unfolding run_evolves_def by blast
  then have log: "u = r \<or> strict_prefix (wr_events r) (wr_events u)"
    using fresh_exec_logs [OF st(4) assms(2) [OF st(1)]] by (auto simp: strict_prefix_def)
  have refl: "run_evolves q q" for q using run_evolves_refl by (simp add: reflp_def)
  have "tracked R s'" if "tracked R s"
  proof -
    from that st(1) obtain v' where "wf_reachable True v' r"
      "rg_get (registry R) (wr_workflow_code r) (wr_workflow_version r) = Some v'"
      unfolding tracked_def by blast
    with st(2) have "wf_reachable True v r" by simp
    from wf_reachable.stepped [OF this st(4)] assms(2) [OF st(1)] have "wf_reachable True v u" by blast
    with that st(2,3) keys show ?thesis unfolding tracked_def st(6) by auto
  qed
  with st(5,7) log evol refl show ?thesis unfolding moved_def st(6) by (auto simp: st(1))
qed

lemma moved_create: "created R rid now nids ids s s' \<Longrightarrow> moved R s s'"
proof -
  assume "created R rid now nids ids s s'"
  then obtain r r' v owner key input where c: "create_run v owner key input now rid nids ids = Inr r" "version_ok v"
    "rg_get (registry R) (wr_workflow_code r) (wr_workflow_version r) = Some v" "same_but_order r r'" "ok s'"
    "view s rid = None" "view s' = (view s)(rid \<mapsto> r')" "used s' = used s \<union> event_id_set r \<union> node_id_set r"
    unfolding created_def by blast
  from c(4) obtain ns where ns: "mset ns = mset (wr_nodes r)" "r' = r\<lparr>wr_nodes := ns\<rparr>"
    unfolding same_but_order_def by blast
  from wf_reachable.reordered [OF wf_reachable.created [OF c(1)] ns(1)] have "wf_reachable True v r'"
    by (simp add: ns(2))
  with c(2,3) have new: "\<exists>v. version_ok v \<and> wf_reachable True v r'
      \<and> rg_get (registry R) (wr_workflow_code r') (wr_workflow_version r') = Some v" by (auto simp: ns(2))
  then have "tracked R s \<longrightarrow> tracked R s'" unfolding tracked_def c(7) by simp
  moreover have "run_evolves q q" for q using run_evolves_refl by (simp add: reflp_def)
  ultimately show ?thesis unfolding moved_def using c(5-8) by auto
qed

lemma airborne_moved:
  assumes "moved R s s'" "airborne R s f"
  shows "airborne R s' f"
proof -
  from assms(2) obtain r i where f: "view s (wr_id (fl_run f)) = Some r"
    "r = fl_run f \<or> strict_prefix (wr_events (fl_run f)) (wr_events r)"
    and rest: "find_version (registry R) (fl_run f) = Inr (fl_version f)"
     "log_ok (fl_run f)" "distinct (map we_id (wr_events (fl_run f)))" "event_id_set (fl_run f) \<subseteq> used s"
     "node_index (fl_node f) (fl_run f) = Inr i" "wn_status (wr_nodes (fl_run f) ! i) = WN_RUNNING"
     "pg_btrim (fl_command f) \<noteq> []"
     "\<forall>oc now opr. opr \<in> set (outcome_ops (fl_node f) oc now (fl_command f)) \<longrightarrow> wf_op_fresh opr (fl_run f)"
    unfolding airborne_def by blast
  from assms(1) f(1) obtain r' where r': "view s' (wr_id (fl_run f)) = Some r'"
    "r' = r \<or> strict_prefix (wr_events r) (wr_events r')" "used s \<subseteq> used s'" unfolding moved_def by blast
  have "r' = fl_run f \<or> strict_prefix (wr_events (fl_run f)) (wr_events r')"
    using f(2) r'(2) prefix_order.less_trans by metis
  with r'(1,3) rest show ?thesis unfolding airborne_def by (intro exI [of _ r'] exI [of _ i]) blast
qed

lemma new_commandD:
  "new_command view used s rid cid ids \<Longrightarrow> pg_btrim cid \<noteq> []"
  "new_command view used s rid cid ids \<Longrightarrow> view s rid = Some r \<Longrightarrow> new_ids_ok (used s) r ids"
  "new_command view used s rid cid ids \<Longrightarrow> view s rid = Some r \<Longrightarrow> op_command opr = cid \<Longrightarrow> wf_op_fresh opr r"
  "new_command view used s rid cid ids \<Longrightarrow> view s rid = Some r \<Longrightarrow> command_fresh cid r"
  using command_fresh_op by (auto simp: new_command_def split: option.splits)

lemma node_command_moved:
  assumes "ok s" "sound R" "supplied s" "new_command view used s rid cid ids" "trimmed ct" "op_command opr = cid"
    "\<And>v r r' a. m v r = (r', Inr a) \<Longrightarrow> wf_exec v opr ids r = (r', Inr ())"
  shows "moved R s (fst (node_command port (registry R) p rid ct cid m s))"
proof -
  note fresh = new_commandD [OF assms(4)]
  have "results (\<lambda>s' x. s' = s \<or> stepped R rid opr ids s s') (node_command port (registry R) p rid ct cid m) s"
    by (rule node_command_effect [OF assms(1,2) fresh(2) assms(3,5) fresh(1)])
      (auto simp: run_result_Inr dest: assms(7))
  then show ?thesis
    using moved_refl [OF assms(1)] moved_step [OF _ fresh(3)] assms(6) by (auto simp: results_def)
qed

lemma take_off_airborne:
  assumes "ok s" "sound R" "new_command view used s rid cid ids" "begun R p rid nid inputs cid now ids s s' x"
    "f \<in> set (take_off nid cid x)"
  shows "airborne R s' f"
proof -
  from assms(5) obtain u v c where x: "x = Inr (Started u v c)"
    and f: "f = \<lparr>fl_run = u, fl_version = v, fl_node = nid, fl_command = cid\<rparr>"
    by (auto simp: take_off_def split: sum.splits wf_started.splits)
  from assms(4) obtain r ev where r: "view s rid = Some r" "find_version (registry R) r = Inr v"
    "start_node v nid now cid ids r = (u, Inr ev)" "stepped R rid (WO_start nid now cid) ids s s'" "view s' rid = Some u"
    unfolding begun_def x by auto
  have ex: "wf_exec v (WO_start nid now cid) ids r = (u, Inr ())" using r(3) by (simp add: bindA_def)
  note fresh = new_commandD [OF assms(3)]
  note vok = view_ok [OF assms(1) r(1)]
  have evol: "run_evolves r u" by (rule exec_evolves [OF ex])
  have "log_ok r" using vok unfolding run_storable_def by blast
  then have log: "log_ok u" using evol unfolding run_evolves_def by blast
  have ids: "distinct (map we_id (wr_events u))"
    by (rule exec_new_ids(1) [OF ex fresh(2) [OF r(1)]]) (use vok in auto)
  have used: "event_id_set u \<subseteq> used s'" using r(4,5) unfolding stepped_def by auto
  have keys: "wr_id u = rid" "find_version (registry R) u = Inr v"
    using exec_keys [OF ex] vok r(2) by (simp_all add: find_version_def)
  obtain i where i: "node_index nid u = Inr i" "wn_status (wr_nodes u ! i) = WN_RUNNING"
    using start_node_running [OF r(3)] by blast
  have free: "wf_op_fresh opr u" if "opr \<in> set (outcome_ops nid oc t cid)" for oc t opr
    using that started_fresh [OF fresh(4) [OF r(1)] r(3)] by (auto simp: outcome_ops_def split: if_splits)
  show ?thesis
    unfolding airborne_def f by (rule exI [of _ u], rule exI [of _ i]) (use r(5) log ids used keys i free fresh(1) in auto)
qed

lemma finish_moved:
  assumes "ok s" "sound R" "supplied s" "airborne R s f" "new_ids_ok (used s) (fl_run f) ids"
  shows "moved R s (fst (app_finish_execution port (fl_run f) (fl_version f) (fl_node f) answer (fl_command f) now ids s))"
    "view s (wr_id (fl_run f)) \<noteq> Some (fl_run f) \<Longrightarrow>
       \<exists>e. app_finish_execution port (fl_run f) (fl_version f) (fl_node f) answer (fl_command f) now ids s = (s, Inl e)"
proof -
  let ?finish = "app_finish_execution port (fl_run f) (fl_version f) (fl_node f) answer (fl_command f) now ids"
  from assms(4) obtain r i where f: "view s (wr_id (fl_run f)) = Some r"
    "r = fl_run f \<or> strict_prefix (wr_events (fl_run f)) (wr_events r)"
    and v: "find_version (registry R) (fl_run f) = Inr (fl_version f)"
    and log: "log_ok (fl_run f)" "distinct (map we_id (wr_events (fl_run f)))" "event_id_set (fl_run f) \<subseteq> used s"
    and i: "node_index (fl_node f) (fl_run f) = Inr i" "wn_status (wr_nodes (fl_run f) ! i) = WN_RUNNING"
    and c: "pg_btrim (fl_command f) \<noteq> []"
    and free: "\<And>oc now opr. opr \<in> set (outcome_ops (fl_node f) oc now (fl_command f)) \<Longrightarrow> wf_op_fresh opr (fl_run f)"
    unfolding airborne_def by blast
  have stale: "\<exists>e. ?finish s = (s, Inl e)" if "r \<noteq> fl_run f"
  proof -
    have lr: "log_ok r" using view_ok [OF assms(1) f(1)] unfolding run_storable_def by blast
    have sp: "strict_prefix (wr_events (fl_run f)) (wr_events r)" using f(2) that by blast
    have "results (\<lambda>s' x. s' = s \<and> (\<exists>e. x = Inl e)) ?finish s"
      by (rule finish_stale [OF assms(1) f(1) sp lr log(1) assms(5) log(2,3) _ i]) (erule free)
    then show ?thesis by (cases "?finish s") (auto simp: results_def)
  qed
  then show "view s (wr_id (fl_run f)) \<noteq> Some (fl_run f) \<Longrightarrow> \<exists>e. ?finish s = (s, Inl e)" using f(1) by simp
  show "moved R s (fst (?finish s))"
  proof (cases "r = fl_run f")
    case True
    have "results (\<lambda>s' x. s' = s \<or> (\<exists>opr \<in> set (outcome_ops (fl_node f) (case answer of None \<Rightarrow> executor_unavailable | Some c \<Rightarrow> c) now (fl_command f)).
      stepped R (wr_id (fl_run f)) opr ids s s')) ?finish s"
      by (rule finish_effect [OF assms(1-3) c refl v assms(5)]) (use f(1) True in simp)
    then show ?thesis
      using moved_refl [OF assms(1)] moved_step [of R "wr_id (fl_run f)" _ ids s] f(1) True free
      by (auto simp: results_def)
  next
    case False
    with stale moved_refl [OF assms(1)] show ?thesis by auto
  qed
qed

lemma trimmed_commands:
  "trimmed ''complete-node''" "trimmed ''fail-node''" "trimmed ''skip-node''" "trimmed ''confirm-cancel''"
  by (simp_all add: trimmed_def py_space_def)

lemma serve_moved:
  assumes "ok s" "sound R" "supplied s" "request_fresh (registry R) view used q (s, fs)"
    "\<And>f. f \<in> set fs \<Longrightarrow> airborne R s f" "serve port (registry R) digest q (s, fs) = (s', fs')"
  shows "moved R s s'" "f \<in> set fs' \<Longrightarrow> airborne R s' f"
proof -
  have both: "moved R s s' \<and> (\<forall>f \<in> set fs' - set fs. airborne R s' f)"
  proof (cases q)
    case (Rq_create c now rid nids ids)
    with assms(4) have "results (\<lambda>s' x. s' = s \<or> created R rid now nids ids s s')
       (app_create_run port (registry R) digest c now rid nids ids) s"
      by (intro create_effect [OF assms(1,2)]) (auto simp: lessThan_atLeast0)
    with assms(6) Rq_create moved_refl [OF assms(1)] moved_create show ?thesis by (auto simp: results_def)
  next
    case (Rq_begin p rid nid inputs cid now ids)
    with assms(4) have new: "new_command view used s rid cid ids" by simp
    obtain x where x: "app_begin_execution port (registry R) p rid nid inputs cid now ids s = (s', x)"
      and fs': "fs' = take_off nid cid x @ fs"
      using assms(6) Rq_begin by (auto split: prod.splits)
    note fresh = new_commandD [OF new]
    from resultsD [OF begin_effect [OF assms(1,2) fresh(2) assms(3) fresh(1)] x]
    have b: "begun R p rid nid inputs cid now ids s s' x" .
    then have "s' = s \<or> stepped R rid (WO_reject nid ''INPUT_INVALID'' now cid) ids s s' \<or> stepped R rid (WO_start nid now cid) ids s s'"
      unfolding begun_def by (auto split: sum.splits wf_started.splits)
    then have "moved R s s'"
      using moved_refl [OF assms(1)] moved_step [OF _ fresh(3)] by auto
    with take_off_airborne [OF assms(1,2) new b] show ?thesis by (auto simp: fs')
  next
    case (Rq_finish k answer now ids)
    show ?thesis
    proof (cases "k < length fs")
      case True
      then have "fs ! k \<in> set fs" by simp
      from finish_moved(1) [OF assms(1-3) assms(5) [OF this]] assms(4,6) Rq_finish True show ?thesis
        by (auto dest: in_set_takeD in_set_dropD)
    next
      case False
      with assms(6) Rq_finish moved_refl [OF assms(1)] show ?thesis by auto
    qed
  next
    case (Rq_complete p rid nid sm fp outs cid now ids)
    have "moved R s (fst (node_command port (registry R) p rid ''complete-node'' cid (\<lambda>v. succeed_node v nid sm fp outs now cid ids) s))"
      by (rule node_command_moved [OF assms(1-3) _ trimmed_commands(1), where opr = "WO_succeed nid sm fp outs now cid"])
        (use assms(4) Rq_complete in \<open>auto simp: bindA_def\<close>)
    with assms(6) Rq_complete show ?thesis by (auto simp: app_complete_node_def)
  next
    case (Rq_fail p rid nid code re cid now ids)
    have "moved R s (fst (node_command port (registry R) p rid ''fail-node'' cid (\<lambda>v. fail_node nid code re now cid ids) s))"
      by (rule node_command_moved [OF assms(1-3) _ trimmed_commands(2), where opr = "WO_fail nid code re now cid"])
        (use assms(4) Rq_fail in \<open>auto simp: bindA_def\<close>)
    with assms(6) Rq_fail show ?thesis by (auto simp: app_fail_node_def)
  next
    case (Rq_skip p rid nid reason cid now ids)
    have "moved R s (fst (node_command port (registry R) p rid ''skip-node'' cid (\<lambda>v. skip_node nid reason now cid ids) s))"
      by (rule node_command_moved [OF assms(1-3) _ trimmed_commands(3), where opr = "WO_skip nid reason now cid"])
        (use assms(4) Rq_skip in \<open>auto simp: bindA_def\<close>)
    with assms(6) Rq_skip show ?thesis by (auto simp: app_skip_node_def)
  next
    case (Rq_confirm p rid nid cid now ids)
    have "moved R s (fst (node_command port (registry R) p rid ''confirm-cancel'' cid (\<lambda>v. confirm_node_cancel nid now cid ids) s))"
      by (rule node_command_moved [OF assms(1-3) _ trimmed_commands(4), where opr = "WO_confirm nid now cid"])
        (use assms(4) Rq_confirm in \<open>auto simp: bindA_def\<close>)
    with assms(6) Rq_confirm show ?thesis by (auto simp: app_confirm_node_cancel_def)
  next
    case (Rq_cancel p rid cid now ids)
    with assms(4) have new: "new_command view used s rid cid ids" by simp
    note fresh = new_commandD [OF new]
    have "results (\<lambda>w' x. ww_store w' = s \<or> stepped R rid (WO_cancel now cid) ids s (ww_store w'))
      (app_cancel port (registry R) p rid cid now ids) \<lparr>ww_store = s, ww_calls = []\<rparr>"
      by (rule cancel_effect [OF assms(1,2) fresh(2) assms(3) fresh(1)]) simp_all
    with assms(6) Rq_cancel moved_refl [OF assms(1)] moved_step [OF _ fresh(3)] show ?thesis
      by (auto simp: results_def)
  qed
  then show "moved R s s'" by blast
  with both airborne_moved assms(5) show "f \<in> set fs' \<Longrightarrow> airborne R s' f" by blast
qed

lemma traffic_ok:
  assumes "wf_served port (registry R) digest view used supplied s0 (s, fs)" "sound R" "ok s0" "tracked R s0"
  shows "ok s \<and> tracked R s \<and> (\<forall>f \<in> set fs. airborne R s f)"
  using assms(1)
proof (induction "(s, fs)" arbitrary: s fs rule: wf_served.induct)
  case idle
  with assms(3,4) show ?case by simp
next
  case (served s fs q s' fs')
  from served(2) have inv: "ok s" "tracked R s" "\<And>f. f \<in> set fs \<Longrightarrow> airborne R s f" by blast+
  have "serve port (registry R) digest q (s, fs) = (s', fs')" using served(5) by simp
  note m = serve_moved [OF inv(1) assms(2) served(3,4) inv(3) this]
  from m(1) inv(2) have "ok s' \<and> tracked R s'" unfolding moved_def by blast
  with m(2) show ?case by blast
qed

end

end
