(* ===== verification/Workflow_Use_Cases.thy ===== *)
theory Workflow_Use_Cases
  imports Workflow_Traffic
begin

text \<open>
  The use cases on one run as a type, so that what they have in common can be said once: a command that
  was handled before is answered from the stored run, the runs of others cannot be told from missing ones.
\<close>

datatype wf_use_case =
    UC_execute string json datetime event_ids datetime event_ids
  | UC_complete string string "string option" json_dict datetime event_ids
  | UC_fail string string bool datetime event_ids
  | UC_skip string string datetime event_ids
  | UC_confirm string datetime event_ids
  | UC_cancel datetime event_ids

fun command_type :: "wf_use_case \<Rightarrow> string" where
  "command_type (UC_execute nid inputs now ids now2 ids2) = ''execute-node''"
| "command_type (UC_complete nid sm fp outs now ids) = ''complete-node''"
| "command_type (UC_fail nid code re now ids) = ''fail-node''"
| "command_type (UC_skip nid reason now ids) = ''skip-node''"
| "command_type (UC_confirm nid now ids) = ''confirm-cancel''"
| "command_type (UC_cancel now ids) = ''cancel''"

fun perform :: "'s workflow_port \<Rightarrow> wf_registry \<Rightarrow> wf_executor \<Rightarrow> principal \<Rightarrow> uuid \<Rightarrow> string \<Rightarrow> wf_use_case \<Rightarrow>
  ('s wf_world, wf_error, wf_run_view) action" where
  "perform port reg exec p rid cid (UC_execute nid inputs now ids now2 ids2) =
     app_execute_node port reg exec p rid nid inputs cid now ids now2 ids2"
| "perform port reg exec p rid cid (UC_complete nid sm fp outs now ids) =
     on_store (app_complete_node port reg p rid nid sm fp outs cid now ids)"
| "perform port reg exec p rid cid (UC_fail nid code re now ids) =
     on_store (app_fail_node port reg p rid nid code re cid now ids)"
| "perform port reg exec p rid cid (UC_skip nid reason now ids) =
     on_store (app_skip_node port reg p rid nid reason cid now ids)"
| "perform port reg exec p rid cid (UC_confirm nid now ids) =
     on_store (app_confirm_node_cancel port reg p rid nid cid now ids)"
| "perform port reg exec p rid cid (UC_cancel now ids) = app_cancel port reg p rid cid now ids"

lemma on_store_same: "m (ww_store w) = (ww_store w, x) \<Longrightarrow> on_store m w = (w, x)"
  by (simp add: on_store_def)

lemmas node_commands = app_complete_node_def app_fail_node_def app_skip_node_def app_confirm_node_cancel_def

lemma require_principal_self: "require_principal p = Inr t \<Longrightarrow> t = p"
  by (auto simp: require_principal_def split: if_splits option.splits)

section \<open>Inputs of a node\<close>

lemma validate_inputs_Inr:
  "validate_inputs names inputs = Inr d \<longleftrightarrow> inputs = JObj d \<and> dict_keys d = set names \<and> json_ok (JObj d)"
  by (auto simp: validate_inputs_def split: json.splits if_splits)

lemma picked_Inr:
  "picked refs names = Inr new \<Longrightarrow> map fst new = names \<and> (\<forall>(f, v) \<in> set new. map_of refs f = Some v)"
proof (unfold picked_def, induction names arbitrary: new)
  case (Cons f names)
  then show ?case by (auto simp: errE_simps split: option.splits)
qed simp

lemma map_of_dict_update:
  "map_of (dict_update d d') k = (case map_of (rev d') k of Some v \<Rightarrow> Some v | None \<Rightarrow> map_of d k)"
proof (induction d' arbitrary: d)
  case (Cons x d')
  obtain a v where x: "x = (a, v)" by fastforce
  have "dict_update d (x # d') = dict_update (AList.update a v d) d'" by (simp add: dict_update_def x)
  with Cons show ?case by (auto simp: x update_conv' map_add_def split: option.splits)
qed (simp add: dict_update_def)

lemma merged_fields:
  assumes "foldE (\<lambda>e merged. bindE (picked (refs e) (ed_output_fields e)) (\<lambda>new. Inr (dict_update merged new))) es m = Inr m'"
  shows "f \<notin> set (concat (map ed_output_fields es)) \<Longrightarrow> map_of m' f = map_of m f"
    "sorted_wrt (\<lambda>e e'. set (ed_output_fields e) \<inter> set (ed_output_fields e') = {}) es \<Longrightarrow> e \<in> set es \<Longrightarrow>
     f \<in> set (ed_output_fields e) \<Longrightarrow> map_of m' f = map_of (refs e) f"
proof -
  have "(f \<notin> set (concat (map ed_output_fields es)) \<longrightarrow> map_of m' f = map_of m f)
    \<and> (sorted_wrt (\<lambda>e e'. set (ed_output_fields e) \<inter> set (ed_output_fields e') = {}) es \<longrightarrow>
       (\<forall>e \<in> set es. f \<in> set (ed_output_fields e) \<longrightarrow> map_of m' f = map_of (refs e) f))"
    using assms
  proof (induction es arbitrary: m)
    case (Cons e es)
    then obtain new where new: "picked (refs e) (ed_output_fields e) = Inr new"
      and rest: "foldE (\<lambda>e merged. bindE (picked (refs e) (ed_output_fields e)) (\<lambda>new. Inr (dict_update merged new)))
        es (dict_update m new) = Inr m'" by (auto simp: errE_simps)
    note p = picked_Inr [OF new]
    have keys: "fst ` set new = set (ed_output_fields e)" using p by (metis list.set_map)
    have hit: "map_of (dict_update m new) f = map_of (refs e) f" if "f \<in> set (ed_output_fields e)"
    proof -
      from that keys have "f \<in> fst ` set (rev new)" by simp
      then obtain v where v: "map_of (rev new) f = Some v" by (metis map_of_eq_None_iff not_Some_eq)
      then have "(f, v) \<in> set new" using map_of_SomeD [OF v] by simp
      with p v show ?thesis by (auto simp: map_of_dict_update)
    qed
    have miss: "map_of (dict_update m new) f = map_of m f" if "f \<notin> set (ed_output_fields e)"
    proof -
      from that keys have "f \<notin> fst ` set (rev new)" by simp
      then have "map_of (rev new) f = None" by (simp add: map_of_eq_None_iff)
      then show ?thesis by (simp add: map_of_dict_update)
    qed
    note ih = Cons.IH [OF rest]
    show ?case
    proof (intro conjI impI ballI)
      assume "f \<notin> set (concat (map ed_output_fields (e # es)))"
      with ih miss show "map_of m' f = map_of m f" by simp
    next
      fix e' assume s: "sorted_wrt (\<lambda>e e'. set (ed_output_fields e) \<inter> set (ed_output_fields e') = {}) (e # es)"
        and e': "e' \<in> set (e # es)" "f \<in> set (ed_output_fields e')"
      show "map_of m' f = map_of (refs e') f"
      proof (cases "e' \<in> set es")
        case True
        with s e' ih show ?thesis by simp
      next
        case False
        with e' have "e' = e" by simp
        with s e' have "f \<notin> set (concat (map ed_output_fields es))" by auto
        with ih hit e' \<open>e' = e\<close> show ?thesis by simp
      qed
    qed
  qed simp
  then show "f \<notin> set (concat (map ed_output_fields es)) \<Longrightarrow> map_of m' f = map_of m f"
    "sorted_wrt (\<lambda>e e'. set (ed_output_fields e) \<inter> set (ed_output_fields e') = {}) es \<Longrightarrow> e \<in> set es \<Longrightarrow>
     f \<in> set (ed_output_fields e) \<Longrightarrow> map_of m' f = map_of (refs e) f" by blast+
qed

lemma bind_fields_Inr:
  "bind_fields e b = Inr b' \<longleftrightarrow> set b \<inter> set (ed_output_fields e) = {} \<and> b' = b @ ed_output_fields e"
  by (auto simp: bind_fields_def)

lemma bind_fields_disjoint:
  "foldE bind_fields es bound = Inr b \<Longrightarrow>
     sorted_wrt (\<lambda>e e'. set (ed_output_fields e) \<inter> set (ed_output_fields e') = {}) es
     \<and> (\<forall>e \<in> set es. set bound \<inter> set (ed_output_fields e) = {})"
proof (induction es arbitrary: bound)
  case (Cons e es)
  then have "foldE bind_fields es (bound @ ed_output_fields e) = Inr b" "set bound \<inter> set (ed_output_fields e) = {}"
    by (simp_all add: bindE_Inr_iff bind_fields_Inr)
  with Cons.IH show ?case by fastforce
qed simp

lemma version_bindings_disjoint:
  assumes "version_ok v" "version_node v nid = Inr d" "incoming_edges v nid = Inr es"
  shows "sorted_wrt (\<lambda>e e'. set (ed_output_fields e) \<inter> set (ed_output_fields e') = {}) es"
proof -
  have d: "d \<in> set (wv_nodes v)" "nd_node_id d = nid"
    using assms(2) by (auto simp: version_node_def find_node_def_def find_Some_iff split: option.splits)
  let ?v = "\<lparr>wv_workflow_code = wv_workflow_code v, wv_version = wv_version v, wv_nodes = wv_nodes v,
      wv_edges = wv_edges v, wv_enabled = wv_enabled v\<rparr>"
  have "foldE (check_bindings v) (wv_nodes v) () = Inr ()"
    using assms(1) by (auto simp: version_ok_def mk_version_def errE_simps Let_def split: if_splits)
  with d have "check_bindings v d () = Inr ()" by (simp add: foldE_unit)
  with assms(3) d(2) obtain b where "foldE bind_fields es [] = Inr b" by (auto simp: check_bindings_def errE_simps)
  then show ?thesis using bind_fields_disjoint by blast
qed

lemma built_inputs:
  assumes "version_ok v" "version_node v nid = Inr d" "incoming_edges v nid = Inr es"
    "build_node_inputs r v nid (JObj kvs) = Inr given"
  shows "dict_keys given = set (nd_input_fields d)"
    "e \<in> set es \<Longrightarrow> f \<in> set (ed_output_fields e) \<Longrightarrow> map_of given f = map_of (output_references (ed_source e) r) f"
    "f \<notin> set (concat (map ed_output_fields es)) \<Longrightarrow> map_of given f = map_of kvs f"
proof -
  let ?bound = "set (concat (map ed_output_fields es))"
  let ?step = "\<lambda>e merged. bindE (picked (output_references (ed_source e) r) (ed_output_fields e))
     (\<lambda>new. Inr (dict_update merged new))"
  from assms(4) obtain m where m: "foldE ?step es (filter (\<lambda>kv. fst kv \<notin> ?bound) kvs) = Inr m"
    and given: "validate_inputs (nd_input_fields d) (JObj m) = Inr given"
    unfolding build_node_inputs_def assms(2,3) by (auto simp: errE_simps Let_def validate_inputs_Inr)
  have "given = m" "dict_keys m = set (nd_input_fields d)" using given by (auto simp: validate_inputs_Inr)
  then show "dict_keys given = set (nd_input_fields d)" by simp
  show "e \<in> set es \<Longrightarrow> f \<in> set (ed_output_fields e) \<Longrightarrow> map_of given f = map_of (output_references (ed_source e) r) f"
    using merged_fields(2) [OF m version_bindings_disjoint [OF assms(1-3)]] \<open>given = m\<close> by simp
  have "map_of (filter (\<lambda>kv. fst kv \<notin> ?bound) kvs) f = map_of kvs f" if "f \<notin> ?bound"
    using that by (induction kvs) auto
  with merged_fields(1) [OF m] \<open>given = m\<close>
  show "f \<notin> set (concat (map ed_output_fields es)) \<Longrightarrow> map_of given f = map_of kvs f" by simp
qed

lemma built_inputs_object: "build_node_inputs r v nid inputs = Inr given \<Longrightarrow> \<exists>kvs. inputs = JObj kvs"
  by (cases inputs) (auto simp: build_node_inputs_def errE_simps Let_def validate_inputs_Inr)

context workflow_service
begin

lemma locked_refused:
  assumes "ok s" "require_principal p = Inr p" "found_owned (subject_of p) (view s rid) = Inl e"
  shows "bindA (locked_run port p rid) f s = (s, Inl e)"
  using assms by (simp add: locked_run_eq bindA_def)

lemma locked_found:
  assumes "ok s" "require_principal p = Inr p" "view s rid = Some r" "wr_owner_subject r = subject_of p"
  shows "bindA (locked_run port p rid) f s = f r s"
  using assms by (simp add: locked_run_eq bindA_def found_owned_def)

lemma processed_found:
  "ok s \<Longrightarrow> bindA (readA (wp_has_processed_command port rid ct cid)) f s = f ((rid, ct, cid) \<in> handled s) s"
  by (simp add: bindA_def has_processed)

lemma found_owned_Inl:
  "(\<And>r. view s rid = Some r \<Longrightarrow> wr_owner_subject r \<noteq> subject_of p) \<Longrightarrow>
    found_owned (subject_of p) (view s rid) = Inl WfLookupError"
  by (cases "view s rid") (simp_all add: found_owned_def)

lemma perform_refused:
  assumes "ok (ww_store w)" "require_principal p = Inr p"
    "\<And>r. view (ww_store w) rid = Some r \<Longrightarrow> wr_owner_subject r \<noteq> subject_of p"
  shows "perform port reg exec p rid cid uc w = (w, Inl WfLookupError)"
proof -
  note refused = locked_refused [OF assms(1,2) found_owned_Inl [OF assms(3)]]
  have node: "on_store (node_command port reg p rid ct cid m) w = (w, Inl WfLookupError)" for ct m
    by (rule on_store_same) (simp add: node_command_def owned_run_def bindA_assoc refused)
  show ?thesis
  proof (cases uc)
    case (UC_execute nid inputs now ids now2 ids2)
    have "on_store (app_begin_execution port reg p rid nid inputs cid now ids) w = (w, Inl WfLookupError)"
      by (rule on_store_same) (simp add: app_begin_execution_def refused)
    then show ?thesis by (simp add: UC_execute app_execute_node_def bindA_def)
  next
    case (UC_cancel now ids)
    have "on_store (locked_run port p rid) w = (w, Inl WfLookupError)"
      by (rule on_store_same) (simp add: locked_run_eq [OF assms(1)] found_owned_Inl [OF assms(3)] assms(2))
    then show ?thesis by (simp add: UC_cancel app_cancel_def bindA_def)
  qed (simp_all add: node_commands node)
qed

lemma perform_replayed:
  assumes "ok (ww_store w)" "require_principal p = Inr p" "view (ww_store w) rid = Some r"
    "wr_owner_subject r = subject_of p" "find_version reg r = Inr v" "(rid, command_type uc, cid) \<in> handled (ww_store w)"
  shows "perform port reg exec p rid cid uc w = (w, Inr (view_from_run r))"
proof -
  note found = locked_found [OF assms(1-4)] processed_found [OF assms(1)]
  have node: "on_store (node_command port reg p rid ct cid m) w = (w, Inr (view_from_run r))"
    if "(rid, ct, cid) \<in> handled (ww_store w)" for ct m
    by (rule on_store_same) (simp add: node_command_def owned_run_def bindA_assoc found assms(5) that)
  show ?thesis
  proof (cases uc)
    case (UC_execute nid inputs now ids now2 ids2)
    have "on_store (app_begin_execution port reg p rid nid inputs cid now ids) w = (w, Inr (Answered (view_from_run r)))"
      by (rule on_store_same) (use assms(6) UC_execute in \<open>simp add: app_begin_execution_def found\<close>)
    then show ?thesis by (simp add: UC_execute app_execute_node_def bindA_def)
  next
    case (UC_cancel now ids)
    have "on_store (locked_run port p rid) w = (w, Inr r)"
      using assms(2-4) by (intro on_store_same) (simp add: locked_run_eq [OF assms(1)] found_owned_def)
    moreover have "on_store (readA (wp_has_processed_command port rid ''cancel'' cid)) w = (w, Inr True)"
      using assms(6) UC_cancel by (intro on_store_same) (simp add: has_processed [OF assms(1)])
    ultimately show ?thesis by (simp add: UC_cancel app_cancel_def bindA_def)
  qed (use assms(6) in \<open>simp_all add: node_commands node\<close>)
qed

lemma on_store_result: "on_store m w = (w\<lparr>ww_store := fst (m (ww_store w))\<rparr>, snd (m (ww_store w)))"
  by (simp add: on_store_def case_prod_unfold)

lemma execute_calls:
  assumes "ok (ww_store w)" "sound R" "new_command view used (ww_store w) rid cid ids" "supplied (ww_store w)"
    "app_execute_node port (registry R) exec p rid nid inputs cid now ids now2 ids2 w = (w', x)"
  shows "ww_calls w' = ww_calls w
    \<or> (\<exists>r v d given ready. ww_calls w' = ww_calls w @ [Execute \<lparr>xe_principal = p, xe_version = v, xe_node = d, xe_inputs = given\<rparr>]
        \<and> view (ww_store w) rid = Some r \<and> wr_owner_subject r = subject_of p \<and> find_version (registry R) r = Inr v
        \<and> ready_nodes v r = Inr ready \<and> nid \<in> set ready \<and> version_node v nid = Inr d
        \<and> build_node_inputs r v nid inputs = Inr given)"
proof -
  note fresh = new_commandD [OF assms(3)]
  let ?s = "ww_store w" and ?first = "app_begin_execution port (registry R) p rid nid inputs cid now ids"
  obtain s1 y where y: "?first ?s = (s1, y)" by fastforce
  from resultsD [OF begin_effect [OF assms(1,2) fresh(2) assms(4) fresh(1)] y]
  have b: "begun R p rid nid inputs cid now ids ?s s1 y" .
  show ?thesis
  proof (cases "\<exists>u v c. y = Inr (Started u v (Inr c))")
    case True
    then obtain u v c where c: "y = Inr (Started u v (Inr c))" by blast
    from b obtain r d given ready where r: "view ?s rid = Some r" "wr_owner_subject r = subject_of p"
      "find_version (registry R) r = Inr v" "ready_nodes v r = Inr ready" "nid \<in> set ready" "version_node v nid = Inr d"
      "build_node_inputs r v nid inputs = Inr given" "Inr c = mk_exec_command p v d given"
      unfolding begun_def c by auto
    have "c = \<lparr>xe_principal = p, xe_version = v, xe_node = d, xe_inputs = given\<rparr>"
      using r(8) by (simp add: mk_exec_command_def split: if_splits)
    moreover have "ww_calls w' = ww_calls w @ [Execute c]"
      using assms(5) y c by (auto simp: app_execute_node_def bindA_def on_store_result call_executor_def)
    ultimately show ?thesis using r by auto
  next
    case False
    with assms(5) y show ?thesis
      by (auto simp: app_execute_node_def bindA_def on_store_result call_executor_def
          split: sum.splits wf_started.splits)
  qed
qed

lemma unsafe_output_raises:
  assumes "airborne R s f" "version_node (fl_version f) (fl_node f) = Inr d"
    "check_outputs d (oc_output_references oc) = Inr ()" "oc_status oc = ''completed''"
    "oc_output_fingerprint oc = Some fp" "\<not> is_safe_reference (py_strip fp)"
  shows "app_finish_execution port (fl_run f) (fl_version f) (fl_node f) (Some oc) (fl_command f) now ids s
     = (s, Inl WorkflowStateError)"
proof -
  let ?u = "fl_run f" and ?c = "fl_command f" and ?nid = "fl_node f" and ?outs = "oc_output_references oc"
  let ?sm = "text_or node_done (oc_result_summary oc)"
  from assms(1) obtain i where i: "node_index ?nid ?u = Inr i" "wn_status (wr_nodes ?u ! i) = WN_RUNNING"
    unfolding airborne_def by blast
  note len = conjunct1 [OF node_index_Inr [OF i(1)]]
  have bad: "wf_fingerprint (Some fp) = Inl WorkflowValidationError"
    using assms(6) by (simp add: wf_fingerprint_def wf_text_def)
  obtain n where n: "node_succeed ?sm (Some fp) ?outs now (?c @ '':succeed'') (Some (wr_id ?u)) (ids 0) (wr_nodes ?u ! i)
      = (n, Inl WorkflowValidationError)" "wn_status n = WN_SUCCEEDED" "wn_node_id n = wn_node_id (wr_nodes ?u ! i)"
    using i(2) by (cases "wf_text ?sm") (auto simp: node_succeed_def bad Let_def bindA_def wf_text_def split: if_splits)
  let ?u1 = "?u\<lparr>wr_nodes := (wr_nodes ?u)[i := n]\<rparr>"
  have "succeed_node (fl_version f) ?nid ?sm (Some fp) ?outs now ?c ids ?u = (?u1, Inl WorkflowValidationError)"
    using i assms(2,3) n(1) by (simp add: succeed_node_def bindA_def Let_def on_node_def)
  moreover have "\<exists>u2. fail_node ?nid ''OUTPUT_INVALID'' False now ?c ids ?u1 = (u2, Inl WorkflowStateError)"
  proof (rule fail_succeeded_refused)
    show "node_index ?nid ?u1 = Inr i"
      using node_index_cong [of ?u1 ?u] i(1) len n(3) by (simp add: map_update list_update_same_conv)
    show "wn_status (wr_nodes ?u1 ! i) = WN_SUCCEEDED" using len n(2) by simp
  qed
  ultimately have "run_result (settle_outcome (fl_version f) ?nid oc now ?c ids) ?u = Inl WorkflowStateError"
    using assms(4,5) by (auto simp: run_result_def settle_outcome_def tryA_def bindA_def)
  then show ?thesis by (simp add: app_finish_execution_def)
qed

lemma create_again:
  assumes "ok s" "view s i = Some r" "require_principal (cw_principal c) = Inr p"
    "rg_get reg (cw_workflow_code c) (cw_workflow_version c) = Some v" "wv_enabled v"
    "rg_validate_access reg v (pr_permissions p) = Inr u" "root_fields v = Inr names"
    "validate_inputs names (cw_inputs c) = Inr d"
    "create_run v (subject_of p) (cw_idempotency_key c) (input_fingerprint digest d) now rid nids ids = Inr q"
    "run_key r = run_key q"
  shows "app_create_run port reg digest c now rid nids ids s = (s,
    if wr_input_fingerprint r = wr_input_fingerprint q then Inr (view_from_run r)
    else Inl WorkflowIdempotencyConflictError)"
proof -
  have "writeA (wp_create_or_get port q) s = (s, Inr r)"
    using create_existing [OF assms(1,2,10)] by (simp add: writeA_def)
  then show ?thesis
    using assms(3-9) by (simp add: app_create_run_def) (simp add: bindA_def)
qed

end

end
