(* ===== verification/Workflow_Store.thy ===== *)
theory Workflow_Store
  imports Workflow_Port
begin

text \<open>
  The PostgreSQL adapter of the workflow repository
  (\<open>app/infrastructure/persistence/repositories/workflow_repository.py\<close>) over the tables and constraints
  of \<open>app/infrastructure/persistence/models/workflow.py\<close>. A table is the list of its rows; a commit checks
  every declared constraint and, when one is violated, writes nothing.

  The collation by which PostgreSQL orders the node ids, the UUIDs drawn for receipts and the clock of
  the session are fields of the database.
\<close>

section \<open>Tables and constraints\<close>

record wf_db =
  wdb_runs :: "run_record list"
  wdb_nodes :: "node_record list"
  wdb_events :: "wf_event_record list"
  wdb_receipts :: "wf_receipt_record list"
  wdb_collate :: "string \<Rightarrow> string" \<comment> \<open>the sort key of the collation\<close>
  wdb_uuid4 :: "nat \<Rightarrow> uuid"
  wdb_drawn :: nat
  wdb_now :: int

definition run_row_ok :: "run_record \<Rightarrow> bool" where
  "run_row_ok r \<longleftrightarrow>
     pg_btrim (rn_owner_subject r) \<noteq> [] \<and> pg_btrim (rn_workflow_code r) \<noteq> []
     \<and> pg_btrim (rn_workflow_version r) \<noteq> [] \<and> pg_btrim (rn_idempotency_key r) \<noteq> []
     \<and> pg_btrim (rn_input_fingerprint r) \<noteq> []
     \<and> rn_status r \<in> {''queued'', ''running'', ''accepted'', ''succeeded'', ''failed'',
         ''cancel_requested'', ''cancelled''}
     \<and> rn_created_at r \<noteq> None \<and> rn_updated_at r \<noteq> None"

definition node_row_ok :: "node_record \<Rightarrow> bool" where
  "node_row_ok r \<longleftrightarrow>
     pg_btrim (no_node_id r) \<noteq> [] \<and> pg_btrim (no_capability_code r) \<noteq> [] \<and> 0 < no_max_attempts r
     \<and> 0 \<le> no_attempt_count r \<and> no_attempt_count r \<le> no_max_attempts r
     \<and> no_status r \<in> {''queued'', ''running'', ''accepted'', ''succeeded'', ''failed'',
         ''cancel_requested'', ''cancelled'', ''skipped''}
     \<and> no_created_at r \<noteq> None \<and> no_updated_at r \<noteq> None"

definition wf_event_row_ok :: "wf_event_record \<Rightarrow> bool" where
  \<comment> \<open>the metadata column holds an object by its type\<close>
  "wf_event_row_ok r \<longleftrightarrow> 0 < ev_sequence r \<and> pg_btrim (ev_transition_id r) \<noteq> []"

definition wf_receipt_row_ok :: "wf_receipt_record \<Rightarrow> bool" where
  "wf_receipt_row_ok r \<longleftrightarrow> pg_btrim (wc_command_type r) \<noteq> [] \<and> pg_btrim (wc_command_id r) \<noteq> []"

definition row_key :: "run_record \<Rightarrow> string \<times> string \<times> string \<times> string" where
  "row_key r = (rn_owner_subject r, rn_workflow_code r, rn_workflow_version r, rn_idempotency_key r)"

definition run_table_ok :: "run_record list \<Rightarrow> bool" where
  "run_table_ok rs \<longleftrightarrow> list_all run_row_ok rs \<and> distinct (map rn_id rs) \<and> distinct (map row_key rs)"

definition node_table_ok :: "uuid list \<Rightarrow> node_record list \<Rightarrow> bool" where
  "node_table_ok rids rs \<longleftrightarrow>
     list_all node_row_ok rs \<and> distinct (map no_id rs)
     \<and> distinct (map (\<lambda>r. (no_run_id r, no_node_id r)) rs)
     \<and> list_all (\<lambda>r. no_run_id r \<in> set rids) rs"

definition wf_event_table_ok :: "uuid list \<Rightarrow> wf_event_record list \<Rightarrow> bool" where
  "wf_event_table_ok rids rs \<longleftrightarrow>
     list_all wf_event_row_ok rs \<and> distinct (map ev_id rs)
     \<and> distinct (map (\<lambda>r. (ev_run_id r, ev_sequence r)) rs)
     \<and> distinct (map (\<lambda>r. (ev_run_id r, ev_transition_id r)) rs)
     \<and> list_all (\<lambda>r. ev_run_id r \<in> set rids) rs"

definition wf_receipt_table_ok :: "uuid list \<Rightarrow> wf_receipt_record list \<Rightarrow> bool" where
  "wf_receipt_table_ok rids rs \<longleftrightarrow>
     list_all wf_receipt_row_ok rs \<and> distinct (map wc_id rs)
     \<and> distinct (map (\<lambda>r. (wc_run_id r, wc_command_type r, wc_command_id r)) rs)
     \<and> list_all (\<lambda>r. wc_run_id r \<in> set rids) rs"

definition wf_constraints_ok :: "wf_db \<Rightarrow> bool" where
  "wf_constraints_ok db \<longleftrightarrow>
     (let rids = map rn_id (wdb_runs db)
      in run_table_ok (wdb_runs db) \<and> node_table_ok rids (wdb_nodes db)
         \<and> wf_event_table_ok rids (wdb_events db) \<and> wf_receipt_table_ok rids (wdb_receipts db))"

definition wf_commit :: "wf_db \<Rightarrow> wf_error + wf_db" where
  "wf_commit db = (if wf_constraints_ok db then Inr db else Inl WfIntegrityError)"

section \<open>Reading\<close>

definition nodes_of :: "wf_db \<Rightarrow> uuid \<Rightarrow> node_record list" where
  "nodes_of db rid =
     sort_key (\<lambda>r. wdb_collate db (no_node_id r)) (filter (\<lambda>r. no_run_id r = rid) (wdb_nodes db))"

definition wf_events_of :: "wf_db \<Rightarrow> uuid \<Rightarrow> wf_event_record list" where
  "wf_events_of db rid = sort_key ev_sequence (filter (\<lambda>r. ev_run_id r = rid) (wdb_events db))"

definition from_run_record :: "wf_db \<Rightarrow> run_record \<Rightarrow> wf_error + wf_run" where
  "from_run_record db r = run_from_records r (nodes_of db (rn_id r)) (wf_events_of db (rn_id r))"

definition load_run :: "wf_db \<Rightarrow> run_record list \<Rightarrow> wf_error + wf_run option" where
  \<comment> \<open>\<open>session.scalar(statement)\<close> and the run of the row it returns\<close>
  "load_run db rs =
     (case rs of [] \<Rightarrow> Inr None | r # _ \<Rightarrow> bindE (from_run_record db r) (\<lambda>x. Inr (Some x)))"

definition pw_load :: "uuid \<Rightarrow> wf_db \<Rightarrow> wf_error + wf_run option" where
  "pw_load rid db = load_run db (filter (\<lambda>r. rn_id r = rid) (wdb_runs db))"

definition pw_get :: "uuid \<Rightarrow> wf_db \<Rightarrow> wf_error + wf_run option" where
  "pw_get rid db = pw_load rid db"

definition pw_get_for_update :: "uuid \<Rightarrow> wf_db \<Rightarrow> wf_error + wf_run option" where
  "pw_get_for_update rid db = pw_load rid db"

definition pw_get_owned :: "uuid \<Rightarrow> string \<Rightarrow> wf_db \<Rightarrow> wf_error + wf_run option" where
  "pw_get_owned rid owner db =
     load_run db (filter (\<lambda>r. rn_id r = rid \<and> rn_owner_subject r = owner) (wdb_runs db))"

definition pw_has_processed_command :: "uuid \<Rightarrow> string \<Rightarrow> string \<Rightarrow> wf_db \<Rightarrow> wf_error + bool" where
  "pw_has_processed_command rid ct cid db =
     Inr (list_ex (\<lambda>r. wc_run_id r = rid \<and> wc_command_type r = ct \<and> wc_command_id r = cid)
       (wdb_receipts db))"

section \<open>Writing\<close>

definition insert_run :: "wf_run \<Rightarrow> wf_db \<Rightarrow> wf_error + wf_db" where
  \<comment> \<open>the run row is flushed, then its nodes and events are added and committed\<close>
  "insert_run r db =
     bindE (wf_commit (db\<lparr>wdb_runs := wdb_runs db @ [run_to_record r]\<rparr>)) (\<lambda>db1.
       wf_commit (db1\<lparr>wdb_nodes := wdb_nodes db1 @ map (node_to_record (wr_id r)) (wr_nodes r),
                      wdb_events := wdb_events db1 @ map wf_event_to_record (wr_events r)\<rparr>))"

definition pw_create_or_get :: "wf_run \<Rightarrow> wf_db \<Rightarrow> wf_error + wf_db \<times> wf_run" where
  "pw_create_or_get r db =
     (case insert_run r db of
        Inr db' \<Rightarrow> Inr (db', r)
      | Inl WfIntegrityError \<Rightarrow>
          bindE (load_run db (filter (\<lambda>x. rn_owner_subject x = wr_owner_subject r
                  \<and> rn_workflow_code x = wr_workflow_code r
                  \<and> rn_workflow_version x = wr_workflow_version r
                  \<and> rn_idempotency_key x = wr_idempotency_key r) (wdb_runs db)))
            (\<lambda>found. case found of None \<Rightarrow> Inl WfIntegrityError | Some q \<Rightarrow> Inr (db, q))
      | Inl e \<Rightarrow> Inl e)"

definition save_node :: "uuid \<Rightarrow> uuid set \<Rightarrow> node_record list \<Rightarrow> wf_node \<Rightarrow> node_record list" where
  \<comment> \<open>one round of the node loop of \<open>save\<close>; \<open>ids\<close> are the rows that existed before it\<close>
  "save_node rid ids rows n =
     (if wn_id n \<in> ids
      then map (\<lambda>r. if no_id r = wn_id n \<and> no_run_id r = rid then update_node_record r n else r) rows
      else rows @ [node_to_record rid n])"

definition save_nodes :: "uuid \<Rightarrow> wf_node list \<Rightarrow> node_record list \<Rightarrow> node_record list" where
  "save_nodes rid ns rows =
     (let ids = no_id ` set (filter (\<lambda>r. no_run_id r = rid) rows)
      in foldl (save_node rid ids) rows ns)"

definition save_wf_events :: "uuid \<Rightarrow> wf_event list \<Rightarrow> wf_event_record list \<Rightarrow> wf_event_record list" where
  "save_wf_events rid es rows =
     (let ids = ev_id ` set (filter (\<lambda>r. ev_run_id r = rid) rows)
      in rows @ map wf_event_to_record (filter (\<lambda>e. we_id e \<notin> ids) es))"

definition add_wf_receipt :: "wf_receipt \<Rightarrow> wf_db \<Rightarrow> wf_db" where
  \<comment> \<open>insert the receipt unless it is there, drawing its id and creation time\<close>
  "add_wf_receipt q db =
     (if list_ex (\<lambda>r. wc_run_id r = wq_run_id q \<and> wc_command_type r = wq_command_type q
           \<and> wc_command_id r = wq_command_id q) (wdb_receipts db)
      then db
      else db\<lparr>wdb_receipts := wdb_receipts db @
                [\<lparr>wc_id = wdb_uuid4 db (wdb_drawn db), wc_run_id = wq_run_id q,
                  wc_command_type = wq_command_type q, wc_command_id = wq_command_id q,
                  wc_created_at = wdb_now db\<rparr>],
              wdb_drawn := Suc (wdb_drawn db)\<rparr>)"

definition pw_save :: "wf_run \<Rightarrow> wf_receipt option \<Rightarrow> wf_db \<Rightarrow> wf_error + wf_db" where
  "pw_save r receipt db =
     (if \<not> list_ex (\<lambda>x. rn_id x = wr_id r) (wdb_runs db) then Inl WfLookupError
      else
        let db1 = db\<lparr>wdb_runs := map (\<lambda>x. if rn_id x = wr_id r then update_run_record x r else x)
                       (wdb_runs db),
                     wdb_nodes := save_nodes (wr_id r) (wr_nodes r) (wdb_nodes db),
                     wdb_events := save_wf_events (wr_id r) (wr_events r) (wdb_events db)\<rparr>
        in wf_commit (case receipt of None \<Rightarrow> db1 | Some q \<Rightarrow> add_wf_receipt q db1))"

definition postgres_workflows :: "wf_db workflow_port" where
  "postgres_workflows =
     \<lparr>wp_get = pw_get, wp_get_for_update = pw_get_for_update, wp_get_owned = pw_get_owned,
      wp_create_or_get = pw_create_or_get, wp_save = pw_save,
      wp_has_processed_command = pw_has_processed_command\<rparr>"

end
