(* ===== verification/Workflow_Postgres.thy ===== *)
theory Workflow_Postgres
  imports Workflow_Store
begin

text \<open>
  The tables of the PostgreSQL adapter as a map from run ids to runs: the invariant \<open>wf_db_ok\<close> says that
  every run row belongs to a well-formed run whose node and event rows are exactly those stored; it
  implies the declared constraints, and every operation of the adapter keeps it and acts on the map as
  the contract of the port says. The interpretation is at the end.
\<close>

section \<open>The invariant\<close>

definition wf_represents :: "wf_db \<Rightarrow> wf_run \<Rightarrow> bool" where
  "wf_represents db r \<longleftrightarrow> run_storable r
     \<and> nodes_of db (wr_id r) = map (node_to_record (wr_id r)) (wr_nodes r)
     \<and> wf_events_of db (wr_id r) = map wf_event_to_record (wr_events r)"

definition wf_db_ok :: "wf_db \<Rightarrow> bool" where
  "wf_db_ok db \<longleftrightarrow>
     distinct (map rn_id (wdb_runs db)) \<and> distinct (map row_key (wdb_runs db))
     \<and> (\<forall>x \<in> set (wdb_runs db). \<exists>r. x = run_to_record r \<and> wf_represents db r)
     \<and> distinct (map no_id (wdb_nodes db)) \<and> distinct (map ev_id (wdb_events db))
     \<and> (\<forall>x \<in> set (wdb_nodes db). no_run_id x \<in> rn_id ` set (wdb_runs db))
     \<and> (\<forall>x \<in> set (wdb_events db). ev_run_id x \<in> rn_id ` set (wdb_runs db))
     \<and> wf_receipt_table_ok (map rn_id (wdb_runs db)) (wdb_receipts db)"

definition pw_view :: "wf_db \<Rightarrow> uuid \<Rightarrow> wf_run option" where
  "pw_view db rid = (case pw_load rid db of Inr (Some r) \<Rightarrow> Some r | _ \<Rightarrow> None)"

definition pw_handled :: "wf_db \<Rightarrow> (uuid \<times> string \<times> string) set" where
  "pw_handled db = (\<lambda>r. (wc_run_id r, wc_command_type r, wc_command_id r)) ` set (wdb_receipts db)"

definition pw_used :: "wf_db \<Rightarrow> uuid set" where
  "pw_used db = ev_id ` set (wdb_events db) \<union> no_id ` set (wdb_nodes db)"

definition pw_supplied :: "wf_db \<Rightarrow> bool" where
  "pw_supplied db \<longleftrightarrow> wdb_uuid4 db (wdb_drawn db) \<notin> wc_id ` set (wdb_receipts db)"

lemma wf_record_keys [simp]:
  "rn_id (run_to_record r) = wr_id r" "row_key (run_to_record r) = run_key r"
  "rn_owner_subject (run_to_record r) = wr_owner_subject r"
  "no_id (node_to_record rid n) = wn_id n" "no_run_id (node_to_record rid n) = rid"
  "no_node_id (node_to_record rid n) = wn_node_id n"
  "ev_id (wf_event_to_record ev) = we_id ev" "ev_run_id (wf_event_to_record ev) = we_run_id ev"
  "ev_sequence (wf_event_to_record ev) = we_sequence ev"
  "ev_transition_id (wf_event_to_record ev) = we_transition_id ev"
  by (simp_all add: run_to_record_def row_key_def run_key_def node_to_record_def wf_event_to_record_def)

lemma wf_update_keys [simp]:
  "rn_id (update_run_record x r) = rn_id x" "row_key (update_run_record x r) = row_key x"
  "no_id (update_node_record y n) = no_id y" "no_run_id (update_node_record y n) = no_run_id y"
  "no_node_id (update_node_record y n) = no_node_id y"
  by (simp_all add: update_run_record_def row_key_def update_node_record_def)

lemma wf_row:
  assumes "wf_db_ok db" "x \<in> set (wdb_runs db)"
  obtains r where "x = run_to_record r" "wf_represents db r"
  using assms unfolding wf_db_ok_def by blast

lemma wf_set_rows:
  "set (nodes_of db rid) = {x \<in> set (wdb_nodes db). no_run_id x = rid}"
  "set (wf_events_of db rid) = {x \<in> set (wdb_events db). ev_run_id x = rid}"
  by (simp_all add: nodes_of_def wf_events_of_def)

lemma wf_rows_mset:
  "mset (filter (\<lambda>x. no_run_id x = rid) (wdb_nodes db)) = mset (nodes_of db rid)"
  "mset (filter (\<lambda>x. ev_run_id x = rid) (wdb_events db)) = mset (wf_events_of db rid)"
  by (simp_all add: nodes_of_def wf_events_of_def)

lemma wf_no_rows:
  assumes "wf_db_ok db" "rid \<notin> rn_id ` set (wdb_runs db)"
  shows "nodes_of db rid = []" "wf_events_of db rid = []"
proof -
  have "set (nodes_of db rid) = {}" "set (wf_events_of db rid) = {}"
    using assms by (auto simp: wf_db_ok_def wf_set_rows)
  then show "nodes_of db rid = []" "wf_events_of db rid = []" by simp_all
qed

lemma wf_represents_ids:
  assumes "wf_represents db r"
  shows "event_id_set r \<union> node_id_set r \<subseteq> pw_used db"
proof -
  have n: "node_to_record (wr_id r) n \<in> set (wdb_nodes db)" if "n \<in> set (wr_nodes r)" for n
    using assms that wf_set_rows(1) [of db "wr_id r"] by (auto simp: wf_represents_def)
  have e: "wf_event_to_record ev \<in> set (wdb_events db)" if "ev \<in> set (wr_events r)" for ev
    using assms that wf_set_rows(2) [of db "wr_id r"] by (auto simp: wf_represents_def)
  have "we_id ev \<in> pw_used db" if "ev \<in> set (wr_events r)" for ev
    using imageI [OF e [OF that], of ev_id] by (simp add: pw_used_def)
  moreover have "wn_id n \<in> pw_used db" if "n \<in> set (wr_nodes r)" for n
    using imageI [OF n [OF that], of no_id] by (simp add: pw_used_def)
  ultimately show ?thesis by (auto simp: event_id_set_def node_id_set_def)
qed

section \<open>The constraints follow\<close>

lemma storable_node_row: "node_wf n \<Longrightarrow> node_ok n \<Longrightarrow> node_row_ok (node_to_record rid n)"
  by (cases "wn_status n")
    (simp_all add: node_row_ok_def node_to_record_def node_wf_def node_ok_def is_identifier_trimmed trimmed_btrim)

lemma storable_run_row: "run_storable r \<Longrightarrow> run_row_ok (run_to_record r)"
  by (cases "wr_status r")
    (simp_all add: run_row_ok_def run_to_record_def run_storable_def is_identifier_trimmed trimmed_btrim)

lemma log_sequence_positive:
  assumes "log_ok r" "ev \<in> set (wr_events r)"
  shows "0 < we_sequence ev"
proof -
  from assms(2) obtain i where "i < length (wr_events r)" "wr_events r ! i = ev"
    by (auto simp: in_set_conv_nth)
  with assms(1) numbered_from_1_nth [of "map we_sequence (wr_events r)" i] show ?thesis
    by (simp add: log_ok_def)
qed

lemma storable_event_row: "log_ok r \<Longrightarrow> ev \<in> set (wr_events r) \<Longrightarrow> wf_event_row_ok (wf_event_to_record ev)"
  using log_sequence_positive [of r ev] by (simp add: wf_event_row_ok_def btrim_nonempty log_ok_def)

lemma log_distinct_sequences:
  assumes "log_ok r"
  shows "distinct (map we_sequence (wr_events r))"
  using assms unfolding log_ok_def numbered_from_1_def by (metis distinct_map distinct_upt inj_on_of_nat)

lemma wf_group:
  assumes "wf_db_ok db"
  shows "(\<exists>r. wf_represents db r \<and> wr_id r = rid) \<or> nodes_of db rid = [] \<and> wf_events_of db rid = []"
  using assms wf_row [OF assms] wf_no_rows [OF assms, of rid]
  by (metis imageE wf_record_keys(1))

lemma wf_group_facts:
  assumes "wf_db_ok db"
  shows "distinct (map no_node_id (nodes_of db rid))" "list_all node_row_ok (nodes_of db rid)"
    "distinct (map ev_sequence (wf_events_of db rid))" "distinct (map ev_transition_id (wf_events_of db rid))"
    "list_all wf_event_row_ok (wf_events_of db rid)"
  using wf_group [OF assms, of rid] log_distinct_sequences
  by (auto simp: wf_represents_def run_storable_def list_all_iff storable_node_row storable_event_row comp_def
      log_ok_def)

lemma wf_ok_constraints:
  assumes ok: "wf_db_ok db"
  shows "wf_constraints_ok db"
proof -
  have nodes: "\<forall>x \<in> set (wdb_nodes db). node_row_ok x"
    using wf_group_facts(2) [OF ok] by (fastforce simp: list_all_iff wf_set_rows)
  have events: "\<forall>x \<in> set (wdb_events db). wf_event_row_ok x"
    using wf_group_facts(5) [OF ok] by (fastforce simp: list_all_iff wf_set_rows)
  have runs: "\<forall>x \<in> set (wdb_runs db). run_row_ok x"
    using wf_row [OF ok] storable_run_row by (metis wf_represents_def)
  have "distinct (map (\<lambda>r. (no_run_id r, no_node_id r)) (wdb_nodes db))"
    "distinct (map (\<lambda>r. (ev_run_id r, ev_sequence r)) (wdb_events db))"
    "distinct (map (\<lambda>r. (ev_run_id r, ev_transition_id r)) (wdb_events db))"
    unfolding distinct_by_group [of no_run_id no_node_id] distinct_by_group [of ev_run_id ev_sequence]
      distinct_by_group [of ev_run_id ev_transition_id]
    using wf_group_facts [OF ok] distinct_map_mset [OF wf_rows_mset(1) [of _ db]]
      distinct_map_mset [OF wf_rows_mset(2) [of _ db]] by blast+
  with nodes events runs ok show ?thesis
    by (simp add: wf_constraints_ok_def Let_def run_table_ok_def node_table_ok_def wf_event_table_ok_def
        list_all_iff wf_db_ok_def)
qed

lemma wf_commit_ok: "wf_db_ok db \<Longrightarrow> wf_commit db = Inr db"
  by (simp add: wf_commit_def wf_ok_constraints)

section \<open>Loading\<close>

lemma from_run_record_represents: "wf_represents db r \<Longrightarrow> from_run_record db (run_to_record r) = Inr r"
  using run_roundtrip [of r] by (simp add: from_run_record_def wf_represents_def)

lemma pw_load_row:
  assumes "wf_db_ok db" "wf_represents db r" "run_to_record r \<in> set (wdb_runs db)"
  shows "pw_load (wr_id r) db = Inr (Some r)"
proof -
  have "filter (\<lambda>x. rn_id x = wr_id r) (wdb_runs db) = [run_to_record r]"
    using unique_row [of rn_id "wdb_runs db" "run_to_record r"] assms by (simp add: wf_db_ok_def)
  with assms(2) show ?thesis by (simp add: pw_load_def load_run_def from_run_record_represents)
qed

lemma pw_load_none: "rid \<notin> rn_id ` set (wdb_runs db) \<Longrightarrow> pw_load rid db = Inr None"
proof -
  assume "rid \<notin> rn_id ` set (wdb_runs db)"
  then have "filter (\<lambda>x. rn_id x = rid) (wdb_runs db) = []" by (auto simp: filter_empty_conv)
  then show ?thesis by (simp add: pw_load_def load_run_def)
qed

lemma pw_load_view:
  assumes "wf_db_ok db"
  obtains "pw_load rid db = Inr None" "pw_view db rid = None" "rid \<notin> rn_id ` set (wdb_runs db)"
  | q where "pw_load rid db = Inr (Some q)" "pw_view db rid = Some q" "wr_id q = rid"
      "wf_represents db q" "run_to_record q \<in> set (wdb_runs db)"
proof (cases "rid \<in> rn_id ` set (wdb_runs db)")
  case True
  then obtain x where x: "x \<in> set (wdb_runs db)" "rn_id x = rid" by blast
  from wf_row [OF assms x(1)] obtain q where q: "x = run_to_record q" "wf_represents db q" .
  with x have id: "wr_id q = rid" "run_to_record q \<in> set (wdb_runs db)" by simp_all
  with pw_load_row [OF assms q(2)] have "pw_load rid db = Inr (Some q)" by simp
  moreover from this have "pw_view db rid = Some q" by (simp add: pw_view_def)
  ultimately show ?thesis using that(2) id q(2) by blast
next
  case False
  from pw_load_none [OF this] have "pw_load rid db = Inr None" .
  moreover from this have "pw_view db rid = None" by (simp add: pw_view_def)
  ultimately show ?thesis using that(1) False by blast
qed

lemma pw_load_Inr: "wf_db_ok db \<Longrightarrow> pw_load rid db = Inr (pw_view db rid)"
  by (erule pw_load_view [where rid = rid]) simp_all

lemma pw_view_iff:
  assumes "wf_db_ok db"
  shows "pw_view db rid = Some r \<longleftrightarrow>
    wr_id r = rid \<and> wf_represents db r \<and> run_to_record r \<in> set (wdb_runs db)"
proof
  assume "pw_view db rid = Some r"
  with pw_load_view [OF assms, of rid] show "wr_id r = rid \<and> wf_represents db r \<and> run_to_record r \<in> set (wdb_runs db)"
    by (metis option.distinct(1) option.inject)
next
  assume "wr_id r = rid \<and> wf_represents db r \<and> run_to_record r \<in> set (wdb_runs db)"
  with pw_load_row [OF assms, of r] show "pw_view db rid = Some r" by (simp add: pw_view_def)
qed

lemma pw_view_None: "wf_db_ok db \<Longrightarrow> pw_view db rid = None \<longleftrightarrow> rid \<notin> rn_id ` set (wdb_runs db)"
  by (erule pw_load_view [where rid = rid]) (force)+

section \<open>Saving a run\<close>

definition upd_node :: "uuid \<Rightarrow> node_record \<Rightarrow> wf_node \<Rightarrow> node_record" where
  "upd_node rid x n = (if no_id x = wn_id n \<and> no_run_id x = rid then update_node_record x n else x)"

lemma upd_node_keys [simp]:
  "no_id (upd_node rid x n) = no_id x" "no_run_id (upd_node rid x n) = no_run_id x"
  "no_node_id (upd_node rid x n) = no_node_id x"
  by (simp_all add: upd_node_def)

lemma upd_nodes_keys [simp]:
  "no_id (foldl (upd_node rid) x ns) = no_id x" "no_run_id (foldl (upd_node rid) x ns) = no_run_id x"
  "no_node_id (foldl (upd_node rid) x ns) = no_node_id x"
  by (induction ns arbitrary: x) simp_all

lemma upd_nodes_other: "no_run_id x \<noteq> rid \<Longrightarrow> foldl (upd_node rid) x ns = x"
  by (rule foldl_absorbs) (simp add: upd_node_def)

lemma save_node_fold:
  "\<forall>n \<in> set ns. wn_id n \<in> ids \<Longrightarrow>
   foldl (save_node rid ids) rows ns = map (\<lambda>x. foldl (upd_node rid) x ns) rows"
  by (induction ns arbitrary: rows) (simp_all add: save_node_def upd_node_def [symmetric] comp_def)

definition wf_saved :: "wf_run \<Rightarrow> wf_db \<Rightarrow> wf_db" where
  \<comment> \<open>the rows a save writes, before the receipt\<close>
  "wf_saved u db =
     db\<lparr>wdb_runs := map (\<lambda>x. if rn_id x = wr_id u then update_run_record x u else x) (wdb_runs db),
       wdb_nodes := save_nodes (wr_id u) (wr_nodes u) (wdb_nodes db),
       wdb_events := save_wf_events (wr_id u) (wr_events u) (wdb_events db)\<rparr>"

lemma wf_stored_ids:
  assumes "wf_represents db r"
  shows "no_id ` {x \<in> set (wdb_nodes db). no_run_id x = wr_id r} = node_id_set r"
    "ev_id ` {x \<in> set (wdb_events db). ev_run_id x = wr_id r} = event_id_set r"
  using assms unfolding wf_set_rows [symmetric]
  by (simp_all add: wf_represents_def node_id_set_def event_id_set_def image_image)

lemma wf_saved_nodes:
  assumes "wf_represents db r" "wr_id u = wr_id r" "map wn_id (wr_nodes u) = map wn_id (wr_nodes r)"
  shows "wdb_nodes (wf_saved u db) = map (\<lambda>x. foldl (upd_node (wr_id r)) x (wr_nodes u)) (wdb_nodes db)"
proof -
  have "\<forall>n \<in> set (wr_nodes u). wn_id n \<in> node_id_set r"
    unfolding node_id_set_def using arg_cong [OF assms(3), of set] by auto
  from save_node_fold [OF this] show ?thesis
    by (simp add: wf_saved_def save_nodes_def wf_stored_ids(1) [OF assms(1)] assms(2))
qed

lemma wf_saved_events:
  assumes "wf_represents db r" "wr_id u = wr_id r" "wr_events u = wr_events r @ es"
    "distinct (map we_id (wr_events u))"
  shows "wdb_events (wf_saved u db) = wdb_events db @ map wf_event_to_record es"
proof -
  have "filter (\<lambda>e. we_id e \<notin> event_id_set r) (wr_events u) = es"
    using assms(3,4) by (auto simp: filter_empty_conv filter_id_conv event_id_set_def)
  then show ?thesis
    by (simp add: wf_saved_def save_wf_events_def wf_stored_ids(2) [OF assms(1)] assms(2))
qed

lemma update_run_record_evolves: "run_evolves r u \<Longrightarrow> update_run_record (run_to_record r) u = run_to_record u"
  by (simp add: run_evolves_def update_run_record_def run_to_record_def)

lemma update_node_record_evolves:
  "node_evolves n n' \<Longrightarrow> update_node_record (node_to_record rid n) n' = node_to_record rid n'"
  by (simp add: node_evolves_def update_node_record_def node_to_record_def)

lemma evolves_keys:
  assumes "run_evolves r u"
  shows "wr_id u = wr_id r" "map wn_id (wr_nodes u) = map wn_id (wr_nodes r)"
    "length (wr_nodes u) = length (wr_nodes r)" "run_key u = run_key r" "node_id_set u = node_id_set r"
    "\<And>i. i < length (wr_nodes r) \<Longrightarrow> node_evolves (wr_nodes r ! i) (wr_nodes u ! i)"
proof -
  have nodes: "list_all2 node_evolves (wr_nodes r) (wr_nodes u)"
    using assms unfolding run_evolves_def by blast
  show "wr_id u = wr_id r" "run_key u = run_key r"
    using assms by (simp_all add: run_evolves_def run_key_def)
  show ids: "map wn_id (wr_nodes u) = map wn_id (wr_nodes r)" using nodes_evolve_keys [OF nodes] by blast
  show "length (wr_nodes u) = length (wr_nodes r)" using ids by (metis length_map)
  show "node_id_set u = node_id_set r" unfolding node_id_set_def using ids by (metis list.set_map)
  show "\<And>i. i < length (wr_nodes r) \<Longrightarrow> node_evolves (wr_nodes r ! i) (wr_nodes u ! i)"
    using nodes by (simp add: list_all2_conv_all_nth)
qed

lemma wf_updated_rows:
  assumes ev: "run_evolves r u" and st: "run_storable r"
  shows "map (\<lambda>x. foldl (upd_node rid) x (wr_nodes u)) (map (node_to_record rid) (wr_nodes r))
    = map (node_to_record rid) (wr_nodes u)"
proof (rule nth_equalityI)
  show "length (map (\<lambda>x. foldl (upd_node rid) x (wr_nodes u)) (map (node_to_record rid) (wr_nodes r)))
      = length (map (node_to_record rid) (wr_nodes u))" by (simp add: evolves_keys(3) [OF ev])
  fix i assume "i < length (map (\<lambda>x. foldl (upd_node rid) x (wr_nodes u)) (map (node_to_record rid) (wr_nodes r)))"
  then have i: "i < length (wr_nodes r)" "i < length (wr_nodes u)" by (simp_all add: evolves_keys(3) [OF ev])
  let ?n = "wr_nodes r ! i" and ?n' = "wr_nodes u ! i"
  have evn: "node_evolves ?n ?n'" by (rule evolves_keys(6) [OF ev i(1)])
  then have id: "wn_id ?n' = wn_id ?n" by (simp add: node_evolves_def)
  have "foldl (upd_node rid) (node_to_record rid ?n) (wr_nodes u) = node_to_record rid ?n'"
  proof (rule foldl_once [where key = wn_id and e = ?n'])
    show "distinct (map wn_id (wr_nodes u))"
      using st by (simp add: evolves_keys(2) [OF ev] run_storable_def)
    show "?n' \<in> set (wr_nodes u)" using i(2) by simp
    show "upd_node rid (node_to_record rid ?n) ?n' = node_to_record rid ?n'"
      using id by (simp add: upd_node_def update_node_record_evolves [OF evn])
  qed (use id in \<open>auto simp: upd_node_def\<close>)
  with i show "map (\<lambda>x. foldl (upd_node rid) x (wr_nodes u)) (map (node_to_record rid) (wr_nodes r)) ! i
      = map (node_to_record rid) (wr_nodes u) ! i" by simp
qed

lemma wf_saved_groups:
  assumes rep: "wf_represents db r" and ev: "run_evolves r u" and dis: "distinct (map we_id (wr_events u))"
  shows "wf_represents (wf_saved u db) u"
    "rid \<noteq> wr_id r \<Longrightarrow> nodes_of (wf_saved u db) rid = nodes_of db rid"
    "rid \<noteq> wr_id r \<Longrightarrow> wf_events_of (wf_saved u db) rid = wf_events_of db rid"
proof -
  note keys = evolves_keys [OF ev]
  let ?g = "\<lambda>x. foldl (upd_node (wr_id r)) x (wr_nodes u)"
  have st: "run_storable r" "run_storable u"
    using rep run_storable_evolves [OF ev] by (simp_all add: wf_represents_def)
  obtain es where es: "wr_events u = wr_events r @ es"
    using ev by (auto simp: run_evolves_def prefix_def)
  note sn = wf_saved_nodes [OF rep keys(1,2)] and se = wf_saved_events [OF rep keys(1) es dis]
  have coll: "wdb_collate (wf_saved u db) = wdb_collate db" by (simp add: wf_saved_def)
  have grp: "nodes_of (wf_saved u db) rid = map ?g (nodes_of db rid)" for rid
  proof -
    have "filter (\<lambda>x. no_run_id x = rid) (map ?g (wdb_nodes db))
        = map ?g (filter (\<lambda>x. no_run_id x = rid) (wdb_nodes db))"
      by (rule filter_map_same) simp
    then show ?thesis by (simp add: nodes_of_def sn coll sort_key_map comp_def)
  qed
  have own: "\<forall>e \<in> set es. we_run_id e = wr_id r"
    using st(2) es keys(1) by (auto simp: run_storable_def log_ok_def)
  have "nodes_of (wf_saved u db) (wr_id u) = map (node_to_record (wr_id u)) (wr_nodes u)"
    using rep wf_updated_rows [OF ev st(1), of "wr_id r"] by (simp add: grp keys(1) wf_represents_def)
  moreover have "wf_events_of (wf_saved u db) (wr_id u) = map wf_event_to_record (wr_events u)"
  proof -
    have "mset (filter (\<lambda>x. ev_run_id x = wr_id r) (wdb_events db)) = mset (map wf_event_to_record (wr_events r))"
      using rep wf_rows_mset(2) [of "wr_id r" db] by (simp add: wf_represents_def)
    then have "mset (filter (\<lambda>x. ev_run_id x = wr_id u) (wdb_events (wf_saved u db)))
        = mset (map wf_event_to_record (wr_events u))"
      using own by (simp add: se es keys(1) filter_map comp_def)
    moreover have "numbered_from_1 (map (ev_sequence \<circ> wf_event_to_record) (wr_events u))"
      using st(2) by (simp add: run_storable_def log_ok_def comp_def)
    ultimately show ?thesis unfolding wf_events_of_def by (rule sort_numbered)
  qed
  ultimately show "wf_represents (wf_saved u db) u" using st(2) by (simp add: wf_represents_def)
  assume other: "rid \<noteq> wr_id r"
  have "map ?g (nodes_of db rid) = nodes_of db rid"
  proof (rule map_idI)
    fix x assume "x \<in> set (nodes_of db rid)"
    with other show "?g x = x" by (intro upd_nodes_other) (simp add: wf_set_rows)
  qed
  then show "nodes_of (wf_saved u db) rid = nodes_of db rid" by (simp add: grp)
  have "filter (\<lambda>x. ev_run_id x = rid) (map wf_event_to_record es) = []"
    using own other by (auto simp: filter_empty_conv)
  then show "wf_events_of (wf_saved u db) rid = wf_events_of db rid"
    by (simp add: wf_events_of_def se)
qed

lemma wf_saved_keys [simp]:
  "map rn_id (wdb_runs (wf_saved u db)) = map rn_id (wdb_runs db)"
  "map row_key (wdb_runs (wf_saved u db)) = map row_key (wdb_runs db)"
  "wdb_receipts (wf_saved u db) = wdb_receipts db" "wdb_uuid4 (wf_saved u db) = wdb_uuid4 db"
  "wdb_drawn (wf_saved u db) = wdb_drawn db"
  by (simp_all add: wf_saved_def comp_def)

lemma wf_saved_row:
  assumes ok: "wf_db_ok db" and row: "run_to_record r \<in> set (wdb_runs db)" and ev: "run_evolves r u"
  shows "x \<in> set (wdb_runs (wf_saved u db)) \<longleftrightarrow>
    x = run_to_record u \<or> x \<in> set (wdb_runs db) \<and> rn_id x \<noteq> wr_id u"
proof -
  have id: "wr_id u = wr_id r" by (rule evolves_keys(1) [OF ev])
  have inj: "inj_on rn_id (set (wdb_runs db))" using ok by (simp add: wf_db_ok_def distinct_map)
  have mine: "y = run_to_record r" if "y \<in> set (wdb_runs db)" "rn_id y = wr_id u" for y
    using inj_onD [OF inj _ that(1) row] that(2) id by simp
  have "x \<in> set (wdb_runs (wf_saved u db)) \<longleftrightarrow>
      (\<exists>y \<in> set (wdb_runs db). x = (if rn_id y = wr_id u then update_run_record y u else y))"
    by (auto simp: wf_saved_def)
  also have "\<dots> \<longleftrightarrow> x = run_to_record u \<or> x \<in> set (wdb_runs db) \<and> rn_id x \<noteq> wr_id u"
  proof
    assume "\<exists>y \<in> set (wdb_runs db). x = (if rn_id y = wr_id u then update_run_record y u else y)"
    then obtain y where y: "y \<in> set (wdb_runs db)"
      "x = (if rn_id y = wr_id u then update_run_record y u else y)" by blast
    with mine [OF y(1)] update_run_record_evolves [OF ev]
    show "x = run_to_record u \<or> x \<in> set (wdb_runs db) \<and> rn_id x \<noteq> wr_id u"
      by (cases "rn_id y = wr_id u") auto
  next
    assume "x = run_to_record u \<or> x \<in> set (wdb_runs db) \<and> rn_id x \<noteq> wr_id u"
    then show "\<exists>y \<in> set (wdb_runs db). x = (if rn_id y = wr_id u then update_run_record y u else y)"
    proof
      assume "x = run_to_record u"
      with row id update_run_record_evolves [OF ev] show ?thesis by (intro bexI [OF _ row]) simp
    qed auto
  qed
  finally show ?thesis .
qed

lemma image_disjointI: "(\<And>x. x \<in> X \<Longrightarrow> f x \<notin> A) \<Longrightarrow> A \<inter> f ` X = {}"
  by auto

lemma wf_saved_ok:
  assumes ok: "wf_db_ok db" and rep: "wf_represents db r" and row: "run_to_record r \<in> set (wdb_runs db)"
    and ev: "run_evolves r u" and dis: "distinct (map we_id (wr_events u))"
    and new: "(event_id_set u - event_id_set r) \<inter> pw_used db = {}"
  shows "wf_db_ok (wf_saved u db)"
proof -
  note keys = evolves_keys [OF ev] and groups = wf_saved_groups [OF rep ev dis]
  obtain es where es: "wr_events u = wr_events r @ es" using ev by (auto simp: run_evolves_def prefix_def)
  note sn = wf_saved_nodes [OF rep keys(1,2)] and se = wf_saved_events [OF rep keys(1) es dis]
  have rids: "rn_id ` set (wdb_runs (wf_saved u db)) = rn_id ` set (wdb_runs db)"
    using wf_saved_keys(1) [of u db] by (metis list.set_map)
  have mem: "wr_id r \<in> rn_id ` set (wdb_runs db)" using imageI [OF row, of rn_id] by simp
  have st: "run_storable u" using groups(1) by (simp add: wf_represents_def)
  have own: "\<forall>e \<in> set es. we_run_id e = wr_id r"
    using st es keys(1) by (auto simp: run_storable_def log_ok_def)
  have fresh: "we_id e \<notin> ev_id ` set (wdb_events db)" if "e \<in> set es" for e
    using that new dis by (auto simp: event_id_set_def pw_used_def es)
  have rows: "\<forall>x \<in> set (wdb_runs (wf_saved u db)). \<exists>q. x = run_to_record q \<and> wf_represents (wf_saved u db) q"
  proof
    fix x assume "x \<in> set (wdb_runs (wf_saved u db))"
    then consider "x = run_to_record u" | "x \<in> set (wdb_runs db)" "rn_id x \<noteq> wr_id u"
      unfolding wf_saved_row [OF ok row ev] by blast
    then show "\<exists>q. x = run_to_record q \<and> wf_represents (wf_saved u db) q"
    proof cases
      case 1
      with groups(1) show ?thesis by blast
    next
      case 2
      from wf_row [OF ok 2(1)] obtain q where q: "x = run_to_record q" "wf_represents db q" .
      with 2(2) keys(1) have "wr_id q \<noteq> wr_id r" by simp
      with groups(2,3) q(2) have "wf_represents (wf_saved u db) q" by (simp add: wf_represents_def)
      with q(1) show ?thesis by blast
    qed
  qed
  have "distinct (map no_id (wdb_nodes (wf_saved u db)))"
    using ok by (simp add: sn wf_db_ok_def comp_def)
  moreover have "distinct (map ev_id (wdb_events (wf_saved u db)))"
  proof -
    have "distinct (map ev_id (wdb_events db))" using ok by (simp add: wf_db_ok_def)
    moreover have "distinct (map we_id es)" using dis by (simp add: es)
    moreover have "ev_id ` set (wdb_events db) \<inter> we_id ` set es = {}" using fresh by (rule image_disjointI)
    ultimately show ?thesis by (simp add: se comp_def)
  qed
  moreover have "\<forall>x \<in> set (wdb_nodes (wf_saved u db)). no_run_id x \<in> rn_id ` set (wdb_runs (wf_saved u db))"
    using ok by (simp add: sn rids wf_db_ok_def)
  moreover have "\<forall>x \<in> set (wdb_events (wf_saved u db)). ev_run_id x \<in> rn_id ` set (wdb_runs (wf_saved u db))"
    using ok own mem by (auto simp: se rids wf_db_ok_def)
  moreover have "wf_receipt_table_ok (map rn_id (wdb_runs (wf_saved u db))) (wdb_receipts (wf_saved u db))"
    "distinct (map rn_id (wdb_runs (wf_saved u db)))" "distinct (map row_key (wdb_runs (wf_saved u db)))"
    using ok by (simp_all add: wf_db_ok_def)
  ultimately show ?thesis using rows unfolding wf_db_ok_def by blast
qed

lemma pw_view_cong:
  assumes "wf_db_ok db" "wf_db_ok db'"
    "\<And>r. wr_id r = rid \<Longrightarrow> wf_represents db r \<and> run_to_record r \<in> set (wdb_runs db)
       \<longleftrightarrow> wf_represents db' r \<and> run_to_record r \<in> set (wdb_runs db')"
  shows "pw_view db rid = pw_view db' rid"
proof -
  have "pw_view db rid = Some r \<longleftrightarrow> pw_view db' rid = Some r" for r
    using assms(3) [of r] pw_view_iff [OF assms(1), of rid r] pw_view_iff [OF assms(2), of rid r] by blast
  then show ?thesis by (metis not_Some_eq)
qed

lemma wf_saved_view:
  assumes "wf_db_ok db" "wf_represents db r" "run_to_record r \<in> set (wdb_runs db)" "run_evolves r u"
    "distinct (map we_id (wr_events u))" "(event_id_set u - event_id_set r) \<inter> pw_used db = {}"
  shows "pw_view (wf_saved u db) = (pw_view db)(wr_id u \<mapsto> u)"
proof
  fix rid
  note ok' = wf_saved_ok [OF assms] and groups = wf_saved_groups [OF assms(2,4,5)]
    and row = wf_saved_row [OF assms(1,3,4)] and id = evolves_keys(1) [OF assms(4)]
  show "pw_view (wf_saved u db) rid = ((pw_view db)(wr_id u \<mapsto> u)) rid"
  proof (cases "rid = wr_id u")
    case True
    have "run_to_record u \<in> set (wdb_runs (wf_saved u db))" unfolding row by blast
    with True groups(1) have "pw_view (wf_saved u db) rid = Some u" unfolding pw_view_iff [OF ok'] by blast
    with True show ?thesis by simp
  next
    case False
    have "pw_view (wf_saved u db) rid = pw_view db rid"
    proof (rule pw_view_cong [OF ok' assms(1)])
      fix q :: wf_run assume q: "wr_id q = rid"
      with False id have "wf_represents (wf_saved u db) q = wf_represents db q"
        by (simp add: wf_represents_def groups(2,3))
      moreover have "run_to_record q \<in> set (wdb_runs (wf_saved u db)) \<longleftrightarrow> run_to_record q \<in> set (wdb_runs db)"
        unfolding row using q False by (metis wf_record_keys(1))
      ultimately show "wf_represents (wf_saved u db) q \<and> run_to_record q \<in> set (wdb_runs (wf_saved u db))
        \<longleftrightarrow> wf_represents db q \<and> run_to_record q \<in> set (wdb_runs db)" by blast
    qed
    with False show ?thesis by simp
  qed
qed

lemma grown_union: "R \<subseteq> E \<Longrightarrow> U = R \<union> F \<Longrightarrow> N' = N \<Longrightarrow> E' = E \<union> F \<Longrightarrow> E' \<union> N' = E \<union> N \<union> U"
  by blast

lemma wf_saved_used:
  assumes rep: "wf_represents db r" and ev: "run_evolves r u" and dis: "distinct (map we_id (wr_events u))"
  shows "pw_used (wf_saved u db) = pw_used db \<union> event_id_set u"
proof -
  note keys = evolves_keys [OF ev]
  obtain es where es: "wr_events u = wr_events r @ es" using ev by (auto simp: run_evolves_def prefix_def)
  have "no_id ` set (wdb_nodes (wf_saved u db)) = no_id ` set (wdb_nodes db)"
    by (simp add: wf_saved_nodes [OF rep keys(1,2)] image_image)
  moreover have "ev_id ` set (wdb_events (wf_saved u db)) = ev_id ` set (wdb_events db) \<union> we_id ` set es"
    by (simp add: wf_saved_events [OF rep keys(1) es dis] image_Un image_image)
  moreover have "event_id_set r \<subseteq> ev_id ` set (wdb_events db)"
    using wf_stored_ids(2) [OF rep] by blast
  moreover have "event_id_set u = event_id_set r \<union> we_id ` set es"
    by (simp add: event_id_set_def es image_Un)
  ultimately show ?thesis unfolding pw_used_def by (rule grown_union [rotated 2])
qed

end
