(* ===== verification/Workflow_Contract.thy ===== *)
theory Workflow_Contract
  imports Workflow_Postgres
begin

text \<open>
  The PostgreSQL adapter fulfils the contract of the workflow port: saving a run replaces exactly that
  run and records the receipt, a stale save is refused, and creating a run inserts it or returns the one
  with the same key. The interpretation of the contract is at the end.
\<close>

section \<open>Receipts\<close>

lemma add_wf_receipt_frame [simp]:
  "wdb_runs (add_wf_receipt q db) = wdb_runs db" "wdb_nodes (add_wf_receipt q db) = wdb_nodes db"
  "wdb_events (add_wf_receipt q db) = wdb_events db" "wdb_collate (add_wf_receipt q db) = wdb_collate db"
  by (simp_all add: add_wf_receipt_def)

lemma add_wf_receipt_handled:
  "pw_handled (add_wf_receipt q db)
     = insert (wq_run_id q, wq_command_type q, wq_command_id q) (pw_handled db)"
  by (force simp: add_wf_receipt_def pw_handled_def list_ex_iff)

lemma wf_tables_same:
  assumes "wdb_nodes db' = wdb_nodes db" "wdb_events db' = wdb_events db" "wdb_collate db' = wdb_collate db"
  shows "wf_represents db' = wf_represents db"
    "wdb_runs db' = wdb_runs db \<Longrightarrow> pw_view db' = pw_view db"
    "pw_used db' = pw_used db"
proof -
  have rows: "nodes_of db' = nodes_of db" "wf_events_of db' = wf_events_of db"
    using assms by (simp_all add: fun_eq_iff nodes_of_def wf_events_of_def)
  then show "wf_represents db' = wf_represents db" by (simp add: fun_eq_iff wf_represents_def)
  have "from_run_record db' = from_run_record db" by (simp add: fun_eq_iff from_run_record_def rows)
  then have "load_run db' = load_run db" by (intro ext) (simp add: load_run_def split: list.split)
  then show "wdb_runs db' = wdb_runs db \<Longrightarrow> pw_view db' = pw_view db"
    by (simp add: fun_eq_iff pw_view_def pw_load_def)
  show "pw_used db' = pw_used db" by (simp add: pw_used_def assms)
qed

lemma add_wf_receipt_ok:
  assumes "wf_db_ok db" "wq_run_id q \<in> rn_id ` set (wdb_runs db)" "trimmed (wq_command_type q)"
    "pg_btrim (wq_command_id q) \<noteq> []" "pw_supplied db"
  shows "wf_db_ok (add_wf_receipt q db)"
proof -
  have "wf_receipt_table_ok (map rn_id (wdb_runs db)) (wdb_receipts (add_wf_receipt q db))"
    using assms by (auto simp: add_wf_receipt_def wf_db_ok_def wf_receipt_table_ok_def list_all_iff list_ex_iff
        wf_receipt_row_ok_def trimmed_btrim pw_supplied_def)
  then show ?thesis
    using assms(1) by (simp add: wf_db_ok_def wf_tables_same(1) [of "add_wf_receipt q db" db])
qed

definition with_receipt :: "wf_receipt option \<Rightarrow> wf_db \<Rightarrow> wf_db" where
  "with_receipt rc db = (case rc of None \<Rightarrow> db | Some q \<Rightarrow> add_wf_receipt q db)"

lemma with_receipt_frame [simp]:
  "wdb_runs (with_receipt rc db) = wdb_runs db" "wdb_nodes (with_receipt rc db) = wdb_nodes db"
  "wdb_events (with_receipt rc db) = wdb_events db" "wdb_collate (with_receipt rc db) = wdb_collate db"
  "pw_handled (with_receipt rc db) = pw_handled db \<union> receipt_key rc"
  by (auto simp: with_receipt_def receipt_key_def add_wf_receipt_handled split: option.split)

lemma pw_save_commit:
  "wr_id u \<in> rn_id ` set (wdb_runs db) \<Longrightarrow> pw_save u rc db = wf_commit (with_receipt rc (wf_saved u db))"
  by (auto simp: pw_save_def with_receipt_def wf_saved_def list_ex_iff Let_def)

section \<open>Saving\<close>

lemma pw_save_stored:
  assumes ok: "wf_db_ok db" and v: "pw_view db (wr_id u) = Some r" and ev: "run_evolves r u"
    and dis: "distinct (map we_id (wr_events u))"
    and new: "(event_id_set u - event_id_set r) \<inter> pw_used db = {}"
    and rc: "receipt_for (wr_id u) rc" "rc = None \<or> pw_supplied db"
  shows "\<exists>db'. pw_save u rc db = Inr db' \<and> wf_db_ok db' \<and> pw_view db' = (pw_view db)(wr_id u \<mapsto> u)
    \<and> pw_handled db' = pw_handled db \<union> receipt_key rc \<and> pw_used db' = pw_used db \<union> event_id_set u"
proof -
  have rep: "wf_represents db r" and row: "run_to_record r \<in> set (wdb_runs db)"
    using v unfolding pw_view_iff [OF ok] by blast+
  have id: "wr_id u = wr_id r" by (rule evolves_keys(1) [OF ev])
  have mem: "wr_id u \<in> rn_id ` set (wdb_runs db)" using imageI [OF row, of rn_id] id by simp
  note ok1 = wf_saved_ok [OF ok rep row ev dis new]
  have mem1: "wr_id u \<in> rn_id ` set (wdb_runs (wf_saved u db))"
    using mem wf_saved_keys(1) [of u db] by (metis list.set_map)
  have sup: "rc = None \<or> pw_supplied (wf_saved u db)"
    using rc(2) by (simp add: pw_supplied_def)
  have ok': "wf_db_ok (with_receipt rc (wf_saved u db))"
  proof (cases rc)
    case (Some q)
    with add_wf_receipt_ok [OF ok1, of q] mem1 sup rc(1) show ?thesis
      by (simp add: with_receipt_def receipt_for_def)
  qed (simp add: with_receipt_def ok1)
  note same = wf_tables_same [of "with_receipt rc (wf_saved u db)" "wf_saved u db"]
  have "pw_save u rc db = Inr (with_receipt rc (wf_saved u db))"
    using pw_save_commit [OF mem] wf_commit_ok [OF ok'] by simp
  moreover have "pw_view (with_receipt rc (wf_saved u db)) = (pw_view db)(wr_id u \<mapsto> u)"
    using same(2) wf_saved_view [OF ok rep row ev dis new] by simp
  moreover have "pw_used (with_receipt rc (wf_saved u db)) = pw_used db \<union> event_id_set u"
    using same(3) wf_saved_used [OF rep ev dis] by simp
  moreover have "pw_handled (with_receipt rc (wf_saved u db)) = pw_handled db \<union> receipt_key rc"
  proof -
    have "pw_handled (wf_saved u db) = pw_handled db" by (simp add: pw_handled_def)
    then show ?thesis by simp
  qed
  ultimately show ?thesis using ok' by blast
qed

lemma not_distinct_append: "x \<in> set xs \<Longrightarrow> y \<in> set ys \<Longrightarrow> f x = f y \<Longrightarrow> \<not> distinct (map f (xs @ ys))"
  by (auto simp: image_iff)

lemma pw_save_stale:
  assumes ok: "wf_db_ok db" and v: "pw_view db (wr_id u) = Some r"
    and ev: "e \<in> set (wr_events r)" "e' \<in> set (wr_events u)" "we_run_id e' = wr_id u"
      "we_sequence e = we_sequence e'" "we_id e' \<notin> pw_used db"
  shows "pw_save u rc db = Inl WfIntegrityError"
proof -
  have rep: "wf_represents db r" and row: "run_to_record r \<in> set (wdb_runs db)" and id: "wr_id r = wr_id u"
    using v unfolding pw_view_iff [OF ok] by blast+
  have mem: "wr_id u \<in> rn_id ` set (wdb_runs db)" using imageI [OF row, of rn_id] id by simp
  let ?ids = "ev_id ` set (filter (\<lambda>x. ev_run_id x = wr_id u) (wdb_events db))"
  let ?new = "map wf_event_to_record (filter (\<lambda>e. we_id e \<notin> ?ids) (wr_events u))"
  have events: "wdb_events (with_receipt rc (wf_saved u db)) = wdb_events db @ ?new"
    by (simp add: wf_saved_def save_wf_events_def Let_def)
  have own: "we_run_id e = wr_id u"
    using rep ev(1) id by (auto simp: wf_represents_def run_storable_def log_ok_def)
  have "wf_event_to_record e \<in> set (wf_events_of db (wr_id r))"
    using rep ev(1) by (simp add: wf_represents_def)
  then have old: "wf_event_to_record e \<in> set (wdb_events db)" by (simp add: wf_set_rows)
  have "we_id e' \<notin> ?ids" using ev(5) by (auto simp: pw_used_def)
  with ev(2) have new: "wf_event_to_record e' \<in> set ?new" by simp
  have "\<not> distinct (map (\<lambda>x. (ev_run_id x, ev_sequence x)) (wdb_events db @ ?new))"
    by (rule not_distinct_append [OF old new]) (simp add: own ev(3,4))
  then have "\<not> wf_constraints_ok (with_receipt rc (wf_saved u db))"
    unfolding wf_constraints_ok_def Let_def wf_event_table_ok_def events by blast
  with pw_save_commit [OF mem] show ?thesis by (simp add: wf_commit_def)
qed

section \<open>Creating\<close>

definition wf_inserted :: "wf_run \<Rightarrow> wf_db \<Rightarrow> wf_db" where
  "wf_inserted r db =
     db\<lparr>wdb_runs := wdb_runs db @ [run_to_record r],
       wdb_nodes := wdb_nodes db @ map (node_to_record (wr_id r)) (wr_nodes r),
       wdb_events := wdb_events db @ map wf_event_to_record (wr_events r)\<rparr>"

definition collated :: "wf_db \<Rightarrow> wf_run \<Rightarrow> wf_run" where
  \<comment> \<open>the run as it is read back: its nodes in the order of the database\<close>
  "collated db r = r\<lparr>wr_nodes := sort_key (\<lambda>n. wdb_collate db (wn_node_id n)) (wr_nodes r)\<rparr>"

lemma collated_same [simp]:
  "wr_id (collated db r) = wr_id r" "wr_events (collated db r) = wr_events r"
  "run_to_record (collated db r) = run_to_record r" "run_key (collated db r) = run_key r"
  by (simp_all add: collated_def run_to_record_def run_key_def)

lemma run_storable_collated: "run_storable r \<Longrightarrow> run_storable (collated db r)"
  unfolding collated_def by (rule run_storable_reorder) simp_all

lemma wf_inserted_groups:
  assumes ok: "wf_db_ok db" and st: "run_storable r" and new: "wr_id r \<notin> rn_id ` set (wdb_runs db)"
  shows "wf_represents (wf_inserted r db) (collated db r)"
    "rid \<noteq> wr_id r \<Longrightarrow> nodes_of (wf_inserted r db) rid = nodes_of db rid"
    "rid \<noteq> wr_id r \<Longrightarrow> wf_events_of (wf_inserted r db) rid = wf_events_of db rid"
proof -
  have own: "\<forall>e \<in> set (wr_events r). we_run_id e = wr_id r" using st by (simp add: run_storable_def log_ok_def)
  have none: "filter (\<lambda>x. no_run_id x = wr_id r) (wdb_nodes db) = []"
    "filter (\<lambda>x. ev_run_id x = wr_id r) (wdb_events db) = []"
  proof -
    have "\<forall>x \<in> set (wdb_nodes db). no_run_id x \<noteq> wr_id r" "\<forall>x \<in> set (wdb_events db). ev_run_id x \<noteq> wr_id r"
      using ok new unfolding wf_db_ok_def by metis+
    then show "filter (\<lambda>x. no_run_id x = wr_id r) (wdb_nodes db) = []"
      "filter (\<lambda>x. ev_run_id x = wr_id r) (wdb_events db) = []" by (simp_all add: filter_empty_conv)
  qed
  have mine: "filter (\<lambda>x. no_run_id x = wr_id r) (map (node_to_record (wr_id r)) ns)
      = map (node_to_record (wr_id r)) ns" for ns by (simp add: filter_id_conv)
  have "nodes_of (wf_inserted r db) (wr_id r) = map (node_to_record (wr_id r)) (wr_nodes (collated db r))"
    by (simp add: nodes_of_def wf_inserted_def none mine sort_key_map comp_def collated_def)
  moreover have "filter (\<lambda>x. ev_run_id x = wr_id r) (map wf_event_to_record (wr_events r))
      = map wf_event_to_record (wr_events r)" using own by (auto simp: filter_id_conv)
  then have "wf_events_of (wf_inserted r db) (wr_id r) = sort_key ev_sequence (map wf_event_to_record (wr_events r))"
    by (simp add: wf_events_of_def wf_inserted_def none)
  moreover have "sort_key ev_sequence (map wf_event_to_record (wr_events r)) = map wf_event_to_record (wr_events r)"
    using st by (intro sort_numbered) (simp_all add: run_storable_def log_ok_def comp_def)
  ultimately show "wf_represents (wf_inserted r db) (collated db r)"
    using run_storable_collated [OF st] by (simp add: wf_represents_def)
  assume other: "rid \<noteq> wr_id r"
  have "filter (\<lambda>x. no_run_id x = rid) (map (node_to_record (wr_id r)) (wr_nodes r)) = []"
    "filter (\<lambda>x. ev_run_id x = rid) (map wf_event_to_record (wr_events r)) = []"
    using other own by (auto simp: filter_empty_conv)
  then show "nodes_of (wf_inserted r db) rid = nodes_of db rid"
    "wf_events_of (wf_inserted r db) rid = wf_events_of db rid"
    by (simp_all add: nodes_of_def wf_events_of_def wf_inserted_def)
qed

lemma wf_key_unused:
  assumes ok: "wf_db_ok db" and key: "\<And>i q. pw_view db i = Some q \<Longrightarrow> run_key q \<noteq> run_key r"
  shows "run_key r \<notin> row_key ` set (wdb_runs db)"
proof
  assume "run_key r \<in> row_key ` set (wdb_runs db)"
  then obtain x where x: "x \<in> set (wdb_runs db)" "row_key x = run_key r" by force
  from wf_row [OF ok x(1)] obtain q where q: "x = run_to_record q" "wf_represents db q" .
  with x have "pw_view db (wr_id q) = Some q" using pw_view_iff [OF ok] by blast
  from key [OF this] q(1) x(2) show False by simp
qed

lemma wf_inserted_ok:
  assumes ok: "wf_db_ok db" and st: "run_storable r" and none: "pw_view db (wr_id r) = None"
    and one: "wr_events r = [ev]" and fr: "(event_id_set r \<union> node_id_set r) \<inter> pw_used db = {}"
    and key: "\<And>i q. pw_view db i = Some q \<Longrightarrow> run_key q \<noteq> run_key r"
  shows "wf_db_ok (wf_inserted r db)"
proof -
  have new: "wr_id r \<notin> rn_id ` set (wdb_runs db)" using none by (simp add: pw_view_None [OF ok])
  note groups = wf_inserted_groups [OF ok st new]
  have rows: "\<forall>x \<in> set (wdb_runs (wf_inserted r db)). \<exists>q. x = run_to_record q \<and> wf_represents (wf_inserted r db) q"
  proof
    fix x assume "x \<in> set (wdb_runs (wf_inserted r db))"
    then consider "x = run_to_record r" | "x \<in> set (wdb_runs db)" by (auto simp: wf_inserted_def)
    then show "\<exists>q. x = run_to_record q \<and> wf_represents (wf_inserted r db) q"
    proof cases
      case 1
      with groups(1) have "x = run_to_record (collated db r) \<and> wf_represents (wf_inserted r db) (collated db r)"
        by simp
      then show ?thesis by (rule exI)
    next
      case 2
      from wf_row [OF ok 2] obtain q where q: "x = run_to_record q" "wf_represents db q" .
      with new imageI [OF 2, of rn_id] have "wr_id q \<noteq> wr_id r" by auto
      with groups(2,3) q(2) have "wf_represents (wf_inserted r db) q" by (simp add: wf_represents_def)
      with q(1) show ?thesis by blast
    qed
  qed
  have own: "we_run_id ev = wr_id r" using st one by (simp add: run_storable_def log_ok_def)
  have "distinct (map wn_id (wr_nodes r))" using st by (simp add: run_storable_def)
  moreover have "no_id ` set (wdb_nodes db) \<inter> wn_id ` set (wr_nodes r) = {}"
    using fr by (auto simp: pw_used_def node_id_set_def)
  ultimately have nodes: "distinct (map no_id (wdb_nodes (wf_inserted r db)))"
    using ok by (simp add: wf_inserted_def wf_db_ok_def comp_def)
  have "we_id ev \<notin> ev_id ` set (wdb_events db)" using fr one by (auto simp: pw_used_def event_id_set_def)
  then have events: "distinct (map ev_id (wdb_events (wf_inserted r db)))"
    using ok by (simp add: wf_inserted_def wf_db_ok_def one)
  have keys: "distinct (map rn_id (wdb_runs (wf_inserted r db)))" "distinct (map row_key (wdb_runs (wf_inserted r db)))"
    using ok new wf_key_unused [OF ok key] by (simp_all add: wf_inserted_def wf_db_ok_def)
  have refs: "\<forall>x \<in> set (wdb_nodes (wf_inserted r db)). no_run_id x \<in> rn_id ` set (wdb_runs (wf_inserted r db))"
    "\<forall>x \<in> set (wdb_events (wf_inserted r db)). ev_run_id x \<in> rn_id ` set (wdb_runs (wf_inserted r db))"
    "wf_receipt_table_ok (map rn_id (wdb_runs (wf_inserted r db))) (wdb_receipts (wf_inserted r db))"
    using ok own by (auto simp: wf_inserted_def wf_db_ok_def one wf_receipt_table_ok_def list_all_iff)
  show ?thesis unfolding wf_db_ok_def using keys rows nodes events refs by blast
qed

lemma pw_create_new:
  assumes ok: "wf_db_ok db" and st: "run_storable r" and none: "pw_view db (wr_id r) = None"
    and one: "wr_events r = [ev]" and fr: "(event_id_set r \<union> node_id_set r) \<inter> pw_used db = {}"
    and key: "\<And>i q. pw_view db i = Some q \<Longrightarrow> run_key q \<noteq> run_key r"
  shows "pw_create_or_get r db = Inr (wf_inserted r db, r)"
    "pw_view (wf_inserted r db) = (pw_view db)(wr_id r \<mapsto> collated db r)"
proof -
  have ok': "wf_db_ok (wf_inserted r db)" by (rule wf_inserted_ok [OF assms])
  have new: "wr_id r \<notin> rn_id ` set (wdb_runs db)" using none by (simp add: pw_view_None [OF ok])
  note groups = wf_inserted_groups [OF ok st new]
  have "wf_constraints_ok (db\<lparr>wdb_runs := wdb_runs db @ [run_to_record r]\<rparr>)"
    using wf_ok_constraints [OF ok'] wf_ok_constraints [OF ok]
    by (auto simp: wf_constraints_ok_def Let_def wf_inserted_def wf_event_table_ok_def node_table_ok_def
        wf_receipt_table_ok_def list_all_iff)
  then have "wf_commit (db\<lparr>wdb_runs := wdb_runs db @ [run_to_record r]\<rparr>)
      = Inr (db\<lparr>wdb_runs := wdb_runs db @ [run_to_record r]\<rparr>)" by (simp add: wf_commit_def)
  then have "insert_run r db = wf_commit (wf_inserted r db)" by (simp add: insert_run_def wf_inserted_def)
  then have "insert_run r db = Inr (wf_inserted r db)" using wf_commit_ok [OF ok'] by simp
  then show "pw_create_or_get r db = Inr (wf_inserted r db, r)" by (simp add: pw_create_or_get_def)
  show "pw_view (wf_inserted r db) = (pw_view db)(wr_id r \<mapsto> collated db r)"
  proof
    fix rid
    show "pw_view (wf_inserted r db) rid = ((pw_view db)(wr_id r \<mapsto> collated db r)) rid"
    proof (cases "rid = wr_id r")
      case True
      have "run_to_record (collated db r) \<in> set (wdb_runs (wf_inserted r db))" by (simp add: wf_inserted_def)
      with True groups(1) have "pw_view (wf_inserted r db) rid = Some (collated db r)"
        unfolding pw_view_iff [OF ok'] by simp
      with True show ?thesis by simp
    next
      case False
      have "pw_view (wf_inserted r db) rid = pw_view db rid"
      proof (rule pw_view_cong [OF ok' ok])
        fix q :: wf_run assume q: "wr_id q = rid"
        with False have "wf_represents (wf_inserted r db) q = wf_represents db q"
          by (simp add: wf_represents_def groups(2,3))
        moreover have "run_to_record q \<noteq> run_to_record r" using q False by (metis wf_record_keys(1))
        then have "run_to_record q \<in> set (wdb_runs (wf_inserted r db)) \<longleftrightarrow> run_to_record q \<in> set (wdb_runs db)"
          by (simp add: wf_inserted_def)
        ultimately show "wf_represents (wf_inserted r db) q \<and> run_to_record q \<in> set (wdb_runs (wf_inserted r db))
          \<longleftrightarrow> wf_represents db q \<and> run_to_record q \<in> set (wdb_runs db)" by blast
      qed
      with False show ?thesis by simp
    qed
  qed
qed

lemma pw_create_existing:
  assumes ok: "wf_db_ok db" and v: "pw_view db i = Some q" and key: "run_key q = run_key r"
  shows "pw_create_or_get r db = Inr (db, q)"
proof -
  have rep: "wf_represents db q" and row: "run_to_record q \<in> set (wdb_runs db)"
    using v unfolding pw_view_iff [OF ok] by blast+
  have "\<not> distinct (map row_key (wdb_runs db @ [run_to_record r]))"
    by (rule not_distinct_append [OF row, of "run_to_record r"]) (simp_all add: key)
  then have "wf_commit (db\<lparr>wdb_runs := wdb_runs db @ [run_to_record r]\<rparr>) = Inl WfIntegrityError"
    by (auto simp: wf_commit_def wf_constraints_ok_def Let_def run_table_ok_def)
  then have fails: "insert_run r db = Inl WfIntegrityError" by (simp add: insert_run_def)
  have "filter (\<lambda>x. row_key x = run_key r) (wdb_runs db) = [run_to_record q]"
    using unique_row [of row_key "wdb_runs db" "run_to_record q"] ok row key by (simp add: wf_db_ok_def)
  moreover have "(rn_owner_subject x = wr_owner_subject r \<and> rn_workflow_code x = wr_workflow_code r
      \<and> rn_workflow_version x = wr_workflow_version r \<and> rn_idempotency_key x = wr_idempotency_key r)
      = (row_key x = run_key r)" for x by (simp add: row_key_def run_key_def)
  ultimately show ?thesis
    by (simp add: pw_create_or_get_def fails load_run_def from_run_record_represents [OF rep])
qed

lemma pw_owned:
  assumes ok: "wf_db_ok db"
  shows "pw_get_owned rid owner db = Inr (case pw_view db rid of
    Some r \<Rightarrow> if wr_owner_subject r = owner then Some r else None | None \<Rightarrow> None)"
proof -
  have sub: "filter (\<lambda>x. rn_id x = rid \<and> rn_owner_subject x = owner) (wdb_runs db)
      = filter (\<lambda>x. rn_owner_subject x = owner) (filter (\<lambda>x. rn_id x = rid) (wdb_runs db))"
    by (auto intro: filter_cong)
  show ?thesis
  proof (cases "pw_view db rid")
    case None
    then have "filter (\<lambda>x. rn_id x = rid) (wdb_runs db) = []"
      by (auto simp: pw_view_None [OF ok] filter_empty_conv)
    with None show ?thesis by (simp add: pw_get_owned_def sub load_run_def)
  next
    case (Some r)
    then have r: "wr_id r = rid" "wf_represents db r" "run_to_record r \<in> set (wdb_runs db)"
      unfolding pw_view_iff [OF ok] by blast+
    have "filter (\<lambda>x. rn_id x = rid) (wdb_runs db) = [run_to_record r]"
      using unique_row [of rn_id "wdb_runs db" "run_to_record r"] r ok by (simp add: wf_db_ok_def)
    with Some r(2) show ?thesis
      by (simp add: pw_get_owned_def sub load_run_def from_run_record_represents)
  qed
qed

section \<open>The contract holds\<close>

lemma wf_event_ids_distinct:
  assumes "wf_db_ok db" "wf_represents db r"
  shows "distinct (map we_id (wr_events r))"
proof -
  have "distinct (map ev_id (filter (\<lambda>x. ev_run_id x = wr_id r) (wdb_events db)))"
    using assms(1) by (simp add: wf_db_ok_def distinct_map_filter)
  then have "distinct (map ev_id (wf_events_of db (wr_id r)))"
    unfolding distinct_map_mset [OF wf_rows_mset(2)] .
  with assms(2) show ?thesis by (simp add: wf_represents_def comp_def)
qed

interpretation pw: workflow_repository postgres_workflows wf_db_ok pw_view pw_handled pw_used pw_supplied
proof (unfold_locales, goal_cases)
  case (1 s rid)
  then show ?case by (simp add: postgres_workflows_def pw_get_def pw_load_Inr)
next
  case (2 s rid)
  then show ?case by (simp add: postgres_workflows_def pw_get_for_update_def pw_load_Inr)
next
  case (3 s rid owner)
  then show ?case by (simp add: postgres_workflows_def pw_owned)
next
  case (4 s rid r)
  then have r: "wr_id r = rid" "wf_represents s r" unfolding pw_view_iff [OF 4(1)] by blast+
  with wf_represents_ids wf_event_ids_distinct [OF 4(1)] show ?case by (auto simp: wf_represents_def)
next
  case (5 s i r j q)
  then have rows: "run_to_record r \<in> set (wdb_runs s)" "run_to_record q \<in> set (wdb_runs s)"
    "wr_id r = i" "wr_id q = j" unfolding pw_view_iff [OF 5(1)] by blast+
  have "inj_on row_key (set (wdb_runs s))" using 5(1) by (simp add: wf_db_ok_def distinct_map)
  from inj_onD [OF this _ rows(1,2)] 5(4) have "run_to_record r = run_to_record q" by simp
  with rows(3,4) show ?case by (metis wf_record_keys(1))
next
  case (6 s rid ct cid)
  then show ?case
    by (force simp: postgres_workflows_def pw_has_processed_command_def pw_handled_def list_ex_iff)
next
  case (7 s u r rc)
  then show ?case using pw_save_stored [of s u r rc] by (simp add: postgres_workflows_def)
next
  case (8 s u r e e' rc)
  then show ?case using pw_save_stale [of s u r e e' rc] by (simp add: postgres_workflows_def)
next
  case (9 s r ev)
  have "wf_db_ok (wf_inserted r s)" by (rule wf_inserted_ok [OF 9])
  moreover have "same_but_order r (collated s r)"
    unfolding same_but_order_def collated_def
    by (rule exI [of _ "sort_key (\<lambda>n. wdb_collate s (wn_node_id n)) (wr_nodes r)"]) simp
  moreover have "pw_handled (wf_inserted r s) = pw_handled s" by (simp add: pw_handled_def wf_inserted_def)
  moreover have "pw_used (wf_inserted r s) = pw_used s \<union> event_id_set r \<union> node_id_set r"
    by (auto simp: pw_used_def wf_inserted_def event_id_set_def node_id_set_def image_Un image_image)
  moreover have "pw_create_or_get r s = Inr (wf_inserted r s, r)"
    "pw_view (wf_inserted r s) = (pw_view s)(wr_id r \<mapsto> collated s r)"
    by (rule pw_create_new(1) [OF 9], assumption) (rule pw_create_new(2) [OF 9])
  ultimately show ?case by (auto simp: postgres_workflows_def)
next
  case (10 s i q r)
  then show ?case using pw_create_existing by (simp add: postgres_workflows_def)
qed

end
