(* ===== verification/Workflow_Service_Theorems.thy ===== *)
theory Workflow_Service_Theorems
  imports Workflow_Use_Cases Workflow_Contract Workflow_Theorems
begin

text \<open>
  The properties of the workflow service over the PostgreSQL repository and the definition registry.
\<close>

interpretation ws: workflow_service postgres_workflows wf_db_ok pw_view pw_handled pw_used pw_supplied
  registry_port registry_ok ..

section \<open>The database\<close>

definition migrated :: "(string \<Rightarrow> string) \<Rightarrow> (nat \<Rightarrow> uuid) \<Rightarrow> int \<Rightarrow> wf_db" where
  \<comment> \<open>the tables before the first request\<close>
  "migrated collate uuid4 now = \<lparr>wdb_runs = [], wdb_nodes = [], wdb_events = [], wdb_receipts = [],
     wdb_collate = collate, wdb_uuid4 = uuid4, wdb_drawn = 0, wdb_now = now\<rparr>"

abbreviation serving where
  "serving R digest collate uuid4 now \<equiv>
     wf_served postgres_workflows (registry_port R) digest pw_view pw_used pw_supplied (migrated collate uuid4 now)"

lemma pw_get_view: "wf_db_ok db \<Longrightarrow> pw_get rid db = Inr (pw_view db rid)"
  using pw.get [of db rid] by (simp add: postgres_workflows_def)

lemma migrated_ok: "wf_db_ok (migrated collate uuid4 now)" "ws.tracked R (migrated collate uuid4 now)"
proof -
  show ok: "wf_db_ok (migrated collate uuid4 now)"
    by (simp add: migrated_def wf_db_ok_def wf_constraints_ok_def run_table_ok_def node_table_ok_def
        wf_event_table_ok_def wf_receipt_table_ok_def)
  have "pw_view (migrated collate uuid4 now) rid = None" for rid
    using pw_get_view [OF ok, of rid] by (simp add: pw_get_def pw_load_def load_run_def migrated_def)
  then show "ws.tracked R (migrated collate uuid4 now)" by (simp add: ws.tracked_def)
qed

lemma serving_ok:
  assumes "serving R digest collate uuid4 now (db, fs)" "registry_ok R"
  shows "wf_db_ok db" "ws.tracked R db" "f \<in> set fs \<Longrightarrow> ws.airborne R db f"
  using ws.traffic_ok [OF assms migrated_ok] by blast+

section \<open>A sample database\<close>

fun serves :: "wf_registry \<Rightarrow> (string \<Rightarrow> string) \<Rightarrow> wf_request list \<Rightarrow> wf_db \<times> wf_flight list \<Rightarrow>
  (wf_db \<times> wf_flight list) option" where
  "serves reg digest [] sys = Some sys"
| "serves reg digest (q # qs) sys =
     (if pw_supplied (fst sys) \<and> request_fresh reg pw_view pw_used q sys
      then serves reg digest qs (serve postgres_workflows reg digest q sys) else None)"

lemma serves_served:
  "serves reg digest qs sys = Some sys' \<Longrightarrow> wf_served postgres_workflows reg digest pw_view pw_used pw_supplied s0 sys \<Longrightarrow>
   wf_served postgres_workflows reg digest pw_view pw_used pw_supplied s0 sys'"
proof (induction qs arbitrary: sys)
  case (Cons q qs)
  then have "wf_served postgres_workflows reg digest pw_view pw_used pw_supplied s0 (serve postgres_workflows reg digest q sys)"
    by (cases sys) (auto split: if_splits intro: wf_served.served)
  with Cons show ?case by (simp split: if_splits)
qed simp

definition sample_capability :: capability where
  "sample_capability = \<lparr>pc_code = ''cap'', pc_type = ''agent'', pc_description = ''d'',
     pc_input_schema = JObj [], pc_output_schema = JObj [], pc_required_fields = [],
     pc_confirmation_policy = ''never'', pc_permission = [], pc_enabled = True, pc_timeout_seconds = 60,
     pc_error_boundary = ''e'', pc_dispatch_key = ''cap'', pc_retrieval_metadata = JObj [], pc_id = None,
     pc_created_at = None, pc_updated_at = None\<rparr>"

definition sample_catalog :: catalog_port where
  "sample_catalog code ps = Inr (if code = ''cap'' then Some sample_capability else None)"

definition sample_registry :: "catalog_port \<times> definition_registry" where
  "sample_registry = (sample_catalog, projr (new_registry sample_catalog [] [sample_chain, sample_fan]))"

lemma sample_registry_ok: "registry_ok sample_registry"
proof -
  have "isl (new_registry sample_catalog [] [sample_chain, sample_fan]) = False" by code_simp
  then obtain R where R: "new_registry sample_catalog [] [sample_chain, sample_fan] = Inr R"
    by (cases "new_registry sample_catalog [] [sample_chain, sample_fan]") auto
  from new_registry_ok(1) [OF this] show ?thesis
    by (simp add: sample_registry_def R sample_versions_ok)
qed

definition alice :: principal where
  "alice = \<lparr>pr_subject = Some ''alice'', pr_permissions = [], pr_authenticated = True\<rparr>"

definition sample_digest :: "string \<Rightarrow> string" where "sample_digest s = ''fp''"

definition late_ids :: event_ids where "late_ids k = of_nat k + 500"

definition sample_requests :: "wf_request list" where
  "sample_requests =
     [Rq_create \<lparr>cw_principal = alice, cw_workflow_code = ''fan'', cw_workflow_version = ''v1'',
        cw_idempotency_key = ''k1'', cw_inputs = JObj []\<rparr> (Aware 0) 1 (\<lambda>i. of_nat i + 10) sample_ids,
      Rq_begin alice 1 ''a'' (JObj []) ''c1'' (Aware 1) sample_ids,
      Rq_begin alice 1 ''b'' (JObj []) ''c2'' (Aware 2) sample_ids,
      Rq_finish 0 (Some (no_outcome\<lparr>oc_status := ''completed'', oc_result_summary := Some ''ok''\<rparr>)) (Aware 3) sample_ids]"

text \<open>Node \<open>a\<close> is left running when another execution has finished node \<open>b\<close>.\<close>

definition sample_system :: "wf_db \<times> wf_flight list" where
  "sample_system = the (serves (registry_port sample_registry) sample_digest sample_requests
     (migrated id (\<lambda>n. of_nat n + 1000) 0, []))"

definition stored :: "wf_db \<Rightarrow> wf_run" where
  "stored db = (case pw_get 1 db of Inr (Some r) \<Rightarrow> r | _ \<Rightarrow> undefined)"

definition sample_facts :: "(wf_db \<times> wf_flight list) option \<Rightarrow> bool" where
  \<comment> \<open>what the witnesses need to know of the sample system, computed once\<close>
  "sample_facts sys = (case sys of None \<Rightarrow> False | Some (db, fs) \<Rightarrow>
     pw_supplied db \<and> length fs = 1 \<and> new_ids_ok (pw_used db) (fl_run (hd fs)) late_ids
     \<and> wr_id (fl_run (hd fs)) = 1
     \<and> version_node (fl_version (hd fs)) (fl_node (hd fs)) = Inr (sample_node ''a'' 1 [] [])
     \<and> new_command pw_view pw_used db 1 ''c3'' sample_ids
     \<and> pw_has_processed_command 1 ''execute-node'' ''c2'' db = Inr True
     \<and> (case pw_get 1 db of Inr (Some r) \<Rightarrow>
          length (wr_events r) \<noteq> length (wr_events (fl_run (hd fs))) \<and> wr_owner_subject r = ''alice''
          \<and> run_key r = (''alice'', ''fan'', ''v1'', ''k1'') \<and> wr_input_fingerprint r = ''fp''
        | _ \<Rightarrow> False))"

lemma sample_facts: "sample_facts (serves (registry_port sample_registry) sample_digest sample_requests
     (migrated id (\<lambda>n. of_nat n + 1000) 0, []))"
  by code_simp

lemma sample_served: "serving sample_registry sample_digest id (\<lambda>n. of_nat n + 1000) 0 (fst sample_system, snd sample_system)"
proof -
  obtain sys where sys: "serves (registry_port sample_registry) sample_digest sample_requests
     (migrated id (\<lambda>n. of_nat n + 1000) 0, []) = Some sys"
    using sample_facts by (auto simp: sample_facts_def split: option.splits)
  from serves_served [OF sys wf_served.idle] show ?thesis by (simp add: sample_system_def sys)
qed

abbreviation sample_db :: wf_db where "sample_db \<equiv> fst sample_system"
abbreviation sample_flight :: wf_flight where "sample_flight \<equiv> hd (snd sample_system)"

lemma sample_system:
  "pw_supplied sample_db" "snd sample_system = [sample_flight]"
  "new_ids_ok (pw_used sample_db) (fl_run sample_flight) late_ids" "wr_id (fl_run sample_flight) = 1"
  "version_node (fl_version sample_flight) (fl_node sample_flight) = Inr (sample_node ''a'' 1 [] [])"
  "new_command pw_view pw_used sample_db 1 ''c3'' sample_ids"
  "pw_has_processed_command 1 ''execute-node'' ''c2'' sample_db = Inr True"
  "pw_get 1 sample_db = Inr (Some (stored sample_db))"
  "stored sample_db \<noteq> fl_run sample_flight" "wr_owner_subject (stored sample_db) = ''alice''"
  "run_key (stored sample_db) = (''alice'', ''fan'', ''v1'', ''k1'')" "wr_input_fingerprint (stored sample_db) = ''fp''"
proof -
  have facts: "sample_facts (Some sample_system)"
    using sample_facts by (cases "serves (registry_port sample_registry) sample_digest sample_requests
     (migrated id (\<lambda>n. of_nat n + 1000) 0, [])") (auto simp: sample_system_def sample_facts_def)
  have one: "length xs = 1 \<Longrightarrow> xs = [hd xs]" for xs :: "wf_flight list" by (cases xs) auto
  note f = facts [unfolded sample_facts_def option.case case_prod_unfold]
  from f one show "pw_supplied sample_db" "snd sample_system = [sample_flight]"
    "new_ids_ok (pw_used sample_db) (fl_run sample_flight) late_ids" "wr_id (fl_run sample_flight) = 1"
    "version_node (fl_version sample_flight) (fl_node sample_flight) = Inr (sample_node ''a'' 1 [] [])"
    "new_command pw_view pw_used sample_db 1 ''c3'' sample_ids"
    "pw_has_processed_command 1 ''execute-node'' ''c2'' sample_db = Inr True" by blast+
  from f obtain r where r: "pw_get 1 sample_db = Inr (Some r)" "length (wr_events r) \<noteq> length (wr_events (fl_run sample_flight))"
    "wr_owner_subject r = ''alice''" "run_key r = (''alice'', ''fan'', ''v1'', ''k1'')" "wr_input_fingerprint r = ''fp''"
    by (simp split: sum.splits option.splits)
  then show "pw_get 1 sample_db = Inr (Some (stored sample_db))" "stored sample_db \<noteq> fl_run sample_flight"
    "wr_owner_subject (stored sample_db) = ''alice''" "run_key (stored sample_db) = (''alice'', ''fan'', ''v1'', ''k1'')"
    "wr_input_fingerprint (stored sample_db) = ''fp''" by (auto simp: stored_def)
qed

section \<open>Stored runs\<close>







section \<open>Use cases\<close>

text \<open>
  C31: a handled command is replayed. The owner who sends any command again gets the stored run back,
  whatever the other arguments are now; nothing is written and the executor is not asked.
\<close>

theorem handled_command_is_replayed:
  assumes "serving R digest collate uuid4 now (db, fs)" "registry_ok R" "pw_get rid db = Inr (Some r)"
    "require_principal p = Inr p" "wr_owner_subject r = subject_of p"
    "pw_has_processed_command rid (command_type uc) cid db = Inr True"
  shows "perform postgres_workflows (registry_port R) exec p rid cid uc \<lparr>ww_store = db, ww_calls = calls\<rparr>
     = (\<lparr>ww_store = db, ww_calls = calls\<rparr>, Inr (view_from_run r))"
proof -
  note ok = serving_ok [OF assms(1,2)]
  have r: "pw_view db rid = Some r" using assms(3) pw_get_view [OF ok(1)] by simp
  then obtain v where "find_version (registry_port R) r = Inr v"
    using ok(2) unfolding ws.tracked_def find_version_def by fastforce
  moreover have "(rid, command_type uc, cid) \<in> pw_handled db"
    using assms(6) pw.has_processed [OF ok(1)] by (simp add: postgres_workflows_def)
  ultimately show ?thesis
    using ws.perform_replayed [of "\<lparr>ww_store = db, ww_calls = calls\<rparr>"] ok(1) assms(4,5) r by simp
qed

lemma alice_principal: "require_principal alice = Inr alice" "subject_of alice = ''alice''"
  by code_simp+

theorem handled_command_is_replayed_witness:
  "perform postgres_workflows (registry_port sample_registry) (\<lambda>cs c. None) alice 1 ''c2''
     (UC_execute ''c'' (JObj []) (Aware 9) late_ids (Aware 9) late_ids) \<lparr>ww_store = sample_db, ww_calls = []\<rparr>
   = (\<lparr>ww_store = sample_db, ww_calls = []\<rparr>, Inr (view_from_run (stored sample_db)))"
  by (rule handled_command_is_replayed [OF sample_served sample_registry_ok sample_system(8) alice_principal(1)])
    (simp_all add: sample_system(7,10) alice_principal(2))

text \<open>
  C32: runs are isolated. To a caller who does not own a run, every use case answers as for a run that
  does not exist: it raises the same error, writes nothing and never asks the executor.
\<close>

theorem runs_are_isolated:
  assumes "serving R digest collate uuid4 now (db, fs)" "registry_ok R" "require_principal p = Inr p"
    "\<And>r. pw_get rid db = Inr (Some r) \<Longrightarrow> wr_owner_subject r \<noteq> subject_of p"
  shows "perform postgres_workflows (registry_port R) exec p rid cid uc \<lparr>ww_store = db, ww_calls = calls\<rparr>
      = (\<lparr>ww_store = db, ww_calls = calls\<rparr>, Inl WfLookupError)
    \<and> app_get_owned postgres_workflows p rid db = (db, Inl WfLookupError)"
proof -
  note ok = serving_ok [OF assms(1,2)]
  have other: "pw_view db rid = Some r \<Longrightarrow> wr_owner_subject r \<noteq> subject_of p" for r
    using assms(4) pw_get_view [OF ok(1)] by simp
  then have "wp_get_owned postgres_workflows rid (subject_of p) db = Inr None"
    unfolding pw.get_owned [OF ok(1)] by (auto split: option.split)
  then have "app_get_owned postgres_workflows p rid db = (db, Inl WfLookupError)"
    by (simp add: app_get_owned_def assms(3) bindA_def)
  moreover have "perform postgres_workflows (registry_port R) exec p rid cid uc \<lparr>ww_store = db, ww_calls = calls\<rparr>
      = (\<lparr>ww_store = db, ww_calls = calls\<rparr>, Inl WfLookupError)"
    by (rule ws.perform_refused) (use ok(1) assms(3) other in simp_all)
  ultimately show ?thesis by blast
qed

definition bob :: principal where
  "bob = \<lparr>pr_subject = Some '' bob '', pr_permissions = [], pr_authenticated = True\<rparr>"

theorem runs_are_isolated_witness:
  "perform postgres_workflows (registry_port sample_registry) (\<lambda>cs c. None) bob 1 ''c2''
     (UC_cancel (Aware 9) late_ids) \<lparr>ww_store = sample_db, ww_calls = []\<rparr>
    = (\<lparr>ww_store = sample_db, ww_calls = []\<rparr>, Inl WfLookupError)
   \<and> app_get_owned postgres_workflows bob 1 sample_db = (sample_db, Inl WfLookupError)"
proof (rule runs_are_isolated [OF sample_served sample_registry_ok])
  show "require_principal bob = Inr bob" by code_simp
  have "subject_of bob = ''bob''" by code_simp
  then show "pw_get 1 sample_db = Inr (Some r) \<Longrightarrow> wr_owner_subject r \<noteq> subject_of bob" for r
    using sample_system(8,10) by auto
qed

text \<open>
  C33: the executor is asked at most once per execution, for a node of the caller's run whose predecessors
  have all succeeded, with exactly the input fields the node declares; a field bound by an incoming edge
  carries what that edge's source reported.
\<close>

theorem executor_gets_declared_inputs:
  assumes "serving R digest collate uuid4 now (db, fs)" "registry_ok R" "pw_supplied db"
    "new_command pw_view pw_used db rid cid ids"
    "app_execute_node postgres_workflows (registry_port R) exec p rid nid inputs cid t ids t2 ids2
       \<lparr>ww_store = db, ww_calls = calls\<rparr> = (w, x)"
  shows "ww_calls w = calls \<or> (\<exists>r c. ww_calls w = calls @ [Execute c]
     \<and> pw_get rid db = Inr (Some r) \<and> wr_owner_subject r = subject_of p
     \<and> registry_get (snd R) (wr_workflow_code r) (wr_workflow_version r) = Some (xe_version c)
     \<and> xe_node c \<in> set (wv_nodes (xe_version c)) \<and> nd_node_id (xe_node c) = nid
     \<and> dict_keys (xe_inputs c) = set (nd_input_fields (xe_node c))
     \<and> (\<forall>e \<in> set (wv_edges (xe_version c)). ed_target e = nid \<longrightarrow> succeeded r (ed_source e)
          \<and> (\<forall>f \<in> set (ed_output_fields e). map_of (xe_inputs c) f = map_of (output_references (ed_source e) r) f)))"
proof -
  note ok = serving_ok [OF assms(1,2)]
  let ?w = "\<lparr>ww_store = db, ww_calls = calls\<rparr>"
  from ws.execute_calls [of ?w, OF _ assms(2) _ _ assms(5)] ok(1) assms(3,4)
  consider "ww_calls w = calls" | r v d given ready where
    "ww_calls w = calls @ [Execute \<lparr>xe_principal = p, xe_version = v, xe_node = d, xe_inputs = given\<rparr>]"
    "pw_view db rid = Some r" "wr_owner_subject r = subject_of p" "find_version (registry_port R) r = Inr v"
    "ready_nodes v r = Inr ready" "nid \<in> set ready" "version_node v nid = Inr d"
    "build_node_inputs r v nid inputs = Inr given" by auto
  then show ?thesis
  proof cases
    case (2 r v d given ready)
    from ok(2) 2(2) obtain v' where v': "version_ok v'" "wf_reachable True v' r"
      "rg_get (registry_port R) (wr_workflow_code r) (wr_workflow_version r) = Some v'"
      unfolding ws.tracked_def by blast
    moreover have "v' = v" using 2(4) v'(3) by (simp add: find_version_def)
    ultimately have v: "version_ok v" "wf_reachable True v r"
      "registry_get (snd R) (wr_workflow_code r) (wr_workflow_version r) = Some v"
      by (simp_all add: registry_port_def)
    obtain kvs where kvs: "inputs = JObj kvs" using built_inputs_object [OF 2(8)] by blast
    have es: "incoming_edges v nid = Inr (filter (\<lambda>e. ed_target e = nid) (wv_edges v))"
      using 2(7) by (simp add: incoming_edges_def)
    note built = built_inputs [OF v(1) 2(7) es 2(8) [unfolded kvs]]
    have "d \<in> set (wv_nodes v)" "nd_node_id d = nid"
      using 2(7) by (auto simp: version_node_def find_node_def_def find_Some_iff split: option.splits)
    moreover have "nid \<in> wn_node_id ` {n \<in> set (wr_nodes r). is_ready v r n}"
      using ready_nodes_eq [OF reachable_ok [OF v(2,1)] v(1)] 2(5,6) by auto
    then have "succeeded r (ed_source e)" if "e \<in> set (wv_edges v)" "ed_target e = nid" for e
      using that by (auto simp: is_ready_def)
    moreover have "pw_get rid db = Inr (Some r)" using 2(2) pw_get_view [OF ok(1)] by simp
    ultimately show ?thesis using 2(1,3) v(3) built(1,2) by (intro disjI2 exI [of _ r] exI) auto
  qed simp
qed

theorem executor_gets_declared_inputs_witness:
  "let w = fst (app_execute_node postgres_workflows (registry_port sample_registry) (\<lambda>cs c. None) alice 1 ''c''
       (JObj []) ''c3'' (Aware 9) sample_ids (Aware 10) late_ids \<lparr>ww_store = sample_db, ww_calls = []\<rparr>)
   in ww_calls w = [] \<or> (\<exists>r c. ww_calls w = [] @ [Execute c]
     \<and> pw_get 1 sample_db = Inr (Some r) \<and> wr_owner_subject r = subject_of alice
     \<and> registry_get (snd sample_registry) (wr_workflow_code r) (wr_workflow_version r) = Some (xe_version c)
     \<and> xe_node c \<in> set (wv_nodes (xe_version c)) \<and> nd_node_id (xe_node c) = ''c''
     \<and> dict_keys (xe_inputs c) = set (nd_input_fields (xe_node c))
     \<and> (\<forall>e \<in> set (wv_edges (xe_version c)). ed_target e = ''c'' \<longrightarrow> succeeded r (ed_source e)
          \<and> (\<forall>f \<in> set (ed_output_fields e). map_of (xe_inputs c) f = map_of (output_references (ed_source e) r) f)))"
  unfolding Let_def
  by (rule executor_gets_declared_inputs [OF sample_served sample_registry_ok sample_system(1,6) prod.collapse [symmetric]])

text \<open>
  C34: creating a run is idempotent. When the caller already has a run with the same version and
  idempotency key, creating it again writes nothing: it returns that run when the inputs have the same
  fingerprint and is refused as a conflict when they do not.
\<close>

theorem run_is_created_once:
  assumes "serving R digest collate uuid4 now (db, fs)" "registry_ok R" "pw_get i db = Inr (Some r)"
    "require_principal (cw_principal c) = Inr p"
    "registry_get (snd R) (cw_workflow_code c) (cw_workflow_version c) = Some v" "wv_enabled v"
    "validate_access (fst R) (snd R) v (pr_permissions p) = Inr u" "root_fields v = Inr names"
    "validate_inputs names (cw_inputs c) = Inr d"
    "create_run v (subject_of p) (cw_idempotency_key c) (input_fingerprint digest d) t rid nids ids = Inr q"
    "run_key r = run_key q"
  shows "app_create_run postgres_workflows (registry_port R) digest c t rid nids ids db = (db,
    if wr_input_fingerprint r = wr_input_fingerprint q then Inr (view_from_run r)
    else Inl WorkflowIdempotencyConflictError)"
proof -
  note ok = serving_ok [OF assms(1,2)]
  have "pw_view db i = Some r" using assms(3) pw_get_view [OF ok(1)] by simp
  from ws.create_again [OF ok(1) this assms(4) _ assms(6) _ assms(8-11)] assms(5,7) show ?thesis
    by (simp add: registry_port_def)
qed

definition again :: create_run_command where
  "again = \<lparr>cw_principal = alice, cw_workflow_code = ''fan'', cw_workflow_version = ''v1'',
     cw_idempotency_key = '' k1'', cw_inputs = JObj []\<rparr>"

theorem run_is_created_once_witness:
  "app_create_run postgres_workflows (registry_port sample_registry) sample_digest again (Aware 9) 2 late_ids late_ids sample_db
   = (sample_db, if wr_input_fingerprint (stored sample_db) = wr_input_fingerprint (projr (create_run sample_fan ''alice'' '' k1'' ''fp'' (Aware 9) 2 late_ids late_ids))
      then Inr (view_from_run (stored sample_db)) else Inl WorkflowIdempotencyConflictError)"
proof (rule run_is_created_once [OF sample_served sample_registry_ok sample_system(8)])
  show "require_principal (cw_principal again) = Inr alice" by code_simp
  show "registry_get (snd sample_registry) (cw_workflow_code again) (cw_workflow_version again) = Some sample_fan"
    by code_simp
  show "wv_enabled sample_fan" by code_simp
  show "validate_access (fst sample_registry) (snd sample_registry) sample_fan (pr_permissions alice) = Inr ()" by code_simp
  show "root_fields sample_fan = Inr []" by code_simp
  show "validate_inputs [] (cw_inputs again) = Inr []" by code_simp
  have "isl (create_run sample_fan ''alice'' '' k1'' ''fp'' (Aware 9) 2 late_ids late_ids) = False" by code_simp
  then show "create_run sample_fan (subject_of alice) (cw_idempotency_key again) (input_fingerprint sample_digest []) (Aware 9) 2 late_ids late_ids
      = Inr (projr (create_run sample_fan ''alice'' '' k1'' ''fp'' (Aware 9) 2 late_ids late_ids))"
    by (simp add: alice_principal again_def input_fingerprint_def sample_digest_def sum.collapse(2))
  have "run_key (projr (create_run sample_fan ''alice'' '' k1'' ''fp'' (Aware 9) 2 late_ids late_ids)) = (''alice'', ''fan'', ''v1'', ''k1'')"
    by code_simp
  then show "run_key (stored sample_db) = run_key (projr (create_run sample_fan ''alice'' '' k1'' ''fp'' (Aware 9) 2 late_ids late_ids))"
    by (simp add: sample_system(11))
qed




end
