(* ===== verification/Attachment.thy ===== *)
theory Attachment
  imports Capability "HOL-Library.Word"
begin

text \<open>
  Attachments (\<open>app/platform/attachment/contracts.py\<close>) and their temporary storage in the file system
  (\<open>app/infrastructure/filesystem/attachment_storage.py\<close>).

  The store is the dictionary of records and the directories below the attachment root, each with its
  files. SHA-256 is the parameter \<open>digest\<close>, \<open>uuid4().hex\<close> and the clock's values are arguments. Removing a
  directory succeeds; writing one may fail. The manifests a new process reads back are not modelled.
\<close>

type_synonym bytes = "8 word list"

section \<open>Contracts\<close>

datatype attachment_error = AttachmentValueError | FileExistsError | OSError

record attachment_ref =
  at_attachment_id :: string
  at_file_name :: string
  at_media_type :: string
  at_size_bytes :: int
  at_sha256 :: string
  at_status :: string

definition is_sha256 :: "string \<Rightarrow> bool" where
  "is_sha256 s \<longleftrightarrow> length (py_lower s) = 64 \<and> list_all is_lower_hex (py_lower s)"

definition mk_ref :: "attachment_ref \<Rightarrow> attachment_error + attachment_ref" where
  "mk_ref a =
     (if \<not> is_opaque_id (at_attachment_id a) then Inl AttachmentValueError
      else if py_strip (at_file_name a) = [] then Inl AttachmentValueError
      else if py_strip (at_media_type a) = [] then Inl AttachmentValueError
      else if at_size_bytes a < 0 then Inl AttachmentValueError
      else if \<not> is_sha256 (at_sha256 a) then Inl AttachmentValueError
      else Inr a)"

record access_context =
  ax_subject :: string
  ax_conversation_id :: "string option"

definition mk_context :: "string \<Rightarrow> string option \<Rightarrow> attachment_error + access_context" where
  "mk_context subject conversation =
     (if py_strip subject = [] then Inl AttachmentValueError
      else if \<not> pred_option (\<lambda>c. py_strip c \<noteq> []) conversation then Inl AttachmentValueError
      else Inr \<lparr>ax_subject = py_strip subject, ax_conversation_id = map_option py_strip conversation\<rparr>)"

record read_result =
  rd_status :: string
  rd_attachment :: "attachment_ref option"
  rd_content :: "bytes option"
  rd_error_code :: "string option"

definition read_result_ok :: "read_result \<Rightarrow> bool" where
  \<comment> \<open>\<open>__post_init__\<close> does not raise\<close>
  "read_result_ok r =
     (if rd_status r = ''available'' then
        (case (rd_attachment r, rd_content r) of
           (Some a, Some content) \<Rightarrow> at_status a = ''available'' \<and> content \<noteq> [] \<and> rd_error_code r = None
         | _ \<Rightarrow> False)
      else rd_content r = None \<and> rd_error_code r \<noteq> None)"

definition mk_read_result :: "read_result \<Rightarrow> attachment_error + read_result" where
  "mk_read_result r = (if read_result_ok r then Inr r else Inl AttachmentValueError)"

definition unavailable :: "string \<Rightarrow> string \<Rightarrow> attachment_ref option \<Rightarrow> attachment_error + read_result" where
  "unavailable status error_code attachment =
     mk_read_result \<lparr>rd_status = status, rd_attachment = attachment, rd_content = None, rd_error_code = Some error_code\<rparr>"

section \<open>The store\<close>

record stored_attachment =
  sa_reference :: attachment_ref
  sa_owner_subject :: string
  sa_conversation_id :: "string option"
  sa_expires_at :: int
  sa_status :: string

record storage_config =
  sg_max_size_bytes :: int
  sg_retention :: int \<comment> \<open>in microseconds, as times are\<close>
  sg_media_types :: "string list"

definition mk_storage :: "int \<Rightarrow> int \<Rightarrow> string list \<Rightarrow> attachment_error + storage_config" where
  "mk_storage max_size retention types =
     (let allowed = List.map_filter (\<lambda>t. if py_strip t = [] then None else Some (py_lower (py_strip t))) types
      in if max_size \<le> 0 then Inl AttachmentValueError
         else if retention \<le> 0 then Inl AttachmentValueError
         else if allowed = [] then Inl AttachmentValueError
         else Inr \<lparr>sg_max_size_bytes = max_size, sg_retention = retention * 1000000, sg_media_types = allowed\<rparr>)"

type_synonym attachment_dir = "(string \<times> bytes) list"

record storage =
  st_records :: "(string \<times> stored_attachment) list"
  st_dirs :: "(string \<times> attachment_dir) list"

section \<open>Helpers of the storage\<close>

fun path_parts :: "string \<Rightarrow> string \<Rightarrow> string list" where
  \<comment> \<open>the components of a path, without empty ones and dots; the second argument is the one being read\<close>
  "path_parts [] part = (if part = [] \<or> part = ''.'' then [] else [part])"
| "path_parts (c # cs) part =
     (if c = CHR ''/'' then (if part = [] \<or> part = ''.'' then [] else [part]) @ path_parts cs []
      else path_parts cs (part @ [c]))"

definition path_name :: "string \<Rightarrow> string" where
  \<comment> \<open>\<open>Path(s).name\<close>\<close>
  "path_name s = (if path_parts s [] = [] then [] else last (path_parts s []))"

definition ends_with :: "string \<Rightarrow> string \<Rightarrow> bool" where
  "ends_with ending s \<longleftrightarrow> suffix ending s"

definition normalized_id :: "string \<Rightarrow> string option" where
  \<comment> \<open>\<open>_attachment_id\<close>; the pattern ignores case\<close>
  "normalized_id raw =
     (let s = py_strip raw in if length s = 32 \<and> list_all is_lower_hex (py_lower s) then Some s else None)"

definition record_for_context :: "storage \<Rightarrow> string \<Rightarrow> access_context \<Rightarrow> stored_attachment option" where
  "record_for_context s aid ctx = (case map_of (st_records s) aid of
     None \<Rightarrow> None
   | Some r \<Rightarrow>
       if ax_subject ctx \<noteq> sa_owner_subject r then None
       else if sa_conversation_id r \<noteq> None \<and> ax_conversation_id ctx \<noteq> sa_conversation_id r then None
       else Some r)"

definition visible_files :: "attachment_dir \<Rightarrow> attachment_dir" where
  "visible_files d = filter (\<lambda>(name, _). \<not> ends_with ''.part'' name \<and> \<not> prefix ''.'' name) d"

definition verified_content :: "(bytes \<Rightarrow> string) \<Rightarrow> storage \<Rightarrow> stored_attachment \<Rightarrow> bytes option" where
  "verified_content digest s r = (case map_of (st_dirs s) (at_attachment_id (sa_reference r)) of
     None \<Rightarrow> None
   | Some d \<Rightarrow> (case visible_files d of
       [(_, content)] \<Rightarrow>
         if int (length content) \<noteq> at_size_bytes (sa_reference r) \<or> digest content \<noteq> at_sha256 (sa_reference r)
         then None else Some content
     | _ \<Rightarrow> None))"

definition remove_dir :: "string \<Rightarrow> storage \<Rightarrow> storage" where
  "remove_dir aid s = s\<lparr>st_dirs := filter (\<lambda>(n, _). n \<noteq> aid) (st_dirs s)\<rparr>"

definition set_status :: "string \<Rightarrow> string \<Rightarrow> storage \<Rightarrow> storage" where
  "set_status aid status s = s\<lparr>st_records :=
     map (\<lambda>(n, r). (n, if n = aid then r\<lparr>sa_status := status\<rparr> else r)) (st_records s)\<rparr>"

definition missing_result :: "attachment_error + read_result" where
  "missing_result = unavailable ''missing'' ''ATTACHMENT_NOT_FOUND'' None"

definition terminal_result :: "stored_attachment \<Rightarrow> attachment_error + read_result" where
  "terminal_result r = unavailable (sa_status r)
     (if sa_status r = ''consumed'' then ''ATTACHMENT_CONSUMED''
      else if sa_status r = ''expired'' then ''ATTACHMENT_EXPIRED'' else ''ATTACHMENT_NOT_FOUND'')
     (Some ((sa_reference r)\<lparr>at_status := sa_status r\<rparr>))"

section \<open>Operations\<close>

definition is_due :: "int \<Rightarrow> stored_attachment \<Rightarrow> bool" where
  "is_due now r \<longleftrightarrow> sa_status r = ''available'' \<and> sa_expires_at r \<le> now"

fun expire_records :: "int \<Rightarrow> (string \<times> stored_attachment) list \<Rightarrow> storage \<Rightarrow> storage \<times> int" where
  \<comment> \<open>the first loop, over the items of the dictionary\<close>
  "expire_records now [] s = (s, 0)"
| "expire_records now ((aid, r) # rs) s =
     (if is_due now r then
        let existed = (if map_of (st_dirs s) aid = None then 0 else 1);
            (s', n) = expire_records now rs (remove_dir aid (set_status aid ''expired'' s))
        in (s', existed + n)
      else expire_records now rs s)"

definition cleanup_expired :: "int \<Rightarrow> storage \<Rightarrow> storage \<times> int" where
  "cleanup_expired now s =
     (let (s1, n) = expire_records now (st_records s) s;
          known = filter (\<lambda>(d, _). d \<in> fst ` set (st_records s1)) (st_dirs s1)
      in (s1\<lparr>st_dirs := known\<rparr>, n + int (length (st_dirs s1)) - int (length known)))"

definition new_ref :: "(bytes \<Rightarrow> string) \<Rightarrow> string \<Rightarrow> string \<Rightarrow> string \<Rightarrow> bytes \<Rightarrow> attachment_ref" where
  "new_ref digest fresh name media stream =
     \<lparr>at_attachment_id = fresh, at_file_name = name, at_media_type = media,
      at_size_bytes = int (length stream), at_sha256 = digest stream, at_status = ''available''\<rparr>"

definition new_record :: "storage_config \<Rightarrow> attachment_ref \<Rightarrow> access_context \<Rightarrow> int \<Rightarrow> stored_attachment" where
  "new_record cfg ref ctx created_at =
     \<lparr>sa_reference = ref, sa_owner_subject = ax_subject ctx, sa_conversation_id = ax_conversation_id ctx,
      sa_expires_at = created_at + sg_retention cfg, sa_status = ''available''\<rparr>"

definition stage_attachment ::
  "storage_config \<Rightarrow> (bytes \<Rightarrow> string) \<Rightarrow> string option \<Rightarrow> string option \<Rightarrow> bytes \<Rightarrow> access_context \<Rightarrow> int \<Rightarrow> int \<Rightarrow>
   string \<Rightarrow> bool \<Rightarrow> bool \<Rightarrow> storage \<Rightarrow> storage \<times> (attachment_error + attachment_ref)" where
  \<comment> \<open>\<open>fresh\<close> is the new id; the two flags say that the file and the manifest cannot be written\<close>
  "stage_attachment cfg digest file_name media_type stream ctx now created_at fresh file_fails manifest_fails s =
     (let s1 = fst (cleanup_expired now s);
          name = path_name (case file_name of None \<Rightarrow> [] | Some n \<Rightarrow> n);
          media = py_lower (py_strip (case media_type of None \<Rightarrow> [] | Some t \<Rightarrow> t))
      in if py_strip (ax_subject ctx) = [] then (s1, Inl AttachmentValueError)
         else if name = [] \<or> name = ''.'' \<or> name = ''..'' \<or> prefix ''.'' name then (s1, Inl AttachmentValueError)
         else if media \<notin> set (sg_media_types cfg) then (s1, Inl AttachmentValueError)
         else if map_of (st_dirs s1) fresh \<noteq> None then (s1, Inl FileExistsError)
         else if sg_max_size_bytes cfg < int (length stream) then (s1, Inl AttachmentValueError)
         else if stream = [] then (s1, Inl AttachmentValueError)
         else if file_fails then (s1, Inl OSError)
         else
           let s2 = s1\<lparr>st_dirs := (fresh, [(name, stream)]) # st_dirs s1\<rparr>
           in case mk_ref (new_ref digest fresh name media stream) of
                Inl e \<Rightarrow> (s2, Inl e)
              | Inr ref \<Rightarrow>
                  if manifest_fails then (s1, Inl OSError)
                  else (s2\<lparr>st_records := AList.update fresh (new_record cfg ref ctx created_at) (st_records s2)\<rparr>, Inr ref))"

definition deliver ::
  "bool \<Rightarrow> (bytes \<Rightarrow> string) \<Rightarrow> string \<Rightarrow> access_context \<Rightarrow> int \<Rightarrow> storage \<Rightarrow> storage \<times> (attachment_error + read_result)" where
  \<comment> \<open>\<open>read\<close>, and \<open>consume\<close> when \<open>once\<close> holds\<close>
  "deliver once digest raw ctx now s =
     (let s1 = fst (cleanup_expired now s)
      in case normalized_id raw of
           None \<Rightarrow> (s1, missing_result)
         | Some aid \<Rightarrow> (case record_for_context s1 aid ctx of
             None \<Rightarrow> (s1, missing_result)
           | Some r \<Rightarrow>
               if sa_status r \<noteq> ''available'' then (s1, terminal_result r)
               else (case verified_content digest s1 r of
                   None \<Rightarrow> (remove_dir aid (set_status aid ''missing'' s1), terminal_result (r\<lparr>sa_status := ''missing''\<rparr>))
                 | Some content \<Rightarrow>
                     (if once then remove_dir aid (set_status aid ''consumed'' s1) else s1,
                      mk_read_result \<lparr>rd_status = ''available'', rd_attachment = Some (sa_reference r),
                        rd_content = Some content, rd_error_code = None\<rparr>))))"

definition read_attachment where "read_attachment = deliver False"
definition consume_attachment where "consume_attachment = deliver True"

definition discard_attachment :: "string \<Rightarrow> access_context \<Rightarrow> int \<Rightarrow> storage \<Rightarrow> storage \<times> bool" where
  "discard_attachment raw ctx now s =
     (let s1 = fst (cleanup_expired now s)
      in case normalized_id raw of
           None \<Rightarrow> (s1, False)
         | Some aid \<Rightarrow> (case record_for_context s1 aid ctx of
             None \<Rightarrow> (s1, False)
           | Some r \<Rightarrow> let s2 = remove_dir aid s1
               in (s2\<lparr>st_records := filter (\<lambda>(n, _). n \<noteq> aid) (st_records s2)\<rparr>, True)))"

end
