(* ===== verification/Interaction_Inputs.thy ===== *)
theory Interaction_Inputs
  imports Attachment Catalog
begin

text \<open>
  The inputs of a capability: their check against the input schema of the catalog
  (\<open>app/platform/interaction/domain/intent.py\<close>), and the replacement of attachment ids by verified content
  (\<open>domain/attachment.py\<close>, \<open>application/attachment_resolution.py\<close>).

  An input is a JSON value from outside, or, once resolved, an attachment or a tuple of attachments.
\<close>

section \<open>Values\<close>

record resolved_attachment =
  ra_reference :: attachment_ref
  ra_content :: bytes

datatype input_value =
    Plain json
  | Resolved resolved_attachment
  | Resolved_all "resolved_attachment list"

type_synonym inputs = "(string \<times> input_value) list"

lemma size_zip_left [termination_simp]: "(x, y) \<in> set (zip xs ys) \<Longrightarrow> size x < Suc (size_list size xs)"
  by (metis less_SucI order_le_less set_zip_leftD size_list_estimation not_less_eq)

fun py_eq :: "json \<Rightarrow> json \<Rightarrow> bool" where
  \<comment> \<open>\<open>==\<close> of Python: a \<open>bool\<close> is an integer, an integral float equals its integer (as far as its
    \<open>repr\<close> has no exponent), and the order of the items of a dictionary does not matter\<close>
  "py_eq (JBool b) (JInt n) \<longleftrightarrow> n = (if b then 1 else 0)"
| "py_eq (JInt n) (JBool b) \<longleftrightarrow> n = (if b then 1 else 0)"
| "py_eq (JFloat f) (JInt n) \<longleftrightarrow> f = int_str n @ ''.0''"
| "py_eq (JInt n) (JFloat f) \<longleftrightarrow> f = int_str n @ ''.0''"
| "py_eq (JFloat f) (JBool b) \<longleftrightarrow> f = (if b then ''1.0'' else ''0.0'')"
| "py_eq (JBool b) (JFloat f) \<longleftrightarrow> f = (if b then ''1.0'' else ''0.0'')"
| "py_eq (JList xs) (JList ys) \<longleftrightarrow> length xs = length ys \<and> list_all (\<lambda>(x, y). py_eq x y) (zip xs ys)"
| "py_eq (JObj xs) (JObj ys) \<longleftrightarrow> dict_keys xs = dict_keys ys
     \<and> list_all (\<lambda>(k, x). case map_of ys k of None \<Rightarrow> False | Some y \<Rightarrow> py_eq x y) xs"
| "py_eq x y \<longleftrightarrow> x = y"

fun input_eq :: "input_value \<Rightarrow> input_value \<Rightarrow> bool" where
  "input_eq (Plain x) (Plain y) = py_eq x y"
| "input_eq x y = (x = y)"

definition same_inputs :: "inputs \<Rightarrow> inputs \<Rightarrow> bool" where
  "same_inputs xs ys \<longleftrightarrow> dict_keys xs = dict_keys ys
     \<and> list_all (\<lambda>(k, x). case map_of ys k of None \<Rightarrow> False | Some y \<Rightarrow> input_eq x y) xs"

section \<open>The check against the schema\<close>

datatype input_error = TypeError | ValidationError

fun json_has_type :: "json \<Rightarrow> string \<Rightarrow> bool" where
  \<comment> \<open>an unknown type name accepts every value\<close>
  "json_has_type v name =
     (if name = ''string'' then (case v of JStr _ \<Rightarrow> True | _ \<Rightarrow> False)
      else if name = ''integer'' then (case v of JInt _ \<Rightarrow> True | _ \<Rightarrow> False)
      else if name = ''number'' then (case v of JInt _ \<Rightarrow> True | JFloat _ \<Rightarrow> True | _ \<Rightarrow> False)
      else if name = ''boolean'' then (case v of JBool _ \<Rightarrow> True | _ \<Rightarrow> False)
      else if name = ''array'' then (case v of JList _ \<Rightarrow> True | _ \<Rightarrow> False)
      else if name = ''object'' then (case v of JObj _ \<Rightarrow> True | _ \<Rightarrow> False)
      else if name = ''null'' then v = JNull
      else True)"

definition known_types :: "string set" where
  "known_types = {''string'', ''integer'', ''number'', ''boolean'', ''array'', ''object'', ''null''}"

fun matches_json_type :: "input_value \<Rightarrow> json \<Rightarrow> input_error + bool" where
  \<comment> \<open>a list or a dictionary is no key of a dictionary; other values that are no strings are no key of this one\<close>
  "matches_json_type (Plain v) (JStr name) = Inr (json_has_type v name)"
| "matches_json_type _ (JStr name) = Inr (name \<notin> known_types)"
| "matches_json_type _ (JList _) = Inl TypeError"
| "matches_json_type _ (JObj _) = Inl TypeError"
| "matches_json_type _ _ = Inr True"

fun matches_any :: "input_value \<Rightarrow> json list \<Rightarrow> input_error + bool" where
  "matches_any v [] = Inr False"
| "matches_any v (t # ts) = bindE (matches_json_type v t) (\<lambda>b. if b then Inr True else matches_any v ts)"

definition matches_schema_type :: "input_value \<Rightarrow> json \<Rightarrow> input_error + bool" where
  "matches_schema_type v schema = (case schema of
     JObj _ \<Rightarrow> (case dict_get schema ''type'' of
         None \<Rightarrow> Inr True
       | Some (JStr name) \<Rightarrow> matches_any v [JStr name]
       | Some (JList ts) \<Rightarrow> matches_any v ts
       | Some (JObj kvs) \<Rightarrow> matches_any v (map (\<lambda>(k, _). JStr k) kvs)
       | Some _ \<Rightarrow> Inl TypeError)
   | _ \<Rightarrow> Inr True)"

definition is_resolved_value :: "input_value \<Rightarrow> json \<Rightarrow> bool" where
  "is_resolved_value v schema = (case schema of
     JObj kvs \<Rightarrow> ''x-attachment'' \<in> dict_keys kvs
       \<and> (if dict_get schema ''type'' = Some (JStr ''string'') then (case v of Resolved _ \<Rightarrow> True | _ \<Rightarrow> False)
          else dict_get schema ''type'' = Some (JStr ''array'')
            \<and> (case v of Resolved_all rs \<Rightarrow> rs \<noteq> [] | _ \<Rightarrow> False))
   | _ \<Rightarrow> False)"

definition is_missing_value :: "input_value \<Rightarrow> bool" where
  "is_missing_value v = (case v of
     Plain JNull \<Rightarrow> True | Plain (JStr s) \<Rightarrow> py_strip s = [] | Plain (JList xs) \<Rightarrow> xs = [] | _ \<Rightarrow> False)"

record input_validation =
  iv_missing_fields :: "string list"
  iv_unknown_fields :: "string list"
  iv_invalid_fields :: "string list"

definition inputs_valid :: "input_validation \<Rightarrow> bool" where
  "inputs_valid r \<longleftrightarrow> iv_missing_fields r = [] \<and> iv_unknown_fields r = [] \<and> iv_invalid_fields r = []"

definition declared_properties :: "capability \<Rightarrow> json_dict" where
  "declared_properties c = (case dict_get (pc_input_schema c) ''properties'' of Some (JObj ps) \<Rightarrow> ps | _ \<Rightarrow> [])"

definition field_invalid :: "json_dict \<Rightarrow> string \<Rightarrow> input_value \<Rightarrow> input_error + bool" where
  "field_invalid declared name v = (case map_of declared name of
     None \<Rightarrow> Inr False
   | Some schema \<Rightarrow>
       if is_resolved_value v schema then Inr False
       else bindE (matches_schema_type v schema) (\<lambda>b. Inr (\<not> b)))"

fun invalid_names :: "json_dict \<Rightarrow> inputs \<Rightarrow> input_error + string list" where
  "invalid_names declared [] = Inr []"
| "invalid_names declared ((name, v) # ins) =
     bindE (field_invalid declared name v) (\<lambda>bad.
     bindE (invalid_names declared ins) (\<lambda>names. Inr (if bad then name # names else names)))"

definition validate_capability_inputs :: "capability \<Rightarrow> inputs \<Rightarrow> input_error + input_validation" where
  "validate_capability_inputs c ins =
     (let declared = declared_properties c;
          allows = (dict_get (pc_input_schema c) ''additionalProperties'' = Some (JBool True));
          unknown = (if allows then [] else sorted_list_of_set (dict_keys ins - dict_keys declared))
      in bindE (invalid_names declared ins) (\<lambda>invalid. Inr
        \<lparr>iv_missing_fields = filter (\<lambda>f. case map_of ins f of None \<Rightarrow> True | Some v \<Rightarrow> is_missing_value v)
           (pc_required_fields c),
         iv_unknown_fields = unknown, iv_invalid_fields = sort invalid\<rparr>))"

section \<open>Attachment ids\<close>

fun opaque_id_of :: "json \<Rightarrow> string option" where
  "opaque_id_of (JStr s) = (if is_opaque_id s then Some s else None)"
| "opaque_id_of _ = None"

definition attachment_ids :: "input_value \<Rightarrow> attachment_field \<Rightarrow> string list option" where
  "attachment_ids v d =
     (if af_max_count d = 1 then (case v of Plain j \<Rightarrow> map_option (\<lambda>s. [s]) (opaque_id_of j) | _ \<Rightarrow> None)
      else (case v of
          Plain (JList xs) \<Rightarrow>
            if xs = [] \<or> af_max_count d < int (length xs) \<or> list_ex (\<lambda>x. opaque_id_of x = None) xs then None
            else Some (List.map_filter opaque_id_of xs)
        | _ \<Rightarrow> None))"

text \<open>The reader is the port; it may change its store and may raise.\<close>

type_synonym ('s, 'e) attachment_reader = "string \<Rightarrow> access_context \<Rightarrow> 's \<Rightarrow> 's \<times> ('e + read_result)"

record resolution_result =
  rz_resolved :: bool
  rz_inputs :: inputs
  rz_error_code :: "string option"

definition rejected_resolution :: "string \<Rightarrow> resolution_result" where
  "rejected_resolution code = \<lparr>rz_resolved = False, rz_inputs = [], rz_error_code = Some code\<rparr>"

definition accept_read :: "attachment_field \<Rightarrow> read_result \<Rightarrow> string + resolved_attachment" where
  \<comment> \<open>the checks on what was read\<close>
  "accept_read d r = (case (rd_attachment r, rd_content r) of
     (Some a, Some content) \<Rightarrow>
       if rd_status r \<noteq> ''available'' then Inl ''ATTACHMENT_UNAVAILABLE''
       else if py_lower (at_media_type a) \<notin> set (af_allowed_media_types d)
             \<or> af_max_size_bytes d < at_size_bytes a \<or> af_max_size_bytes d < int (length content)
       then Inl ''ATTACHMENT_CONSTRAINT_VIOLATION''
       else Inr \<lparr>ra_reference = a, ra_content = content\<rparr>
   | _ \<Rightarrow> Inl ''ATTACHMENT_UNAVAILABLE'')"

fun read_attachments ::
  "('s, 'e) attachment_reader \<Rightarrow> access_context \<Rightarrow> attachment_field \<Rightarrow> string list \<Rightarrow> 's \<Rightarrow> 's \<times> (string + resolved_attachment list)" where
  "read_attachments reader ctx d [] s = (s, Inr [])"
| "read_attachments reader ctx d (i # is) s = (case reader i ctx s of
     (s1, Inl _) \<Rightarrow> (s1, Inl ''ATTACHMENT_RESOLUTION_UNAVAILABLE'')
   | (s1, Inr r) \<Rightarrow> (case accept_read d r of
       Inl code \<Rightarrow> (s1, Inl code)
     | Inr a \<Rightarrow> (case read_attachments reader ctx d is s1 of
         (s2, Inl code) \<Rightarrow> (s2, Inl code)
       | (s2, Inr as) \<Rightarrow> (s2, Inr (a # as)))))"

fun resolve_fields ::
  "('s, 'e) attachment_reader \<Rightarrow> access_context \<Rightarrow> inputs \<Rightarrow> attachment_field list \<Rightarrow> inputs \<Rightarrow> 's \<Rightarrow> 's \<times> resolution_result" where
  "resolve_fields reader ctx ins [] resolved s =
     (s, \<lparr>rz_resolved = True, rz_inputs = resolved, rz_error_code = None\<rparr>)"
| "resolve_fields reader ctx ins (d # ds) resolved s = (case map_of ins (af_field_name d) of
     None \<Rightarrow> resolve_fields reader ctx ins ds resolved s
   | Some v \<Rightarrow> (case attachment_ids v d of
       None \<Rightarrow> (s, rejected_resolution ''ATTACHMENT_INPUT_INVALID'')
     | Some is \<Rightarrow> (case read_attachments reader ctx d is s of
         (s1, Inl code) \<Rightarrow> (s1, rejected_resolution code)
       | (s1, Inr as) \<Rightarrow> resolve_fields reader ctx ins ds
           (AList.update (af_field_name d) (if af_max_count d = 1 then Resolved (hd as) else Resolved_all as) resolved) s1)))"

definition resolve_attachments ::
  "('s, 'e) attachment_reader \<Rightarrow> capability \<Rightarrow> inputs \<Rightarrow> access_context \<Rightarrow> 's \<Rightarrow> 's \<times> (cap_error + resolution_result)" where
  "resolve_attachments reader c ins ctx s = (case attachment_fields (pc_input_schema c) of
     Inl e \<Rightarrow> (s, Inl e)
   | Inr ds \<Rightarrow> (case resolve_fields reader ctx ins ds ins s of (s', r) \<Rightarrow> (s', Inr r)))"

section \<open>What is resolved\<close>

definition fits_declaration :: "attachment_field \<Rightarrow> resolved_attachment \<Rightarrow> bool" where
  "fits_declaration d a \<longleftrightarrow> py_lower (at_media_type (ra_reference a)) \<in> set (af_allowed_media_types d)
     \<and> at_size_bytes (ra_reference a) \<le> af_max_size_bytes d \<and> int (length (ra_content a)) \<le> af_max_size_bytes d"

definition value_of :: "attachment_field \<Rightarrow> resolved_attachment list \<Rightarrow> input_value" where
  "value_of d as = (if af_max_count d = 1 then Resolved (hd as) else Resolved_all as)"

lemma accept_read_Inr: "accept_read d r = Inr a \<Longrightarrow> fits_declaration d a"
  by (auto simp: accept_read_def fits_declaration_def not_less split: option.splits if_splits)

lemma read_attachments_Inr:
  "read_attachments reader ctx d is s = (s', Inr as) \<Longrightarrow> length as = length is \<and> list_all (fits_declaration d) as"
  by (induction "is" arbitrary: s as) (auto split: prod.splits sum.splits dest: accept_read_Inr)

lemma attachment_ids_count:
  "attachment_ids v d = Some is \<Longrightarrow> 0 < af_max_count d \<Longrightarrow> is \<noteq> [] \<and> int (length is) \<le> af_max_count d"
proof -
  have "list_ex (\<lambda>x. opaque_id_of x = None) xs \<or> length (List.map_filter opaque_id_of xs) = length xs" for xs
    by (induction xs) (auto simp: List.map_filter_simps split: option.splits)
  moreover assume "attachment_ids v d = Some is" "0 < af_max_count d"
  ultimately show ?thesis
    by (auto simp: attachment_ids_def not_less split: if_splits input_value.splits json.splits)
      (metis length_0_conv)+
qed

definition resolved_as :: "inputs \<Rightarrow> inputs \<Rightarrow> attachment_field \<Rightarrow> bool" where
  \<comment> \<open>the field, if it was given, is between one and the declared number of attachments within the limits\<close>
  "resolved_as ins out d \<longleftrightarrow> (af_field_name d \<in> dict_keys ins \<longrightarrow> (\<exists>as. map_of out (af_field_name d) = Some (value_of d as)
     \<and> as \<noteq> [] \<and> int (length as) \<le> af_max_count d \<and> list_all (fits_declaration d) as))"

lemma resolve_fields_ok:
  "resolve_fields reader ctx ins ds out s = (s', r) \<Longrightarrow> rz_resolved r \<Longrightarrow> distinct (map af_field_name ds) \<Longrightarrow>
   list_all (\<lambda>d. 0 < af_max_count d) ds \<Longrightarrow>
   list_all (resolved_as ins (rz_inputs r)) ds
   \<and> (\<forall>n. n \<notin> af_field_name ` set ds \<longrightarrow> map_of (rz_inputs r) n = map_of out n)"
proof (induction ds arbitrary: out s)
  case (Cons d ds)
  have new: "af_field_name d \<notin> af_field_name ` set ds" using Cons.prems(3) by simp
  show ?case
  proof (cases "map_of ins (af_field_name d)")
    case None
    then have "af_field_name d \<notin> dict_keys ins" by (simp add: dict_keys_def map_of_eq_None_iff)
    with Cons None show ?thesis by (auto simp: resolved_as_def)
  next
    case (Some v)
    with Cons.prems(1,2) obtain "is" as s1 where step: "attachment_ids v d = Some is"
      "read_attachments reader ctx d is s = (s1, Inr as)"
      "resolve_fields reader ctx ins ds (AList.update (af_field_name d) (value_of d as) out) s1 = (s', r)"
      by (auto simp: rejected_resolution_def value_of_def split: option.splits prod.splits sum.splits)
    have ih: "list_all (resolved_as ins (rz_inputs r)) ds"
      "n \<notin> af_field_name ` set ds \<Longrightarrow> map_of (rz_inputs r) n = map_of (AList.update (af_field_name d) (value_of d as) out) n" for n
      using Cons.IH [OF step(3)] Cons.prems(2-4) by auto
    have "map_of (rz_inputs r) (af_field_name d) = Some (value_of d as)"
      using ih(2) [OF new] by (simp add: update_conv')
    then have "resolved_as ins (rz_inputs r) d"
      using attachment_ids_count [OF step(1)] read_attachments_Inr [OF step(2)] Cons.prems(4) by (auto simp: resolved_as_def)
    then show ?thesis using ih by (auto simp: update_conv')
  qed
qed auto

lemma declared_attachment_positive:
  "declared_attachment n schema = Inr (Some d) \<Longrightarrow> 0 < af_max_count d \<and> af_field_name d = n"
proof -
  have "positive_integer v = Some n \<Longrightarrow> 0 < n" for v n by (cases v rule: positive_integer.cases) (auto split: if_splits)
  note pos = this
  assume d: "declared_attachment n schema = Inr (Some d)"
  then obtain kvs ext where schema: "schema = JObj kvs" "dict_get (JObj kvs) ''x-attachment'' = Some (JObj ext)"
    by (auto simp: declared_attachment_def split: json.split_asm option.split_asm)
  with d pos show ?thesis
    by (cases "positive_integer (dict_get (JObj ext) ''max_size_bytes'')";
        cases "positive_integer (dict_get (JObj ext) ''max_count'')")
      (auto simp: declared_attachment_def bindE_Inr_iff split: if_splits)
qed

end
