(* ===== verification/Confirmation.thy ===== *)
theory Confirmation
  imports Interaction_Inputs Principal
begin

text \<open>
  Which calls of agents are allowed: the confirmation of a proposal by the user
  (\<open>app/platform/interaction/application/confirmation.py\<close>, \<open>domain/confirmation.py\<close>, \<open>domain/intent.py\<close>), the
  structured call (\<open>domain/agent_call.py\<close>) and the policy that authorises it
  (\<open>application/agent_call_policy.py\<close>).

  The catalog is its answer to \<open>get_available\<close>. Messages to the user are left out: each is determined
  by the status and the error code. A \<open>ValidationError\<close> is raised by pydantic.
\<close>

type_synonym catalog = "string \<Rightarrow> string list \<Rightarrow> cap_error + capability option"

section \<open>Confirmation\<close>

datatype proposal_state = PENDING | CONFIRMED | PROPOSAL_CANCELLED

record proposal =
  pp_proposal_id :: string
  pp_state :: proposal_state
  pp_capability_code :: string
  pp_capability_type :: string
  pp_dispatch_key :: string
  pp_inputs :: inputs
  pp_summary :: string

definition mk_proposal :: "proposal \<Rightarrow> input_error + proposal" where
  \<comment> \<open>the least lengths of the fields\<close>
  "mk_proposal p =
     (if pp_proposal_id p = [] \<or> pp_capability_code p = [] \<or> pp_dispatch_key p = [] \<or> pp_summary p = []
      then Inl ValidationError else Inr p)"

record approved_dispatch =
  ap_proposal_id :: string
  ap_capability_code :: string
  ap_dispatch_key :: string
  ap_inputs :: inputs

datatype confirmation_status = CR_PENDING | CR_CONFIRMED | CR_CANCELLED | CR_REJECTED

record confirmation_result =
  co_status :: confirmation_status
  co_proposal :: "proposal option"
  co_approved :: "approved_dispatch option"
  co_error_code :: "string option"

definition rejected_confirmation :: "string \<Rightarrow> confirmation_result" where
  "rejected_confirmation code = \<lparr>co_status = CR_REJECTED, co_proposal = None, co_approved = None, co_error_code = Some code\<rparr>"

record assessment =
  \<comment> \<open>what the confirmation reads of an \<open>IntentAssessment\<close>\<close>
  ia_status :: string
  ia_capability_code :: "string option"
  ia_inputs :: inputs

definition confirm_words :: "string list" where
  \<comment> \<open>the last two are UTF-8\<close>
  "confirm_words = [''confirm'', ''yes'', ''y'', ''ok'', ''approve'',
     map char_of [231, 161, 174, 232, 174, 164 :: nat], map char_of [229, 144, 140, 230, 132, 143 :: nat]]"

definition cancel_words :: "string list" where
  "cancel_words = [''cancel'', ''no'', ''n'', ''reject'', map char_of [229, 143, 150, 230, 182, 136 :: nat],
     map char_of [228, 184, 141, 231, 161, 174, 232, 174, 164 :: nat], map char_of [230, 139, 146, 231, 187, 157 :: nat]]"

definition stripped_permissions :: "string list \<Rightarrow> string list" where
  "stripped_permissions ps = map py_strip (filter (\<lambda>p. py_strip p \<noteq> []) ps)"

definition create_proposal :: "catalog \<Rightarrow> string \<Rightarrow> assessment \<Rightarrow> string list \<Rightarrow> input_error + confirmation_result" where
  \<comment> \<open>\<open>fresh\<close> is what the factory of proposal ids returns\<close>
  "create_proposal catalog fresh a ps = (case ia_capability_code a of
     None \<Rightarrow> Inr (rejected_confirmation ''NO_MATCHED_INTENT'')
   | Some code \<Rightarrow>
       if ia_status a \<noteq> ''matched'' then Inr (rejected_confirmation ''NO_MATCHED_INTENT'')
       else (case catalog code (stripped_permissions ps) of
           Inl _ \<Rightarrow> Inr (rejected_confirmation ''CAPABILITY_CATALOG_UNAVAILABLE'')
         | Inr None \<Rightarrow> Inr (rejected_confirmation ''CAPABILITY_UNAVAILABLE'')
         | Inr (Some c) \<Rightarrow>
             if pc_confirmation_policy c = ''never'' then Inr (rejected_confirmation ''CONFIRMATION_NOT_REQUIRED'')
             else bindE (validate_capability_inputs c (ia_inputs a)) (\<lambda>v.
               if \<not> inputs_valid v then Inr (rejected_confirmation ''INPUT_VALIDATION_FAILED'')
               else bindE (mk_proposal
                   \<lparr>pp_proposal_id = fresh, pp_state = PENDING, pp_capability_code = pc_code c,
                    pp_capability_type = pc_type c, pp_dispatch_key = pc_dispatch_key c,
                    pp_inputs = ia_inputs a, pp_summary = pc_description c\<rparr>) (\<lambda>p.
                 Inr \<lparr>co_status = CR_PENDING, co_proposal = Some p, co_approved = None, co_error_code = None\<rparr>))))"

definition respond :: "proposal \<Rightarrow> string option \<Rightarrow> confirmation_result" where
  "respond p answer =
     (if pp_state p = PROPOSAL_CANCELLED then rejected_confirmation ''PROPOSAL_CANCELLED''
      else if pp_state p \<noteq> PENDING then rejected_confirmation ''PROPOSAL_NOT_PENDING''
      else
        let word = py_lower (py_strip (case answer of None \<Rightarrow> [] | Some s \<Rightarrow> s))
        in if word = [] then
             \<lparr>co_status = CR_PENDING, co_proposal = Some p, co_approved = None, co_error_code = None\<rparr>
           else if word \<in> set cancel_words then
             \<lparr>co_status = CR_CANCELLED, co_proposal = Some (p\<lparr>pp_state := PROPOSAL_CANCELLED\<rparr>), co_approved = None,
              co_error_code = None\<rparr>
           else if word \<notin> set confirm_words then
             \<lparr>co_status = CR_PENDING, co_proposal = Some p, co_approved = None,
              co_error_code = Some ''UNRECOGNIZED_CONFIRMATION_INPUT''\<rparr>
           else
             \<lparr>co_status = CR_CONFIRMED, co_proposal = Some (p\<lparr>pp_state := CONFIRMED\<rparr>),
              co_approved = Some \<lparr>ap_proposal_id = pp_proposal_id p, ap_capability_code = pp_capability_code p,
                ap_dispatch_key = pp_dispatch_key p, ap_inputs = pp_inputs p\<rparr>,
              co_error_code = None\<rparr>)"

section \<open>Calls\<close>

record agent_call =
  ca_call_id :: string
  ca_capability_code :: string
  ca_conversation_id :: "string option"
  ca_turn_id :: "string option"
  ca_run_id :: "string option"
  ca_parent_run_id :: "string option"
  ca_inputs :: inputs

definition call_identifier :: "string \<Rightarrow> input_error + string" where
  "call_identifier s = (if py_strip s = [] then Inl ValidationError else Inr (py_strip s))"

definition mk_agent_call :: "agent_call \<Rightarrow> input_error + agent_call" where
  "mk_agent_call c =
     bindE (call_identifier (ca_call_id c)) (\<lambda>i.
     bindE (call_identifier (ca_capability_code c)) (\<lambda>code.
     bindE (optE call_identifier (ca_conversation_id c)) (\<lambda>conversation.
     bindE (optE call_identifier (ca_turn_id c)) (\<lambda>turn.
     bindE (optE call_identifier (ca_run_id c)) (\<lambda>run.
     bindE (optE call_identifier (ca_parent_run_id c)) (\<lambda>parent.
       Inr \<lparr>ca_call_id = i, ca_capability_code = code, ca_conversation_id = conversation, ca_turn_id = turn,
            ca_run_id = run, ca_parent_run_id = parent, ca_inputs = ca_inputs c\<rparr>))))))"

section \<open>The policy\<close>

record policy_command =
  py_call :: agent_call
  py_principal :: principal
  py_approved :: "approved_dispatch option"

datatype policy_status = AUTHORIZED | CONFIRMATION_REQUIRED | REJECTED | UNAVAILABLE

record policy_result =
  pl_status :: policy_status
  pl_call :: agent_call
  pl_error_code :: "string option"

definition approval_matches :: "agent_call \<Rightarrow> capability \<Rightarrow> approved_dispatch \<Rightarrow> bool" where
  "approval_matches call c a \<longleftrightarrow>
     ap_capability_code a = ca_capability_code call \<and> ap_capability_code a = pc_code c
     \<and> ap_dispatch_key a = pc_dispatch_key c \<and> same_inputs (ap_inputs a) (ca_inputs call)"

definition validate_call :: "catalog \<Rightarrow> policy_command \<Rightarrow> input_error + policy_result" where
  "validate_call catalog cmd =
     (let call = py_call cmd;
          answer = (\<lambda>status code. Inr \<lparr>pl_status = status, pl_call = call, pl_error_code = code\<rparr>)
      in case catalog (ca_capability_code call) (permission_tuple (py_principal cmd)) of
           Inl _ \<Rightarrow> answer UNAVAILABLE (Some ''CAPABILITY_CATALOG_UNAVAILABLE'')
         | Inr None \<Rightarrow> answer REJECTED (Some ''CAPABILITY_UNAVAILABLE'')
         | Inr (Some c) \<Rightarrow>
             if pc_type c \<noteq> ''agent'' then answer REJECTED (Some ''CAPABILITY_TYPE_NOT_AGENT'')
             else bindE (validate_capability_inputs c (ca_inputs call)) (\<lambda>v.
               if \<not> inputs_valid v then answer REJECTED (Some ''INPUT_VALIDATION_FAILED'')
               else if \<not> pred_option (approval_matches call c) (py_approved cmd)
               then answer REJECTED (Some ''APPROVAL_MISMATCH'')
               else if pc_confirmation_policy c = ''never'' then answer AUTHORIZED None
               else if py_approved cmd = None then answer CONFIRMATION_REQUIRED (Some ''CONFIRMATION_REQUIRED'')
               else answer AUTHORIZED None))"

end
