(* ===== verification/Confirmation_Theorems.thy ===== *)
theory Confirmation_Theorems
  imports Confirmation
begin

text \<open>
  What the catalog hands out, and that no call of an agent is authorised without it and without the
  confirmation its capability asks for.
\<close>

section \<open>The catalog\<close>

text \<open>
  C36: the catalog hands out usable capabilities only. Whatever the rows of the table hold, every
  capability it lists or finds satisfies all checks of a capability, is enabled and of the wanted type or
  code, needs no permission the caller has not, and its dispatch key is bound to a use case of its type.
\<close>

theorem catalog_hands_out_usable:
  assumes "list_available bindings db type ps = Inr cs" "get_available bindings db code ps = Inr found"
    "c \<in> set cs \<or> found = Some c"
  shows "validate_capability c = Inr () \<and> pc_enabled c \<and> set (pc_permission c) \<subseteq> principal_permissions ps
     \<and> map_option db_type (bindings (pc_dispatch_key c)) = Some (pc_type c)
     \<and> (type \<in> {None, Some (pc_type c)} \<or> code = pc_code c)"
proof -
  have "usable bindings ps c \<and> (type \<in> {None, Some (pc_type c)} \<or> code = pc_code c)"
    using assms(3)
  proof
    assume c: "c \<in> set cs"
    from list_available_usable [OF assms(1) c] show ?thesis by (cases type) auto
  next
    assume "found = Some c"
    with get_available_usable [of bindings db code ps c] assms(2) show ?thesis by simp
  qed
  then show ?thesis by (auto simp: usable_def)
qed

definition sample_row :: capability_record where
  "sample_row = \<lparr>cr_id = 1, cr_code = ''tender.draft'', cr_type = ''agent'', cr_description = ''drafts'',
     cr_input_schema = [(''properties'', JObj [(''topic'', JObj [(''type'', JStr ''string'')])])],
     cr_output_schema = [], cr_required_fields = [''topic''], cr_confirmation_policy = ''always'',
     cr_permission = [''tender''], cr_enabled = True, cr_timeout_seconds = 60, cr_error_boundary = ''e'',
     cr_dispatch_key = ''tender'', cr_retrieval_metadata = [], cr_created_at = 0, cr_updated_at = 0\<rparr>"

definition sample_catalog_db :: capability_db where
  "sample_catalog_db = \<lparr>cdb_rows = [sample_row], cdb_collate = id\<rparr>"

definition sample_bindings :: dispatch_registry where
  "sample_bindings = (\<lambda>key. if key = ''tender'' then Some \<lparr>db_dispatch_key = ''tender'', db_type = ''agent'', db_is_class = True\<rparr> else None)"

definition drafting :: capability where
  "drafting = projr (to_capability sample_row)"

lemma drafting_available:
  "list_available sample_bindings sample_catalog_db (Some ''agent'') ['' tender ''] = Inr [drafting]"
  "get_available sample_bindings sample_catalog_db ''tender.draft'' ['' tender ''] = Inr (Some drafting)"
  "get_available sample_bindings sample_catalog_db ''tender.draft'' [''tender''] = Inr (Some drafting)"
  by code_simp+

theorem catalog_hands_out_usable_witness:
  "validate_capability drafting = Inr () \<and> pc_enabled drafting
     \<and> set (pc_permission drafting) \<subseteq> principal_permissions ['' tender '']
     \<and> map_option db_type (sample_bindings (pc_dispatch_key drafting)) = Some (pc_type drafting)
     \<and> (Some ''agent'' \<in> {None, Some (pc_type drafting)} \<or> ''tender.draft'' = pc_code drafting)"
  by (rule catalog_hands_out_usable [OF drafting_available(1,2)]) simp

section \<open>Authorised calls\<close>

inductive issued :: "catalog \<Rightarrow> string \<Rightarrow> approved_dispatch \<Rightarrow> bool" for catalog where
  \<comment> \<open>an approval that a user's word to a proposal of this catalog has produced\<close>
  "create_proposal catalog fresh a ps = Inr res \<Longrightarrow> co_proposal res = Some p \<Longrightarrow>
     co_approved (respond p (Some word)) = Some ap \<Longrightarrow> issued catalog word ap"

inductive_simps issued_iff: "issued catalog word ap"

lemma respond_approves:
  "co_approved (respond p answer) = Some ap \<longleftrightarrow> pp_state p = PENDING
     \<and> (\<exists>word. answer = Some word \<and> py_lower (py_strip word) \<in> set confirm_words)
     \<and> ap = \<lparr>ap_proposal_id = pp_proposal_id p, ap_capability_code = pp_capability_code p,
             ap_dispatch_key = pp_dispatch_key p, ap_inputs = pp_inputs p\<rparr>"
proof -
  have "set cancel_words \<inter> set confirm_words = {}" "[] \<notin> set confirm_words" "py_lower (py_strip []) = []" by code_simp+
  then show ?thesis
    by (cases answer) (auto simp: respond_def Let_def rejected_confirmation_def)
qed

definition confirmed_by :: "string \<Rightarrow> agent_call \<Rightarrow> capability \<Rightarrow> approved_dispatch \<Rightarrow> bool" where
  \<comment> \<open>the word confirms, and what it confirms is this call\<close>
  "confirmed_by word call c ap \<longleftrightarrow> py_lower (py_strip word) \<in> set confirm_words \<and> approval_matches call c ap"

text \<open>
  C39: no agent is called without permission and confirmation. When the policy authorises a call, its
  capability is an agent's that the catalog now hands out to the principal, the inputs are complete and
  declared, and either the capability needs no confirmation or the approval came from a user's word of
  confirmation to a proposal with exactly this capability, dispatch key and these inputs. Every approval
  the caller presents comes from the confirmation.
\<close>

theorem authorized_call_is_confirmed:
  assumes "validate_call (get_available bindings db) cmd = Inr res" "pl_status res = AUTHORIZED"
    "\<And>ap. py_approved cmd = Some ap \<Longrightarrow> issued catalog word ap"
  shows "\<exists>c v. usable bindings (permission_tuple (py_principal cmd)) c \<and> pc_type c = ''agent''
     \<and> pc_code c = ca_capability_code (py_call cmd) \<and> pl_call res = py_call cmd
     \<and> validate_capability_inputs c (ca_inputs (py_call cmd)) = Inr v \<and> inputs_valid v
     \<and> (pc_confirmation_policy c = ''never'' \<or> (\<exists>ap. py_approved cmd = Some ap \<and> confirmed_by word (py_call cmd) c ap))"
proof -
  let ?ps = "permission_tuple (py_principal cmd)"
  let ?found = "get_available bindings db (ca_capability_code (py_call cmd)) ?ps"
  have "\<exists>c. ?found = Inr (Some c)"
  proof (cases ?found)
    case (Inr found)
    with assms(1,2) show ?thesis by (cases found) (auto simp: validate_call_def Let_def)
  qed (use assms(1,2) in \<open>auto simp: validate_call_def Let_def\<close>)
  then obtain c where found: "?found = Inr (Some c)" ..
  note call = assms(1) [unfolded validate_call_def Let_def found sum.case option.case]
  from call assms(2) have agent: "pc_type c = ''agent''" by (auto split: if_splits)
  from call assms(2) obtain v where c: "?found = Inr (Some c)"
    "pc_type c = ''agent''" "pl_call res = py_call cmd" "validate_capability_inputs c (ca_inputs (py_call cmd)) = Inr v"
    "inputs_valid v" "pred_option (approval_matches (py_call cmd) c) (py_approved cmd)"
    "pc_confirmation_policy c = ''never'' \<or> py_approved cmd \<noteq> None"
    by (auto simp: errE_simps found agent split: if_splits)
  have "confirmed_by word (py_call cmd) c ap" if "py_approved cmd = Some ap" for ap
    using assms(3) [OF that] c(6) that by (auto simp: confirmed_by_def issued_iff respond_approves)
  with get_available_usable [OF c(1)] c(2-5,7) show ?thesis by blast
qed

definition sample_principal :: principal where
  "sample_principal = \<lparr>pr_subject = Some ''alice'', pr_permissions = [''tender''], pr_authenticated = True\<rparr>"

definition sample_assessment :: assessment where
  "sample_assessment = \<lparr>ia_status = ''matched'', ia_capability_code = Some ''tender.draft'',
     ia_inputs = [(''topic'', Plain (JStr ''roads''))]\<rparr>"

abbreviation sample_offer :: catalog where "sample_offer \<equiv> get_available sample_bindings sample_catalog_db"

definition sample_proposal :: confirmation_result where
  "sample_proposal = projr (create_proposal sample_offer ''p1'' sample_assessment [''tender''])"

definition sample_approval :: approved_dispatch where
  "sample_approval = the (co_approved (respond (the (co_proposal sample_proposal)) (Some '' YES '')))"

definition sample_policy_command :: policy_command where
  "sample_policy_command = \<lparr>py_call = \<lparr>ca_call_id = ''c1'', ca_capability_code = ''tender.draft'',
      ca_conversation_id = None, ca_turn_id = None, ca_run_id = None, ca_parent_run_id = None,
      ca_inputs = [(''topic'', Plain (JStr ''roads''))]\<rparr>,
     py_principal = sample_principal, py_approved = Some sample_approval\<rparr>"

theorem authorized_call_is_confirmed_witness:
  "\<exists>c v. usable sample_bindings (permission_tuple (py_principal sample_policy_command)) c \<and> pc_type c = ''agent''
     \<and> pc_code c = ca_capability_code (py_call sample_policy_command)
     \<and> validate_capability_inputs c (ca_inputs (py_call sample_policy_command)) = Inr v \<and> inputs_valid v
     \<and> (pc_confirmation_policy c = ''never''
        \<or> (\<exists>ap. py_approved sample_policy_command = Some ap \<and> confirmed_by '' YES '' (py_call sample_policy_command) c ap))"
proof -
  have "(case validate_call sample_offer sample_policy_command of Inr r \<Rightarrow> pl_status r = AUTHORIZED | _ \<Rightarrow> False)" by code_simp
  then obtain res where res: "validate_call sample_offer sample_policy_command = Inr res" "pl_status res = AUTHORIZED"
    by (auto split: sum.splits)
  have "isl (create_proposal sample_offer ''p1'' sample_assessment [''tender'']) = False" by code_simp
  then have "create_proposal sample_offer ''p1'' sample_assessment [''tender''] = Inr sample_proposal"
    by (simp add: sample_proposal_def sum.collapse(2))
  moreover have "Option.is_none (co_proposal sample_proposal) = False" by code_simp
  then have "co_proposal sample_proposal = Some (the (co_proposal sample_proposal))"
    by (cases "co_proposal sample_proposal") simp_all
  moreover have "Option.is_none (co_approved (respond (the (co_proposal sample_proposal)) (Some '' YES ''))) = False" by code_simp
  then have "co_approved (respond (the (co_proposal sample_proposal)) (Some '' YES '')) = Some sample_approval"
    by (cases "co_approved (respond (the (co_proposal sample_proposal)) (Some '' YES ''))") (simp_all add: sample_approval_def)
  ultimately have "issued sample_offer '' YES '' sample_approval" by (rule issued.intros)
  then have "issued sample_offer '' YES '' ap" if "py_approved sample_policy_command = Some ap" for ap
    using that by (simp add: sample_policy_command_def)
  from authorized_call_is_confirmed [OF res this] show ?thesis by blast
qed

end
