(* ===== verification/Attachment_Theorems.thy ===== *)
theory Attachment_Theorems
  imports Attachment
begin

text \<open>
  The life of stored attachments: whatever operations run, in any order and by anybody, and whatever
  else happens to the directories.
\<close>

section \<open>Operations\<close>






section \<open>Records\<close>

definition record_ok :: "storage_config \<Rightarrow> string \<Rightarrow> stored_attachment \<Rightarrow> bool" where
  "record_ok cfg aid r \<longleftrightarrow>
     at_attachment_id (sa_reference r) = aid \<and> at_status (sa_reference r) = ''available''
     \<and> at_media_type (sa_reference r) \<in> set (sg_media_types cfg)
     \<and> 0 < at_size_bytes (sa_reference r) \<and> at_size_bytes (sa_reference r) \<le> sg_max_size_bytes cfg"

abbreviation records_ok :: "storage_config \<Rightarrow> storage \<Rightarrow> bool" where
  "records_ok cfg s \<equiv> (\<forall>(aid, r) \<in> set (st_records s). record_ok cfg aid r)"





lemma remove_dir_records [simp]: "st_records (remove_dir aid s) = st_records s"
  by (simp add: remove_dir_def)









section \<open>Invariants\<close>










section \<open>Deliveries\<close>

lemma unavailable_Inr:
  "status \<noteq> ''available'' \<Longrightarrow> unavailable status code a = Inr r \<longleftrightarrow>
     r = \<lparr>rd_status = status, rd_attachment = a, rd_content = None, rd_error_code = Some code\<rparr>"
  by (auto simp: unavailable_def mk_read_result_def read_result_ok_def)






definition sample_storage_config :: storage_config where
  "sample_storage_config = \<lparr>sg_max_size_bytes = 100, sg_retention = 60, sg_media_types = [''text/plain'']\<rparr>"

definition sample_context :: access_context where
  "sample_context = \<lparr>ax_subject = ''alice'', ax_conversation_id = None\<rparr>"

definition sample_sha :: "bytes \<Rightarrow> string" where
  "sample_sha content = replicate 64 CHR ''a''"

definition sample_id :: string where "sample_id = replicate 32 CHR ''0''"

definition staged_as :: "string \<Rightarrow> storage \<times> (attachment_error + attachment_ref)" where
  "staged_as name = stage_attachment sample_storage_config sample_sha (Some name) (Some '' Text/Plain '') [104, 105]
     sample_context 0 0 sample_id False False \<lparr>st_records = [], st_dirs = []\<rparr>"


text \<open>
  A file whose name ends in \<open>.part\<close> is accepted, but is not among the files a later reading looks for:
  the first reading calls the attachment missing and deletes it.
\<close>

lemma part_file_is_lost:
  "snd (staged_as ''notes.txt'') \<noteq> Inl e
    \<and> rd_status (projr (snd (read_attachment sample_sha sample_id sample_context 1 (fst (staged_as ''notes.txt''))))) = ''available''"
  "snd (staged_as ''notes.part'') \<noteq> Inl e
    \<and> rd_status (projr (snd (read_attachment sample_sha sample_id sample_context 1 (fst (staged_as ''notes.part''))))) = ''missing''
    \<and> st_dirs (fst (read_attachment sample_sha sample_id sample_context 1 (fst (staged_as ''notes.part'')))) = []"
proof -
  have "isl (snd (staged_as ''notes.txt'')) = False" "isl (snd (staged_as ''notes.part'')) = False" by code_simp+
  moreover have
    "rd_status (projr (snd (read_attachment sample_sha sample_id sample_context 1 (fst (staged_as ''notes.txt''))))) = ''available''"
    "rd_status (projr (snd (read_attachment sample_sha sample_id sample_context 1 (fst (staged_as ''notes.part''))))) = ''missing''"
    "st_dirs (fst (read_attachment sample_sha sample_id sample_context 1 (fst (staged_as ''notes.part'')))) = []" by code_simp+
  ultimately show
    "snd (staged_as ''notes.txt'') \<noteq> Inl e
      \<and> rd_status (projr (snd (read_attachment sample_sha sample_id sample_context 1 (fst (staged_as ''notes.txt''))))) = ''available''"
    "snd (staged_as ''notes.part'') \<noteq> Inl e
      \<and> rd_status (projr (snd (read_attachment sample_sha sample_id sample_context 1 (fst (staged_as ''notes.part''))))) = ''missing''
      \<and> st_dirs (fst (read_attachment sample_sha sample_id sample_context 1 (fst (staged_as ''notes.part'')))) = []" by auto
qed

end
