(* ===== verification/Spec2Isabelle.thy ===== *)
theory Spec2Isabelle
  imports Task_Worker_Theorems Task_Owned Task_Paging Workflow_Theorems Workflow_Service_Theorems
    Confirmation_Theorems Attachment_Theorems
begin

text \<open>
  Verification of the platform of go-agent-system (Python, \<open>src/app/platform\<close>): tasks, workflows, the
  capability catalog, the authorisation of agent calls, and attachments.

  \<^bold>\<open>The program.\<close> A \<^emph>\<open>task\<close> is a unit of background work with a bounded number of attempts, leased to
  workers; a \<^emph>\<open>workflow run\<close> executes the nodes of an acyclic definition, each by one call of an
  executor. Both are aggregates with an event log, changed only by their own methods, stored by a
  PostgreSQL adapter behind a repository port, and driven by an application service that records the
  commands it has handled. A worker leases tasks and reports what their executor answered; coordinators
  recover expired leases and requeue due retries through the same service. The \<^emph>\<open>capability catalog\<close> says
  which agents, tools and workflows exist and what they need. The registry of workflow versions checks its
  nodes against it, and a call of an agent is authorised only against it, confirmed by the user where the
  capability asks for that. \<^emph>\<open>Attachments\<close> are files staged for one owner until they are consumed or expire;
  a call names them by id.

  \<^bold>\<open>Shared theories.\<close> \<open>Prelude\<close> (errors as sums, raising functions, actions on a state that keep the state
  they leave when they raise, text and time), \<open>Json\<close> (JSON values and \<open>json.dumps\<close>), \<open>Actions\<close> (rules about
  what an action leads to), \<open>Tables\<close> (tables as lists of rows: unique rows, stable sorting, btrim).

  \<^bold>\<open>Tasks.\<close>
  \<^item> \<open>Task_Events\<close>, \<open>Task_Attempt\<close>, \<open>Task_Aggregate\<close>: \<open>platform/task/domain/models.py\<close>, in its order: enums,
    value checks, \<open>TaskEvent\<close>, \<open>TaskAttempt\<close>, \<open>Task\<close>, one definition per method.
  \<^item> \<open>Task_Machine\<close>, \<open>Task_Lifecycle\<close>, \<open>Task_Moves\<close>, \<open>Task_Reach\<close>, \<open>Task_Checks\<close>, \<open>Task_Samples\<close>: the methods as an
    inductive step relation, the abstract life cycle over the event log, the invariant of reachable tasks.
  \<^item> \<open>Task_Records\<close>, \<open>Task_Store\<close>, \<open>Task_Store_Facts\<close>: rows, mapper, schema constraints and every method of
    \<open>PostgresTaskRepository\<close>. \<open>Task_Port\<close> holds the port and its contract as a locale; \<open>Task_Postgres\<close> interprets
    it on the adapter.
  \<^item> \<open>Task_Service\<close>, \<open>Task_Service_Spec\<close>: \<open>TaskLifecycleService\<close> and its specification over a map of
    aggregates and a set of handled commands, with the refinement proved inside the contract.
  \<^item> \<open>Task_Scheduling\<close>, \<open>Task_Owned\<close>, \<open>Task_Worker\<close>: the coordinators of \<open>application/recovery.py\<close>, the use cases of
    a user's own tasks and trusted submission, and the worker, a poll being two transactions around the
    executor. \<open>Task_Paging\<close>, \<open>Task_Recovery\<close>, \<open>Task_Worker_Theorems\<close>: C27, C37, C38.
  \<^item> \<open>Task_Theorems\<close>, \<open>Task_Progress\<close>, \<open>Task_Service_Theorems\<close>, \<open>Task_Properties\<close>: the properties C1 to C18.

  \<^bold>\<open>Workflows.\<close>
  \<^item> \<open>Workflow_Definition\<close>, \<open>Workflow_Node\<close>, \<open>Workflow_Run\<close>: \<open>platform/workflow/domain/models.py\<close>: definitions
    with the cycle search, node runs, runs. Methods mutate the run in place: a raising method returns the
    partly changed run with the error.
  \<^item> \<open>Workflow_Machine\<close>, \<open>Workflow_Steps\<close>, \<open>Workflow_Invariants\<close>, \<open>Workflow_Dependencies\<close>, \<open>Workflow_Growth\<close>: the
    operations as steps (also the raising ones), invariants, dependencies, how much one operation logs.
  \<^item> \<open>Workflow_Records\<close>, \<open>Workflow_Store\<close>, \<open>Workflow_Port\<close>, \<open>Workflow_Postgres\<close>, \<open>Workflow_Contract\<close>: rows and
    mapper, the PostgreSQL repository, the port's contract and its interpretation.
  \<^item> \<open>Principal\<close>, \<open>Workflow_Executor\<close>, \<open>Workflow_Application\<close>: the principal of a request, \<open>ports/executor.py\<close>
    and \<open>application/service.py\<close>, with \<open>execute_node\<close> split where it commits and asks the executor.
  \<^item> \<open>Workflow_Registry\<close>: \<open>application/registry.py\<close>, whose laws are the contract the use cases rest on.
  \<^item> \<open>Results\<close>, \<open>Workflow_Service\<close>, \<open>Workflow_Traffic\<close>, \<open>Workflow_Use_Cases\<close>: what one use case does to the store,
    proved inside the two contracts; requests of many callers served one transaction at a time.
  \<^item> \<open>Workflow_Theorems\<close>: the properties C19 to C26; \<open>Workflow_Service_Theorems\<close>: C28 to C35.

  \<^bold>\<open>Capabilities and calls\<close> (\<open>platform/interaction\<close>).
  \<^item> \<open>Capability\<close>, \<open>Catalog\<close>: \<open>domain/capability.py\<close>, the dispatch registry, the declarations of attachments in
    input schemas; the rows of the catalog, their mapper, the repository and the catalog service.
  \<^item> \<open>Interaction_Inputs\<close>: the check of inputs against a schema and the replacement of attachment ids.
  \<^item> \<open>Confirmation\<close>, \<open>Confirmation_Theorems\<close>: proposals, the user's answers to them, and the policy that
    authorises a call; the properties C36 and C39.

  \<^bold>\<open>Attachments\<close> (\<open>platform/attachment\<close>). \<open>Attachment\<close>: contracts and every operation of the storage on records and
  directories. \<open>Attachment_Theorems\<close>: C40, over any sequence of operations by anybody.

  \<^bold>\<open>Correspondence.\<close> Dataclasses are records, enums datatypes, raised exceptions values of an error
  datatype (one constructor per class), \<open>None\<close> is \<open>option\<close>. A \<open>datetime\<close> is naive or aware, an aware one
  its instant in microseconds. Strings are lists of characters below
  256: code points of Latin-1, and UTF-8 bytes in the few literals outside it. UUIDs are 128 bit words. Random UUIDs and
  the clock are arguments. Tables are lists of rows; a transaction is a function from a database to a
  database or an error, checked against the constraints when it commits.

  \<^bold>\<open>Bounds.\<close> No definition uses fuel: every source loop is structural over a list, and the cycle search
  has its own termination measure (nodes not yet visited). The number of events is bounded by a theorem.

  Following the cursors of the task list ends after one page more than there are tasks (C27).

  \<^bold>\<open>Parameters.\<close> The SHA-256 digest behind input fingerprints and attachments, the executor of a node (a function of
  its previous calls) and of a task, the catalog where the registry or the policy asks it, the reader of
  attachments where a call resolves its inputs, and the words a user types.

  \<^bold>\<open>Not modelled.\<close> The width of BIGINT columns, Python's recursion limit, the key order of JSONB,
  concurrent transactions inside one repository call (row locks make them serial), reading attachment
  manifests back after a restart, the texts of messages, the worker's polling loop, network and file system
  adapters, HTTP schemas, the composition root, prompts and the conversations around model calls, policy
  ingestion (regular expressions over Unicode), retrieval scores (floating point).
\<close>

end
